(* ===== verification/GoBase.thy ===== *)
theory GoBase
  imports Complex_Main "HOL-Library.Sublist" "HOL-Library.AList" "HOL-Library.Multiset" "HOL-Library.Code_Target_Nat"
begin

text \<open>
  The prelude of the development: the lemma collections, the result type that stands for Go's
  \<open>(value, error)\<close> pairs, and generic facts on lists and maps that several components share.
\<close>

named_theorems go_str \<open>rewrite rules of the string library\<close>
named_theorems go_num \<open>rewrite rules for wrapped integers, durations and instants\<close>
named_theorems step_simps \<open>definitions of the operations of a component, unfolded in its invariant proofs\<close>

section \<open>Fallible results\<close>

text \<open>A Go function returning \<open>(T, error)\<close> is a sum: \<open>Inl\<close> carries the error.\<close>

type_synonym ('e, 'a) result = "'e + 'a"

definition bind_res :: "'e + 'a \<Rightarrow> ('a \<Rightarrow> 'e + 'b) \<Rightarrow> 'e + 'b" where
  "bind_res r f = (case r of Inl e \<Rightarrow> Inl e | Inr x \<Rightarrow> f x)"

definition is_ok :: "'e + 'a \<Rightarrow> bool" where
  "is_ok r = (case r of Inl _ \<Rightarrow> False | Inr _ \<Rightarrow> True)"

lemma bind_res_simps [simp]:
  "bind_res (Inl e) f = Inl e"
  "bind_res (Inr x) f = f x"
  by (simp_all add: bind_res_def)

lemma is_ok_simps [simp]: "\<not> is_ok (Inl e)" "is_ok (Inr x)"
  by (simp_all add: is_ok_def)

lemma bind_res_Inr_iff: "bind_res r f = Inr y \<longleftrightarrow> (\<exists>x. r = Inr x \<and> f x = Inr y)"
  by (cases r) auto

lemma is_ok_iff: "is_ok r \<longleftrightarrow> (\<exists>x. r = Inr x)"
  by (cases r) auto

lemma is_ok_bind: "is_ok (bind_res r f) \<longleftrightarrow> (\<exists>x. r = Inr x \<and> is_ok (f x))"
  by (cases r) auto

text \<open>
  A validation loop \<open>for _, p := range parts { if err := check(p); err != nil { return err } }\<close>:
  the first error ends it.
\<close>

fun check_all :: "('a \<Rightarrow> 'e + unit) \<Rightarrow> 'a list \<Rightarrow> 'e + unit" where
  "check_all f [] = Inr ()"
| "check_all f (x # xs) = (case f x of Inl e \<Rightarrow> Inl e | Inr _ \<Rightarrow> check_all f xs)"

lemma check_all_ok: "check_all f xs = Inr u \<longleftrightarrow> (\<forall>x \<in> set xs. f x = Inr ())"
  by (induction xs) (auto split: sum.splits)

lemma check_all_error: "check_all f xs = Inl e \<Longrightarrow> \<exists>x \<in> set xs. f x = Inl e"
  by (induction xs) (auto split: sum.splits)

section \<open>Lists and maps\<close>

lemma list_all_mono_set: "list_all P xs \<Longrightarrow> set ys \<subseteq> set xs \<Longrightarrow> list_all P ys"
  by (auto simp: list_all_iff)

lemma length_filter_lt: "x \<in> set xs \<Longrightarrow> \<not> P x \<Longrightarrow> length (filter P xs) < length xs"
  by (rule length_filter_less) auto

lemma map_le_dom_restrict: "dom (m |` A) = dom m \<inter> A"
  by (auto simp: restrict_map_def split: if_splits)

lemma finite_dom_restrict: "finite (dom m) \<Longrightarrow> finite (dom (m |` A))"
  by (simp add: map_le_dom_restrict)

lemma card_dom_upd_le:
  assumes "finite (dom m)"
  shows "card (dom (m(k \<mapsto> v))) \<le> Suc (card (dom m))"
  using assms by (simp add: card_insert_if)

text \<open>
  Go's \<open>for k, v := range m { if p(k, v) { delete(m, k) } }\<close>: deleting while ranging is
  allowed, every entry is visited, so the loop removes exactly the entries with \<open>p\<close>.
\<close>

definition map_prune :: "('k \<Rightarrow> 'v \<Rightarrow> bool) \<Rightarrow> ('k \<rightharpoonup> 'v) \<Rightarrow> ('k \<rightharpoonup> 'v)" where
  "map_prune p m = (\<lambda>k. case m k of None \<Rightarrow> None | Some v \<Rightarrow> if p k v then None else Some v)"

lemma map_prune_Some [simp]: "map_prune p m k = Some v \<longleftrightarrow> m k = Some v \<and> \<not> p k v"
  by (auto simp: map_prune_def split: option.splits)

lemma map_prune_None [simp]: "map_prune p m k = None \<longleftrightarrow> (\<forall>v. m k = Some v \<longrightarrow> p k v)"
  by (auto simp: map_prune_def split: option.splits)

lemma dom_map_prune_subset: "dom (map_prune p m) \<subseteq> dom m"
  by (auto simp: dom_def)

lemma finite_dom_map_prune [intro]: "finite (dom m) \<Longrightarrow> finite (dom (map_prune p m))"
  using dom_map_prune_subset finite_subset by metis

section \<open>Maps that are ranged over\<close>

text \<open>
  A map the code ranges over is an association list with distinct keys, read with \<open>map_of\<close>, written
  with \<open>AList.update\<close> and \<open>AList.delete\<close>. The order in which Go's \<open>range\<close> visits the entries is not
  specified: it is an argument, a rank of the keys, and \<open>range_order\<close> sorts by it.
\<close>

definition range_order :: "('k \<Rightarrow> nat) \<Rightarrow> ('k \<times> 'v) list \<Rightarrow> ('k \<times> 'v) list" where
  "range_order rank m = sort_key (\<lambda>e. rank (fst e)) m"

lemma set_range_order [simp]: "set (range_order rank m) = set m"
  by (simp add: range_order_def)

lemma mset_range_order [simp]: "mset (range_order rank m) = mset m"
  by (simp add: range_order_def)

lemma length_range_order [simp]: "length (range_order rank m) = length m"
  by (simp add: range_order_def)

lemma distinct_range_order [simp]:
  "distinct (map fst (range_order rank m)) \<longleftrightarrow> distinct (map fst m)"
  by (metis mset_map mset_eq_imp_distinct_iff mset_range_order)

definition has_key :: "('k \<times> 'v) list \<Rightarrow> 'k \<Rightarrow> bool" where
  "has_key m k = (map_of m k \<noteq> None)"

lemma has_key_iff: "has_key m k \<longleftrightarrow> k \<in> fst ` set m"
  by (simp add: has_key_def map_of_eq_None_iff)

lemma length_delete_less: "k \<in> fst ` set m \<Longrightarrow> length (AList.delete k m) < length m"
proof -
  assume "k \<in> fst ` set m"
  then obtain v where "(k, v) \<in> set m" by auto
  then show ?thesis
    unfolding AList.delete_eq by (rule length_filter_less) simp
qed

lemma length_delete_distinct:
  assumes "distinct (map fst m)" and "k \<in> fst ` set m"
  shows "Suc (length (AList.delete k m)) = length m"
  using assms
proof (induction m)
  case (Cons e m)
  then show ?case
    by (cases "fst e = k") (auto simp: AList.delete_eq image_iff intro!: arg_cong [where f = length] filter_True)
qed simp

lemma length_update: "length (AList.update k v m) = (if k \<in> fst ` set m then length m else Suc (length m))"
  by (induction m) auto

lemma set_update_cases:
  assumes "e \<in> set (AList.update k v m)"
  obtains "e \<in> set m" | "e = (k, v)"
proof -
  have "e \<in> set m \<or> e = (k, v)"
    using assms by (induction m) (auto split: if_splits)
  then show thesis using that by blast
qed

end
