(* ===== verification/GoStrings.thy ===== *)
theory GoStrings
  imports GoBase
begin

text \<open>
  Go strings are byte sequences: a \<open>string\<close> here is the list of its bytes (a HOL \<open>char\<close> is
  one byte, 0 to 255). This theory models what the program uses of packages \<open>strings\<close>,
  \<open>unicode/utf8\<close> and \<open>unicode\<close>. Runes are natural numbers. The Unicode tables above
  ASCII (letter case, letters, digits) are data of the Go distribution and enter as the record
  \<open>unicode\<close>, which every operation that consults them takes as its first argument; white
  space, which is a fixed list of runes, is written out.
\<close>

section \<open>Bytes\<close>

type_synonym rune = nat

abbreviation byte :: "char \<Rightarrow> nat" where "byte c \<equiv> of_char c"

definition is_ascii :: "string \<Rightarrow> bool" where
  "is_ascii s = list_all (\<lambda>c. byte c < 128) s"

lemma is_ascii_simps [simp]:
  "is_ascii []"
  "is_ascii (c # s) \<longleftrightarrow> byte c < 128 \<and> is_ascii s"
  "is_ascii (s @ t) \<longleftrightarrow> is_ascii s \<and> is_ascii t"
  by (simp_all add: is_ascii_def)

lemma is_ascii_subset: "is_ascii s \<Longrightarrow> set t \<subseteq> set s \<Longrightarrow> is_ascii t"
  by (auto simp: is_ascii_def list_all_iff)

section \<open>Prefixes, suffixes, substrings\<close>

definition has_prefix :: "string \<Rightarrow> string \<Rightarrow> bool" where
  "has_prefix s p = (take (length p) s = p)"

definition has_suffix :: "string \<Rightarrow> string \<Rightarrow> bool" where
  "has_suffix s p = (length p \<le> length s \<and> drop (length s - length p) s = p)"

definition trim_suffix :: "string \<Rightarrow> string \<Rightarrow> string" where
  "trim_suffix s p = (if has_suffix s p then take (length s - length p) s else s)"

text \<open>\<open>strings.CutPrefix\<close>: the rest after the prefix, if it is there.\<close>

definition cut_prefix :: "string \<Rightarrow> string \<Rightarrow> string option" where
  "cut_prefix s p = (if has_prefix s p then Some (drop (length p) s) else None)"

fun str_contains :: "string \<Rightarrow> string \<Rightarrow> bool" where
  "str_contains [] p = (p = [])"
| "str_contains (c # s) p = (has_prefix (c # s) p \<or> str_contains s p)"

definition contains_any :: "string \<Rightarrow> string \<Rightarrow> bool" where
  "contains_any s cs = list_ex (\<lambda>c. c \<in> set cs) s"

lemma has_prefix_iff: "has_prefix s p \<longleftrightarrow> (\<exists>t. s = p @ t)"
  by (auto simp: has_prefix_def) (metis append_take_drop_id)

lemma has_prefix_append [simp, go_str]: "has_prefix (p @ t) p"
  by (simp add: has_prefix_iff)

lemma has_prefix_Nil [simp, go_str]: "has_prefix s []"
  by (simp add: has_prefix_def)

lemma has_prefix_Cons [go_str]: "has_prefix (c # s) (d # p) \<longleftrightarrow> c = d \<and> has_prefix s p"
  by (auto simp: has_prefix_iff)

lemma has_suffix_iff: "has_suffix s p \<longleftrightarrow> (\<exists>t. s = t @ p)"
proof
  assume "has_suffix s p"
  then show "\<exists>t. s = t @ p"
    by (auto simp: has_suffix_def) (metis append_take_drop_id)
qed (auto simp: has_suffix_def)

lemma has_suffix_append [simp, go_str]: "has_suffix (t @ p) p"
  by (simp add: has_suffix_iff)

lemma has_suffix_single [go_str]: "has_suffix s [c] \<longleftrightarrow> s \<noteq> [] \<and> last s = c"
  by (auto simp: has_suffix_iff) (metis append_butlast_last_id)

lemma trim_suffix_append [simp, go_str]: "trim_suffix (t @ p) p = t"
  by (simp add: trim_suffix_def)

lemma trim_suffix_cases:
  obtains "\<not> has_suffix s p" "trim_suffix s p = s" | t where "s = t @ p" "trim_suffix s p = t"
  by (metis has_suffix_iff trim_suffix_append trim_suffix_def)

lemma str_contains_iff: "str_contains s p \<longleftrightarrow> (\<exists>u v. s = u @ p @ v)"
proof (induction s)
  case Nil
  show ?case by auto
next
  case (Cons c s)
  show ?case
  proof
    assume "str_contains (c # s) p"
    then consider "has_prefix (c # s) p" | "str_contains s p" by auto
    then show "\<exists>u v. c # s = u @ p @ v"
    proof cases
      case 1
      then show ?thesis by (metis has_prefix_iff append_Nil)
    next
      case 2
      then show ?thesis using Cons.IH by (metis append_Cons)
    qed
  next
    assume "\<exists>u v. c # s = u @ p @ v"
    then obtain u v where uv: "c # s = u @ p @ v" by blast
    show "str_contains (c # s) p"
    proof (cases u)
      case Nil
      then have "has_prefix (c # s) p" using uv by (simp add: has_prefix_iff)
      then show ?thesis by simp
    next
      case (Cons x xs)
      then show ?thesis using uv Cons.IH by auto
    qed
  qed
qed

lemma str_contains_single [go_str]: "str_contains s [c] \<longleftrightarrow> c \<in> set s"
  by (induction s) (auto simp: has_prefix_def)

lemma contains_any_iff [go_str]: "contains_any s cs \<longleftrightarrow> (\<exists>c \<in> set s. c \<in> set cs)"
  by (simp add: contains_any_def list_ex_iff)


section \<open>Splitting and joining\<close>

text \<open>\<open>strings.Split(s, sep)\<close> and \<open>strings.SplitSeq\<close> for a one-byte separator.\<close>

fun split_on :: "char \<Rightarrow> string \<Rightarrow> string list" where
  "split_on c [] = [[]]"
| "split_on c (x # s) =
     (if x = c then [] # split_on c s
      else (case split_on c s of [] \<Rightarrow> [[x]] | p # ps \<Rightarrow> (x # p) # ps))"

text \<open>\<open>strings.SplitN(s, sep, n)\<close>: at most \<open>n\<close> parts, the last one unsplit; no part for \<open>n = 0\<close>.\<close>

fun split_n :: "nat \<Rightarrow> char \<Rightarrow> string \<Rightarrow> string list" where
  "split_n 0 c s = []"
| "split_n (Suc 0) c s = [s]"
| "split_n (Suc (Suc n)) c s =
     (if c \<in> set s
      then takeWhile (\<lambda>x. x \<noteq> c) s # split_n (Suc n) c (tl (dropWhile (\<lambda>x. x \<noteq> c) s))
      else [s])"

fun join :: "string \<Rightarrow> string list \<Rightarrow> string" where
  "join sep [] = []"
| "join sep [p] = p"
| "join sep (p # ps) = p @ sep @ join sep ps"

lemma split_on_not_Nil [simp, go_str]: "split_on c s \<noteq> []"
  by (induction s) (auto split: list.splits)

lemma split_on_no_sep: "p \<in> set (split_on c s) \<Longrightarrow> c \<notin> set p"
  by (induction s arbitrary: p) (auto split: list.splits if_splits)

lemma split_on_set: "p \<in> set (split_on c s) \<Longrightarrow> set p \<subseteq> set s"
proof (induction s arbitrary: p)
  case (Cons x s)
  then show ?case
    by (cases "split_on c s") (fastforce split: if_splits)+
qed simp

lemma length_split_on: "length (split_on c s) = Suc (count_list s c)"
  by (induction s) (auto split: list.splits)

lemma join_Cons: "ps \<noteq> [] \<Longrightarrow> join sep (p # ps) = p @ sep @ join sep ps"
  by (cases ps) auto

lemma join_split_on [simp, go_str]: "join [c] (split_on c s) = s"
proof (induction s)
  case (Cons x s)
  obtain p ps where e: "split_on c s = p # ps"
    by (metis neq_Nil_conv split_on_not_Nil)
  with Cons.IH show ?case
    by (cases ps) auto
qed simp

lemma split_on_append: "c \<notin> set p \<Longrightarrow> split_on c (p @ c # s) = p # split_on c s"
  by (induction p) auto

lemma split_on_single: "c \<notin> set p \<Longrightarrow> split_on c p = [p]"
  by (induction p) auto

lemma split_on_join:
  assumes "ps \<noteq> []" and "\<forall>p \<in> set ps. c \<notin> set p"
  shows "split_on c (join [c] ps) = ps"
  using assms
proof (induction ps rule: induct_list012)
  case (3 p q ps)
  then show ?case by (simp add: split_on_append)
qed (auto simp: split_on_single)

lemma set_tl_dropWhile: "set (tl (dropWhile P s)) \<subseteq> set s"
  by (induction s) auto

lemma split_n_set: "p \<in> set (split_n n c s) \<Longrightarrow> set p \<subseteq> set s"
proof (induction n c s arbitrary: p rule: split_n.induct)
  case (3 n c s)
  have "set (tl (dropWhile (\<lambda>x. x \<noteq> c) s)) \<subseteq> set s"
    by (rule set_tl_dropWhile)
  with 3 show ?case
    by (auto split: if_splits dest: set_takeWhileD)
qed auto

lemma length_split_n: "length (split_n n c s) \<le> n"
  by (induction n c s rule: split_n.induct) auto

lemma split_n_2: "split_n 2 c s = (if c \<in> set s
    then [takeWhile (\<lambda>x. x \<noteq> c) s, tl (dropWhile (\<lambda>x. x \<noteq> c) s)] else [s])"
  by (simp add: numeral_2_eq_2)

lemma split_n_2_append [go_str]: "c \<notin> set k \<Longrightarrow> split_n 2 c (k @ c # v) = [k, v]"
  by (induction k) (auto simp: split_n_2)

section \<open>White space\<close>

text \<open>
  \<open>strings.TrimSpace\<close> removes leading and trailing runes with \<open>unicode.IsSpace\<close>. These are
  the runes below, given by their UTF-8 bytes: tab to carriage return, space, U+0085, U+00A0,
  U+1680, U+2000 to U+200A, U+2028, U+2029, U+202F, U+205F and U+3000. UTF-8 is
  self-synchronising, so a string begins (ends) with such a rune exactly if its bytes begin
  (end) with one of these sequences.
\<close>

definition ascii_space :: "char \<Rightarrow> bool" where
  "ascii_space c = (let n = byte c :: nat in 9 \<le> n \<and> n \<le> 13 \<or> n = 32)"

definition wide_spaces :: "string list" where
  "wide_spaces = map (map char_of)
     ([[0xC2, 0x85], [0xC2, 0xA0], [0xE1, 0x9A, 0x80]]
      @ map (\<lambda>b. [0xE2, 0x80, b]) [0x80, 0x81, 0x82, 0x83, 0x84, 0x85, 0x86, 0x87, 0x88, 0x89, 0x8A]
      @ [[0xE2, 0x80, 0xA8], [0xE2, 0x80, 0xA9], [0xE2, 0x80, 0xAF], [0xE2, 0x81, 0x9F],
         [0xE3, 0x80, 0x80 :: nat]])"

text \<open>The same sequences read backwards serve the right end (\<open>rv\<close>).\<close>

definition spaces :: "bool \<Rightarrow> string list" where
  "spaces rv = (if rv then map rev wide_spaces else wide_spaces)"

definition space_len :: "bool \<Rightarrow> string \<Rightarrow> nat" where
  "space_len rv s = (case s of [] \<Rightarrow> 0
     | c # _ \<Rightarrow> if ascii_space c then 1
               else if byte c < (128::nat) then 0
               else (case List.find (has_prefix s) (spaces rv) of None \<Rightarrow> 0 | Some w \<Rightarrow> length w))"

function drop_spaces :: "bool \<Rightarrow> string \<Rightarrow> string" where
  "drop_spaces rv s = (if space_len rv s = 0 then s else drop_spaces rv (drop (space_len rv s) s))"
  by pat_completeness auto
termination
  by (relation "measure (\<lambda>(rv, s). length s)") (auto simp: space_len_def split: list.splits)

declare drop_spaces.simps [simp del]

definition trim_left :: "string \<Rightarrow> string" where
  "trim_left s = drop_spaces False s"

definition trim_right_space :: "string \<Rightarrow> string" where
  "trim_right_space s = rev (drop_spaces True (rev s))"

definition trim_space :: "string \<Rightarrow> string" where
  "trim_space s = trim_right_space (trim_left s)"

text \<open>\<open>strings.TrimRight(s, cutset)\<close> for an ASCII cut set.\<close>

definition trim_right :: "string \<Rightarrow> string \<Rightarrow> string" where
  "trim_right s cs = rev (dropWhile (\<lambda>c. c \<in> set cs) (rev s))"

lemma spaces_nonempty: "[] \<notin> set (spaces rv)"
  by (auto simp: spaces_def wide_spaces_def)

lemma drop_spaces_idle: "space_len rv s = 0 \<Longrightarrow> drop_spaces rv s = s"
  by (subst drop_spaces.simps) simp

lemma drop_spaces_suffix: "\<exists>u. s = u @ drop_spaces rv s"
proof (induction rv s rule: drop_spaces.induct)
  case (1 rv s)
  show ?case
  proof (cases "space_len rv s = 0")
    case False
    then obtain u where "drop (space_len rv s) s = u @ drop_spaces rv (drop (space_len rv s) s)"
      using 1 by blast
    moreover have "drop_spaces rv s = drop_spaces rv (drop (space_len rv s) s)"
      using False by (subst drop_spaces.simps) simp
    ultimately show ?thesis
      by (metis append_assoc append_take_drop_id)
  qed (simp add: drop_spaces_idle)
qed

lemma drop_spaces_done: "space_len rv (drop_spaces rv s) = 0"
proof (induction rv s rule: drop_spaces.induct)
  case (1 rv s)
  then show ?case
    by (cases "space_len rv s = 0") (simp_all add: drop_spaces_idle drop_spaces.simps [of rv s])
qed

lemma space_len_prefix:
  assumes "space_len rv (t @ u) = 0"
  shows "space_len rv t = 0"
proof (cases t)
  case (Cons c t')
  show ?thesis
  proof (cases "ascii_space c \<or> byte c < (128 :: nat)")
    case False
    then have "List.find (has_prefix (t @ u)) (spaces rv) = None"
      using assms Cons spaces_nonempty [of rv]
      by (auto simp: space_len_def find_Some_iff split: option.splits) (metis nth_mem)
    then have "\<forall>w \<in> set (spaces rv). \<not> has_prefix t w"
      by (auto simp: find_None_iff has_prefix_iff)
    then have "List.find (has_prefix t) (spaces rv) = None"
      by (auto simp: find_None_iff)
    with False Cons show ?thesis by (simp add: space_len_def)
  qed (use assms Cons in \<open>auto simp: space_len_def split: if_splits\<close>)
qed (simp add: space_len_def)

lemma trim_left_suffix: "\<exists>u. s = u @ trim_left s"
  by (simp add: trim_left_def drop_spaces_suffix)

lemma trim_right_space_prefix: "\<exists>v. s = trim_right_space s @ v"
proof -
  obtain u where "rev s = u @ drop_spaces True (rev s)"
    using drop_spaces_suffix by blast
  then have "s = rev (drop_spaces True (rev s)) @ rev u"
    by (metis rev_append rev_rev_ident)
  then show ?thesis by (auto simp: trim_right_space_def)
qed

lemma trim_space_infix: "\<exists>u v. s = u @ trim_space s @ v"
  by (metis append_assoc trim_left_suffix trim_right_space_prefix trim_space_def)

lemma set_trim_space: "set (trim_space s) \<subseteq> set s"
  using trim_space_infix [of s] by (metis Un_subset_iff set_append subset_refl)

lemma length_trim_space: "length (trim_space s) \<le> length s"
  using trim_space_infix [of s] by (metis length_append add_leD1 add_leD2 order_refl)

lemma is_ascii_trim_space: "is_ascii s \<Longrightarrow> is_ascii (trim_space s)"
  using is_ascii_subset set_trim_space by blast

text \<open>A string is \<open>trimmed\<close> if neither end is a space; trimming yields such a string.\<close>

definition trimmed :: "string \<Rightarrow> bool" where
  "trimmed s = (space_len False s = 0 \<and> space_len True (rev s) = 0)"

lemma trim_space_trimmed [simp, go_str]: "trimmed s \<Longrightarrow> trim_space s = s"
  by (simp add: trimmed_def trim_space_def trim_left_def trim_right_space_def drop_spaces_idle)

lemma trimmed_trim_space [simp, go_str]: "trimmed (trim_space s)"
proof -
  let ?l = "trim_left s"
  obtain v where "?l = trim_right_space ?l @ v"
    using trim_right_space_prefix by blast
  then have "space_len False (trim_right_space ?l) = 0"
    by (metis drop_spaces_done space_len_prefix trim_left_def)
  then show ?thesis
    by (simp add: trimmed_def trim_space_def trim_right_space_def drop_spaces_done)
qed

lemma trim_space_idem [simp, go_str]: "trim_space (trim_space s) = trim_space s"
  by simp

lemma trimmed_Nil [simp]: "trimmed []" "trim_space [] = []"
  by (simp_all add: trimmed_def space_len_def)

text \<open>The ends of a trimmed string, and when ASCII bytes at both ends make a string trimmed.\<close>

lemma trimmed_ends:
  assumes "trimmed s" and "s \<noteq> []"
  shows "\<not> ascii_space (hd s)" and "\<not> ascii_space (last s)"
  using assms
  by (cases s; cases "rev s"; auto simp: trimmed_def space_len_def hd_rev [symmetric] split: if_splits)+

lemma trimmedI:
  assumes "s \<noteq> []" and "byte (hd s) < (128::nat)" and "byte (last s) < (128::nat)"
    and "\<not> ascii_space (hd s)" and "\<not> ascii_space (last s)"
  shows "trimmed s"
  using assms
  by (cases s; cases "rev s") (auto simp: trimmed_def space_len_def hd_rev [symmetric])

lemma trimmed_ascii_iff:
  assumes "is_ascii s"
  shows "trimmed s \<longleftrightarrow> s = [] \<or> (\<not> ascii_space (hd s) \<and> \<not> ascii_space (last s))"
proof (cases "s = []")
  case False
  then have "byte (hd s) < (128::nat)" "byte (last s) < (128::nat)"
    using assms by (auto simp: is_ascii_def list_all_iff)
  with False show ?thesis
    using trimmedI trimmed_ends by blast
qed simp

text \<open>Appending an ASCII byte that is no space keeps a non-empty string trimmed.\<close>

lemma spaces_wide_bytes: "w \<in> set (spaces rv) \<Longrightarrow> c \<in> set w \<Longrightarrow> 128 \<le> (byte c :: nat)"
  unfolding spaces_def wide_spaces_def
  by (cases rv) (auto simp: of_char_of)

lemma space_len_snoc:
  assumes "s \<noteq> []" and "space_len False s = 0" and "byte c < (128 :: nat)"
  shows "space_len False (s @ [c]) = 0"
proof (cases "ascii_space (hd s) \<or> byte (hd s) < (128 :: nat)")
  case False
  have "has_prefix s w" if "w \<in> set (spaces False)" "has_prefix (s @ [c]) w" for w
  proof -
    obtain t where t: "s @ [c] = w @ t" using \<open>has_prefix (s @ [c]) w\<close> by (auto simp: has_prefix_iff)
    have "c \<notin> set w" using spaces_wide_bytes [OF that(1), of c] assms(3) by auto
    then have "t \<noteq> []" using t by (metis append_Nil2 in_set_conv_decomp)
    then have "s = w @ butlast t" using t by (metis butlast_append butlast_snoc)
    then show ?thesis by simp
  qed
  moreover have "List.find (has_prefix s) (spaces False) = None"
    using False assms(1,2) spaces_nonempty [of False]
    by (cases s) (auto simp: space_len_def find_Some_iff split: option.splits, metis nth_mem)
  ultimately have "List.find (has_prefix (s @ [c])) (spaces False) = None"
    by (auto simp: find_None_iff)
  then show ?thesis
    using False assms(1) by (cases s) (auto simp: space_len_def)
qed (use assms in \<open>cases s; auto simp: space_len_def split: if_splits\<close>)

lemma trimmed_snoc:
  assumes "trimmed s" and "s \<noteq> []" and "byte c < (128 :: nat)" and "\<not> ascii_space c"
  shows "trimmed (s @ [c])"
  using assms space_len_snoc [OF assms(2) _ assms(3)]
  by (simp add: trimmed_def) (simp add: space_len_def)

lemma trim_right_idle: "s \<noteq> [] \<Longrightarrow> last s \<notin> set cs \<Longrightarrow> trim_right s cs = s"
  by (cases s rule: rev_cases) (simp_all add: trim_right_def)

lemma set_trim_right: "set (trim_right s cs) \<subseteq> set s"
  by (auto simp: trim_right_def dest: set_dropWhileD)

section \<open>UTF-8 and runes\<close>

record unicode =
  u_upper :: "rune \<Rightarrow> rune"
  u_lower :: "rune \<Rightarrow> rune"
  u_fold :: "rune \<Rightarrow> rune"
  u_letter :: "rune \<Rightarrow> bool"
  u_digit :: "rune \<Rightarrow> bool"

definition rune_error :: rune where "rune_error = 0xFFFD"

definition cont_byte :: "char \<Rightarrow> bool" where
  "cont_byte c = (0x80 \<le> byte c \<and> byte c < (0xC0 :: nat))"

text \<open>
  \<open>utf8.DecodeRuneInString\<close>: the first rune and its width. Invalid bytes, overlong forms,
  surrogates and values above U+10FFFF decode to U+FFFD with width 1.
\<close>

definition decode2 :: "nat \<Rightarrow> string \<Rightarrow> rune \<times> nat" where
  "decode2 n0 t =
     (if 1 \<le> length t \<and> cont_byte (t ! 0)
      then ((n0 - 0xC0) * 64 + (byte (t ! 0) - 0x80), 2) else (rune_error, 1))"

definition decode3 :: "nat \<Rightarrow> string \<Rightarrow> rune \<times> nat" where
  "decode3 n0 t =
     (if 2 \<le> length t \<and> cont_byte (t ! 0) \<and> cont_byte (t ! 1)
         \<and> (n0 = 0xE0 \<longrightarrow> (0xA0::nat) \<le> byte (t ! 0)) \<and> (n0 = 0xED \<longrightarrow> byte (t ! 0) < (0xA0::nat))
      then ((n0 - 0xE0) * 4096 + (byte (t ! 0) - 0x80) * 64 + (byte (t ! 1) - 0x80), 3)
      else (rune_error, 1))"

definition decode4 :: "nat \<Rightarrow> string \<Rightarrow> rune \<times> nat" where
  "decode4 n0 t =
     (if 3 \<le> length t \<and> cont_byte (t ! 0) \<and> cont_byte (t ! 1) \<and> cont_byte (t ! 2)
         \<and> (n0 = 0xF0 \<longrightarrow> (0x90::nat) \<le> byte (t ! 0)) \<and> (n0 = 0xF4 \<longrightarrow> byte (t ! 0) < (0x90::nat))
      then ((n0 - 0xF0) * 262144 + (byte (t ! 0) - 0x80) * 4096 + (byte (t ! 1) - 0x80) * 64
              + (byte (t ! 2) - 0x80), 4)
      else (rune_error, 1))"

definition decode_rune :: "string \<Rightarrow> rune \<times> nat" where
  "decode_rune s = (case s of [] \<Rightarrow> (rune_error, 0)
   | b0 # t \<Rightarrow>
      let n0 = byte b0 :: nat
      in if n0 < 0x80 then (n0, 1)
         else if n0 < 0xC2 \<or> 0xF4 < n0 then (rune_error, 1)
         else if n0 < 0xE0 then decode2 n0 t
         else if n0 < 0xF0 then decode3 n0 t
         else decode4 n0 t)"

lemma decode_tail_width:
  "0 < snd (decode2 n t)" "0 < snd (decode3 n t)" "0 < snd (decode4 n t)"
  by (simp_all add: decode2_def decode3_def decode4_def)

lemma decode_tail_wide:
  "0xC2 \<le> n \<Longrightarrow> 128 \<le> fst (decode2 n t)"
  "0xE0 \<le> n \<Longrightarrow> 128 \<le> fst (decode3 n t)"
  "0xF0 \<le> n \<Longrightarrow> 128 \<le> fst (decode4 n t)"
proof -
  show "128 \<le> fst (decode2 n t)" if "0xC2 \<le> n"
  proof -
    from that have "128 \<le> (n - 0xC0) * 64" by simp
    then show ?thesis by (simp add: decode2_def rune_error_def)
  qed
  show "128 \<le> fst (decode3 n t)" if "0xE0 \<le> n"
  proof (cases "n = 0xE0")
    case False
    with that have "128 \<le> (n - 0xE0) * 4096" by simp
    then show ?thesis by (simp add: decode3_def rune_error_def)
  qed (auto simp: decode3_def rune_error_def)
  show "128 \<le> fst (decode4 n t)" if "0xF0 \<le> n"
  proof (cases "n = 0xF0")
    case False
    with that have "128 \<le> (n - 0xF0) * 262144" by simp
    then show ?thesis by (simp add: decode4_def rune_error_def)
  qed (auto simp: decode4_def rune_error_def)
qed

lemma decode_rune_width: "s \<noteq> [] \<Longrightarrow> 0 < snd (decode_rune s)"
  by (cases s) (simp_all add: decode_rune_def Let_def decode_tail_width)

text \<open>\<open>for _, r := range s\<close> visits these runes.\<close>

function runes :: "string \<Rightarrow> rune list" where
  "runes s = (if s = [] then [] else fst (decode_rune s) # runes (drop (snd (decode_rune s)) s))"
  by pat_completeness auto
termination
  by (relation "measure length") (use decode_rune_width in \<open>auto simp: less_diff_conv2\<close>)

declare runes.simps [simp del]

lemma runes_Nil [simp]: "runes [] = []"
  by (subst runes.simps) simp

lemma runes_ascii_Cons [simp]: "byte c < (128::nat) \<Longrightarrow> runes (c # s) = byte c # runes s"
  by (subst runes.simps) (simp add: decode_rune_def)

lemma runes_ascii: "is_ascii s \<Longrightarrow> runes s = map byte s"
  by (induction s) auto

text \<open>A byte above ASCII always shows up as a rune above ASCII.\<close>

lemma decode_rune_wide: "128 \<le> (byte c :: nat) \<Longrightarrow> 128 \<le> fst (decode_rune (c # s))"
  by (simp add: decode_rune_def Let_def decode_tail_wide) (simp add: rune_error_def)

lemma runes_all_ascii: "(\<forall>r \<in> set (runes s). r < 128) \<longleftrightarrow> is_ascii s"
proof
  show "is_ascii s" if "\<forall>r \<in> set (runes s). r < 128"
    using that
  proof (induction s)
    case (Cons c s)
    have "byte c < (128 :: nat)"
    proof (rule ccontr)
      assume "\<not> byte c < (128 :: nat)"
      then have "128 \<le> fst (decode_rune (c # s))"
        by (intro decode_rune_wide) simp
      with Cons.prems show False by (subst (asm) runes.simps) simp
    qed
    with Cons show ?case by simp
  qed simp
qed (auto simp: runes_ascii is_ascii_def list_all_iff)

text \<open>\<open>utf8.AppendRune\<close>: surrogates and values out of range are written as U+FFFD.\<close>

definition encode_rune :: "rune \<Rightarrow> string" where
  "encode_rune r0 =
     (let r = (if 0x10FFFF < r0 \<or> (0xD800 \<le> r0 \<and> r0 \<le> 0xDFFF) then rune_error else r0) in
      if r < 0x80 then [char_of r]
      else if r < 0x800 then [char_of (0xC0 + r div 64), char_of (0x80 + r mod 64)]
      else if r < 0x10000 then
        [char_of (0xE0 + r div 4096), char_of (0x80 + r div 64 mod 64), char_of (0x80 + r mod 64)]
      else [char_of (0xF0 + r div 262144), char_of (0x80 + r div 4096 mod 64),
            char_of (0x80 + r div 64 mod 64), char_of (0x80 + r mod 64)])"

lemma encode_rune_ascii [simp]: "r < 128 \<Longrightarrow> encode_rune r = [char_of r]"
  by (simp add: encode_rune_def)

lemma encode_rune_wide: "128 \<le> r \<Longrightarrow> c \<in> set (encode_rune r) \<Longrightarrow> 128 \<le> (byte c :: nat)"
proof -
  assume r: "128 \<le> r" and c: "c \<in> set (encode_rune r)"
  define q where "q = (if 0x10FFFF < r \<or> (0xD800 \<le> r \<and> r \<le> 0xDFFF) then rune_error else r)"
  have q: "128 \<le> q" "q \<le> 0x10FFFF"
    using r by (auto simp: q_def rune_error_def)
  have e: "encode_rune r = (if q < 0x800 then [char_of (0xC0 + q div 64), char_of (0x80 + q mod 64)]
      else if q < 0x10000 then
        [char_of (0xE0 + q div 4096), char_of (0x80 + q div 64 mod 64), char_of (0x80 + q mod 64)]
      else [char_of (0xF0 + q div 262144), char_of (0x80 + q div 4096 mod 64),
            char_of (0x80 + q div 64 mod 64), char_of (0x80 + q mod 64)])"
    using q by (simp add: encode_rune_def q_def [symmetric])
  have m: "byte (char_of (0x80 + x mod 64)) = 0x80 + x mod (64 :: nat)" for x
    by (simp add: of_char_of)
  have hi: "k + x < 256 \<Longrightarrow> byte (char_of (k + x)) = k + (x :: nat)" for k x
    by (simp add: of_char_of)
  have "q < 0x800 \<Longrightarrow> q div 64 < 32" "q < 0x10000 \<Longrightarrow> q div 4096 < 16" "q div 262144 < 5"
    using q by (simp_all add: div_less_iff_less_mult)
  with c hi [of "0xC0" "q div 64"] hi [of "0xE0" "q div 4096"] hi [of "0xF0" "q div 262144"] show ?thesis
    unfolding e by (auto simp: m split: if_splits)
qed


section \<open>Case mapping\<close>

text \<open>
  \<open>strings.ToUpper\<close>, \<open>strings.ToLower\<close> and \<open>strings.EqualFold\<close> take an ASCII fast path and
  otherwise go rune by rune through the Unicode tables. Invalid bytes come out as U+FFFD.
\<close>

definition byte_upper :: "char \<Rightarrow> char" where
  "byte_upper c = (let n = byte c :: nat in if 97 \<le> n \<and> n \<le> 122 then char_of (n - 32) else c)"

definition byte_lower :: "char \<Rightarrow> char" where
  "byte_lower c = (let n = byte c :: nat in if 65 \<le> n \<and> n \<le> 90 then char_of (n + 32) else c)"

definition rune_map :: "(rune \<Rightarrow> rune) \<Rightarrow> (rune \<Rightarrow> rune) \<Rightarrow> string \<Rightarrow> string" where
  "rune_map low high s = concat (map (\<lambda>r. encode_rune (if r < 128 then low r else high r)) (runes s))"

definition to_upper :: "unicode \<Rightarrow> string \<Rightarrow> string" where
  "to_upper U s =
     (if is_ascii s then map byte_upper s
      else rune_map (\<lambda>r. if 97 \<le> r \<and> r \<le> 122 then r - 32 else r) (u_upper U) s)"

definition to_lower :: "unicode \<Rightarrow> string \<Rightarrow> string" where
  "to_lower U s =
     (if is_ascii s then map byte_lower s
      else rune_map (\<lambda>r. if 65 \<le> r \<and> r \<le> 90 then r + 32 else r) (u_lower U) s)"

text \<open>\<open>EqualFold\<close> compares the runes up to simple case folding.\<close>

definition fold_rune :: "unicode \<Rightarrow> rune \<Rightarrow> rune" where
  "fold_rune U r = (if r < 128 then (if 65 \<le> r \<and> r \<le> 90 then r + 32 else r) else u_fold U r)"

definition equal_fold :: "unicode \<Rightarrow> string \<Rightarrow> string \<Rightarrow> bool" where
  "equal_fold U s t = (map (fold_rune U) (runes s) = map (fold_rune U) (runes t))"

lemma char_of_eqI: "n < 256 \<Longrightarrow> byte c = n \<Longrightarrow> char_of n = c"
  by (metis char_of_char)

lemma byte_upper_simps [simp]:
  "byte (byte_upper c) = (if 97 \<le> (byte c :: nat) \<and> byte c \<le> (122::nat) then byte c - 32 else (byte c :: nat))"
  by (auto simp: byte_upper_def of_char_of Let_def)

lemma byte_lower_simps [simp]:
  "byte (byte_lower c) = (if 65 \<le> (byte c :: nat) \<and> byte c \<le> (90::nat) then byte c + 32 else (byte c :: nat))"
  by (auto simp: byte_lower_def of_char_of Let_def)

lemma char_eq_byteI: "byte c = (byte d :: nat) \<Longrightarrow> c = d"
  by (metis char_of_char)

lemma byte_upper_idem [simp]: "byte_upper (byte_upper c) = byte_upper c"
  by (rule char_eq_byteI) auto

lemma byte_lower_idem [simp]: "byte_lower (byte_lower c) = byte_lower c"
  by (rule char_eq_byteI) simp

lemma to_upper_ascii: "is_ascii s \<Longrightarrow> to_upper U s = map byte_upper s"
  by (simp add: to_upper_def)

lemma to_lower_ascii: "is_ascii s \<Longrightarrow> to_lower U s = map byte_lower s"
  by (simp add: to_lower_def)

lemma is_ascii_to_upper: "is_ascii s \<Longrightarrow> is_ascii (to_upper U s)"
  by (fastforce simp: to_upper_ascii is_ascii_def list_all_iff)

lemma is_ascii_to_lower: "is_ascii s \<Longrightarrow> is_ascii (to_lower U s)"
  by (simp add: to_lower_ascii is_ascii_def list_all_iff)

lemma to_upper_idem:
  assumes "is_ascii s"
  shows "to_upper U (to_upper U s) = to_upper U s"
  using to_upper_ascii [OF assms, of U] to_upper_ascii [OF is_ascii_to_upper [OF assms], of U U]
  by (simp add: o_def)

lemma to_upper_Nil [simp]: "to_upper U [] = []" and to_lower_Nil [simp]: "to_lower U [] = []"
  by (simp_all add: to_upper_ascii to_lower_ascii)

lemma equal_fold_refl [simp]: "equal_fold U s s"
  by (simp add: equal_fold_def)

lemma equal_fold_ascii:
  assumes "is_ascii s" and "is_ascii t"
  shows "equal_fold U s t \<longleftrightarrow> to_lower U s = to_lower U t"
proof -
  have f: "map (fold_rune U) (runes x) = map byte (to_lower U x)" if "is_ascii x" for x
    using that by (induction x) (simp_all add: to_lower_ascii fold_rune_def)
  have "inj (byte :: char \<Rightarrow> nat)"
    by (rule injI) (rule char_eq_byteI)
  then show ?thesis
    using assms by (simp add: equal_fold_def f inj_map_eq_map)
qed

section \<open>Replacement and classes of bytes\<close>

text \<open>\<open>strings.ReplaceAll(s, old, new)\<close> for a non-empty \<open>old\<close>; the one-byte case is a map.\<close>

function replace_all :: "string \<Rightarrow> string \<Rightarrow> string \<Rightarrow> string" where
  "replace_all s old new =
     (case s of [] \<Rightarrow> []
      | c # t \<Rightarrow> if old \<noteq> [] \<and> has_prefix s old
                then new @ replace_all (drop (length old) s) old new
                else c # replace_all t old new)"
  by pat_completeness auto
termination
  by (relation "measure (\<lambda>(s, old, new). length s)") auto

declare replace_all.simps [simp del]

lemma replace_all_single: "replace_all s [c] [d] = map (\<lambda>x. if x = c then d else x) s"
proof (induction s)
  case (Cons x s)
  then show ?case
    by (subst replace_all.simps) (simp add: has_prefix_def)
qed (subst replace_all.simps, simp)

definition is_digit :: "char \<Rightarrow> bool" where
  "is_digit c = (48 \<le> byte c \<and> byte c \<le> (57 :: nat))"

definition is_alnum :: "char \<Rightarrow> bool" where
  "is_alnum c = (is_digit c \<or> (65 \<le> byte c \<and> byte c \<le> (90 :: nat))
                 \<or> (97 \<le> byte c \<and> byte c \<le> (122 :: nat)))"

text \<open>
  The regular expressions of the program all have the form \<open>^[A-Za-z0-9][class]{0,n}$\<close>, with
  ASCII classes; \<open>$\<close> without flags matches at the end of the text only.
\<close>

definition match_token :: "(char \<Rightarrow> bool) \<Rightarrow> nat \<Rightarrow> string \<Rightarrow> bool" where
  "match_token cls n s =
     (case s of [] \<Rightarrow> False | c # t \<Rightarrow> is_alnum c \<and> length t \<le> n \<and> list_all cls t)"

lemma is_alnum_ascii: "is_alnum c \<Longrightarrow> byte c < (128 :: nat) \<and> 32 < (byte c :: nat)"
  by (auto simp: is_alnum_def is_digit_def)

lemma match_token_length: "match_token cls n s \<Longrightarrow> 0 < length s \<and> length s \<le> Suc n"
  by (auto simp: match_token_def split: list.splits)

lemma match_token_all:
  "match_token cls n s \<Longrightarrow> c \<in> set s \<Longrightarrow> is_alnum c \<or> cls c"
  by (auto simp: match_token_def list_all_iff split: list.splits)

end
