(* ===== verification/GoNum.thy ===== *)
theory GoNum
  imports GoStrings "HOL-Library.Word"
begin

text \<open>
  Go's integers, durations and instants, and the number syntax of package \<open>strconv\<close>. An
  \<open>int\<close> or \<open>time.Duration\<close> of the source is an \<open>int\<close> that is wrapped to 64 bits where the code
  can overflow; an instant is an \<open>int\<close> in nanoseconds (the zero \<open>time.Time\<close> is modelled by
  \<open>None\<close> where the code tests for it); a \<open>uint16\<close> is a \<open>16 word\<close>.
\<close>

section \<open>64-bit integers and durations\<close>

type_synonym duration = int
type_synonym instant = int

definition wrap64 :: "int \<Rightarrow> int" where
  "wrap64 n = signed_take_bit 63 n"

definition in_int64 :: "int \<Rightarrow> bool" where
  "in_int64 n = (- (2 ^ 63) \<le> n \<and> n < 2 ^ 63)"

lemma wrap64_id [simp, go_num]: "in_int64 n \<Longrightarrow> wrap64 n = n"
  by (simp add: wrap64_def in_int64_def signed_take_bit_int_eq_self)

lemma in_int64_wrap64 [simp, go_num]: "in_int64 (wrap64 n)"
  unfolding wrap64_def in_int64_def
  using signed_take_bit_int_greater_eq_minus_exp [of 63 n] signed_take_bit_int_less_exp [of 63 n]
  by simp

abbreviation nanos_per_second :: int where "nanos_per_second \<equiv> 1000000000"

text \<open>\<open>time.Duration(n) * time.Second\<close> and \<open>time.Duration(n) * time.Millisecond\<close>.\<close>

definition seconds :: "int \<Rightarrow> duration" where
  "seconds n = wrap64 (n * nanos_per_second)"

definition millis :: "int \<Rightarrow> duration" where
  "millis n = wrap64 (n * 1000000)"

definition minutes :: "int \<Rightarrow> duration" where
  "minutes n = wrap64 (n * 60000000000)"

text \<open>The largest number of seconds a \<open>time.Duration\<close> can hold.\<close>

definition max_seconds :: int where "max_seconds = 9223372036"

lemma seconds_exact [go_num]: "0 \<le> n \<Longrightarrow> n \<le> max_seconds \<Longrightarrow> seconds n = n * nanos_per_second"
  by (simp add: seconds_def max_seconds_def in_int64_def)

lemma seconds_mono:
  "0 \<le> m \<Longrightarrow> m \<le> n \<Longrightarrow> n \<le> max_seconds \<Longrightarrow> seconds m \<le> seconds n"
  by (simp add: seconds_exact)

text \<open>\<open>t.Sub(u)\<close> saturates at the ends of the duration range.\<close>

definition time_sub :: "instant \<Rightarrow> instant \<Rightarrow> duration" where
  "time_sub t u = max (- (2 ^ 63)) (min (2 ^ 63 - 1) (t - u))"

lemma time_sub_exact [go_num]: "in_int64 (t - u) \<Longrightarrow> time_sub t u = t - u"
  by (simp add: time_sub_def in_int64_def)

lemma time_sub_less_iff: "- (2 ^ 63) < d \<Longrightarrow> in_int64 d \<Longrightarrow> time_sub t u < d \<longleftrightarrow> t - u < d"
  by (auto simp: time_sub_def in_int64_def min_def max_def)

lemma time_sub_greater_iff: "in_int64 d \<Longrightarrow> d < time_sub t u \<longleftrightarrow> d < t - u \<and> d < 2 ^ 63 - 1"
  by (auto simp: time_sub_def in_int64_def min_def max_def)

section \<open>Decimal and hexadecimal numbers\<close>

text \<open>\<open>int(d.Seconds())\<close>: the whole seconds, truncated towards zero.\<close>

definition whole_seconds :: "duration \<Rightarrow> int" where
  "whole_seconds d = sgn d * (\<bar>d\<bar> div nanos_per_second)"

text \<open>\<open>strconv.FormatUint(n, 10)\<close> and \<open>%d\<close> on a non-negative number.\<close>

function show_nat :: "nat \<Rightarrow> string" where
  "show_nat n = (if n < 10 then [char_of (48 + n)] else show_nat (n div 10) @ [char_of (48 + n mod 10)])"
  by pat_completeness auto
termination
  by (relation "measure id") auto

declare show_nat.simps [simp del]

datatype num_error = ErrSyntax | ErrRange

definition digit_value :: "char \<Rightarrow> nat option" where
  "digit_value c = (let n = byte c :: nat in
     if 48 \<le> n \<and> n \<le> 57 then Some (n - 48)
     else if 97 \<le> n \<and> n \<le> 122 then Some (n - 97 + 10)
     else if 65 \<le> n \<and> n \<le> 90 then Some (n - 65 + 10)
     else None)"

text \<open>
  The loop of \<open>strconv.ParseUint(s, base, bits)\<close> with \<open>mx = 2 ^ bits - 1\<close>: a bad digit is a
  syntax error, a value above \<open>mx\<close> a range error, whichever comes first in the text.
\<close>

fun parse_digits :: "nat \<Rightarrow> nat \<Rightarrow> nat \<Rightarrow> string \<Rightarrow> num_error + nat" where
  "parse_digits base mx acc [] = Inr acc"
| "parse_digits base mx acc (c # s) =
     (case digit_value c of
        None \<Rightarrow> Inl ErrSyntax
      | Some d \<Rightarrow> if base \<le> d then Inl ErrSyntax
                 else if mx < acc * base + d then Inl ErrRange
                 else parse_digits base mx (acc * base + d) s)"

definition parse_uint :: "string \<Rightarrow> nat \<Rightarrow> nat \<Rightarrow> num_error + nat" where
  "parse_uint s base bits = (if s = [] then Inl ErrSyntax else parse_digits base (2 ^ bits - 1) 0 s)"

lemma parse_digits_bound:
  "parse_digits base mx acc s = Inr n \<Longrightarrow> acc \<le> mx \<Longrightarrow> n \<le> mx"
  by (induction s arbitrary: acc) (auto split: option.splits if_splits)

lemma parse_uint_bound: "parse_uint s base bits = Inr n \<Longrightarrow> n < 2 ^ bits"
proof -
  assume "parse_uint s base bits = Inr n"
  then have "n \<le> 2 ^ bits - 1"
    by (auto simp: parse_uint_def split: if_splits dest: parse_digits_bound)
  then show ?thesis
    by (metis Suc_pred' le_imp_less_Suc zero_less_numeral zero_less_power)
qed

lemma parse_digits_append:
  "parse_digits base mx acc (s @ t) = bind_res (parse_digits base mx acc s) (\<lambda>n. parse_digits base mx n t)"
  by (induction s arbitrary: acc) (auto split: option.splits)

lemma digit_value_digit [simp]: "d < 10 \<Longrightarrow> digit_value (char_of (48 + d)) = Some d"
  by (simp add: digit_value_def of_char_of)

lemma show_nat_not_Nil [simp]: "show_nat n \<noteq> []"
  by (subst show_nat.simps) simp

lemma show_nat_ascii: "is_ascii (show_nat n)"
proof (induction n rule: show_nat.induct)
  case (1 n)
  have "byte (char_of (48 + n mod 10)) < (128 :: nat)"
    by (simp add: of_char_of)
  then show ?case
    using 1 by (subst show_nat.simps) (auto simp: of_char_of)
qed

lemma parse_digits_show_nat:
  "n \<le> mx \<Longrightarrow> parse_digits 10 mx 0 (show_nat n) = Inr n"
proof (induction n rule: show_nat.induct)
  case (1 n)
  show ?case
  proof (cases "n < 10")
    case True
    then show ?thesis using "1.prems" by (subst show_nat.simps) simp
  next
    case False
    with 1 have "parse_digits 10 mx 0 (show_nat (n div 10)) = Inr (n div 10)" by simp
    with False "1.prems" show ?thesis
      by (subst show_nat.simps) (simp add: parse_digits_append)
  qed
qed

lemma parse_uint_show_nat:
  assumes "n < 2 ^ bits"
  shows "parse_uint (show_nat n) 10 bits = Inr n"
proof -
  have "n \<le> 2 ^ bits - 1" using assms by linarith
  then show ?thesis by (simp add: parse_uint_def parse_digits_show_nat)
qed

lemma show_nat_inject: "show_nat m = show_nat n \<longleftrightarrow> m = n"
proof
  assume "show_nat m = show_nat n"
  then have "parse_digits 10 (max m n) 0 (show_nat m) = parse_digits 10 (max m n) 0 (show_nat n)"
    by simp
  then show "m = n" by (simp add: parse_digits_show_nat)
qed simp

end
