(* ===== verification/GoFloat.thy ===== *)
theory GoFloat
  imports GoNum "HOL-Library.Log_Nat"
begin

text \<open>
  IEEE 754 arithmetic as the program uses it: finite \<open>float32\<close> and \<open>float64\<close> values are rationals,
  an operation is the exact rational result rounded to nearest, ties to even, with 24 or 53
  significant bits and the smallest exponent of the format. Overflow to infinity is not
  modelled: the program's values (a temperature, a token count) stay far below it. The last
  section is \<open>strconv.FormatFloat(x, 'f', 1, 32)\<close>.
\<close>

section \<open>Rounding to an integer, ties to even\<close>

definition rne :: "rat \<Rightarrow> int" where
  "rne z = (let f = \<lfloor>z\<rfloor>; d = z - of_int f in
     if d < 1 / 2 then f else if 1 / 2 < d then f + 1 else if even f then f else f + 1)"

lemma rne_floor: "rne z = \<lfloor>z\<rfloor> \<or> rne z = \<lfloor>z\<rfloor> + 1"
  by (auto simp: rne_def Let_def)

lemma rne_error: "\<bar>of_int (rne z) - z\<bar> \<le> 1 / 2"
proof -
  have "of_int \<lfloor>z\<rfloor> \<le> z" "z < of_int \<lfloor>z\<rfloor> + 1" by linarith+
  then show ?thesis
    unfolding rne_def Let_def by (auto simp: abs_le_iff)
qed

lemma rne_of_int [simp]: "rne (of_int k) = k"
  by (simp add: rne_def)

lemma rne_mono:
  assumes "y \<le> z"
  shows "rne y \<le> rne z"
proof (cases "\<lfloor>y\<rfloor> = \<lfloor>z\<rfloor>")
  case True
  then show ?thesis
    using assms by (auto simp: rne_def Let_def)
next
  case False
  with floor_mono [OF assms] have "\<lfloor>y\<rfloor> + 1 \<le> \<lfloor>z\<rfloor>" by simp
  then show ?thesis
    using rne_floor [of y] rne_floor [of z] by linarith
qed

lemma rne_unique:
  assumes "\<bar>z - of_int k\<bar> < 1 / 2"
  shows "rne z = k"
proof -
  have "\<bar>of_int (rne z) - (of_int k :: rat)\<bar> < 1"
    using assms rne_error [of z] by linarith
  then have "\<bar>of_int (rne z - k) :: rat\<bar> < 1" by simp
  then show ?thesis by linarith
qed

section \<open>Rounding to a binary format\<close>

text \<open>The exponent of the leading bit of \<open>x\<close>, read off \<open>x * 2 ^ m\<close>; correct for \<open>x * 2 ^ m \<ge> 1\<close>.\<close>

definition flog2 :: "nat \<Rightarrow> rat \<Rightarrow> int" where
  "flog2 m x = int (floorlog 2 (nat \<lfloor>x * 2 ^ m\<rfloor>)) - 1 - int m"

text \<open>
  A format has \<open>p\<close> significant bits and smallest exponent \<open>-m\<close> (the unit of its subnormals is
  \<open>2 ^ -m\<close>).
\<close>

definition round_fl :: "nat \<Rightarrow> nat \<Rightarrow> rat \<Rightarrow> rat" where
  "round_fl p m x =
     (let e = max (- int m) (flog2 m \<bar>x\<bar> + 1 - int p)
      in sgn x * of_int (rne (\<bar>x\<bar> / 2 powi e)) * 2 powi e)"

definition f32 :: "rat \<Rightarrow> rat" where "f32 x = round_fl 24 149 x"
definition f64 :: "rat \<Rightarrow> rat" where "f64 x = round_fl 53 1074 x"

lemma flog2_bounds:
  assumes "1 \<le> x * 2 ^ m"
  shows "2 powi flog2 m x \<le> x" and "x < 2 powi (flog2 m x + 1)"
proof -
  define n where "n = nat \<lfloor>x * 2 ^ m\<rfloor>"
  define k where "k = floorlog 2 n - 1"
  have n0: "0 < n" using assms by (simp add: n_def)
  have fl: "floorlog 2 n = Suc k"
    using n0 by (simp add: k_def floorlog_def)
  have fk: "flog2 m x = int k - int m"
    using fl by (simp add: flog2_def n_def)
  have lo: "2 ^ k \<le> n" and hi: "n < 2 ^ Suc k"
    using floorlog_bounds [OF n0, of 2] fl by auto
  have z: "rat_of_nat n \<le> x * 2 ^ m" "x * 2 ^ m < rat_of_nat n + 1"
    using assms by (simp_all add: n_def) linarith+
  have "(2::rat) ^ k \<le> rat_of_nat n" using lo by (metis of_nat_le_iff of_nat_numeral of_nat_power)
  with z have "2 ^ k \<le> x * 2 ^ m" by linarith
  then show "2 powi flog2 m x \<le> x"
    by (simp add: fk power_int_diff divide_le_eq)
  have "rat_of_nat n + 1 \<le> 2 ^ Suc k"
    using hi by (metis Suc_leI of_nat_Suc of_nat_le_iff of_nat_numeral of_nat_power add.commute)
  with z have "x * 2 ^ m < 2 ^ Suc k" by linarith
  then have "x < 2 powi int (Suc k) / 2 ^ m"
    by (simp add: less_divide_eq del: power_Suc of_nat_Suc)
  also have "\<dots> = 2 powi (flog2 m x + 1)"
    using power_int_diff [of "2::rat" "int (Suc k)" "int m"] by (simp add: fk algebra_simps del: power_Suc)
  finally show "x < 2 powi (flog2 m x + 1)" .
qed

lemma flog2_mono:
  assumes "x \<le> y"
  shows "flog2 m x \<le> flog2 m y"
proof -
  have "nat \<lfloor>x * 2 ^ m\<rfloor> \<le> nat \<lfloor>y * 2 ^ m\<rfloor>"
    using assms by (intro nat_mono floor_mono mult_right_mono) auto
  then show ?thesis
    by (simp add: flog2_def floorlog_mono)
qed

lemma flog2_le:
  assumes "0 \<le> x" and "x < 2 powi k" and "- int m \<le> k"
  shows "flog2 m x < k"
proof (cases "1 \<le> x * 2 ^ m")
  case True
  then have "2 powi flog2 m x < (2::rat) powi k"
    using flog2_bounds(1) assms(2) by (meson le_less_trans)
  then show ?thesis
    by (metis linorder_not_less one_le_numeral power_int_increasing)
next
  case False
  then have "\<lfloor>x * 2 ^ m\<rfloor> \<le> 0" by linarith
  then show ?thesis using assms(3) by (simp add: flog2_def floorlog_def)
qed

section \<open>Error, exactness and monotonicity\<close>

lemma round_fl_0 [simp]: "round_fl p m 0 = 0"
  by (simp add: round_fl_def)

lemma round_fl_pos:
  "0 \<le> x \<Longrightarrow> round_fl p m x =
     of_int (rne (x / 2 powi max (- int m) (flog2 m x + 1 - int p))) * 2 powi max (- int m) (flog2 m x + 1 - int p)"
  by (cases "x = 0") (simp_all add: round_fl_def Let_def rne_def)

lemma rne_nonneg: "0 \<le> z \<Longrightarrow> 0 \<le> rne z"
  using rne_mono [of 0 z] by (metis of_int_0 rne_of_int)

lemma round_fl_nonneg: "0 \<le> x \<Longrightarrow> 0 \<le> round_fl p m x"
  by (simp add: round_fl_pos rne_nonneg)

lemma round_fl_error:
  assumes "0 \<le> x"
  shows "\<bar>round_fl p m x - x\<bar> \<le> 2 powi max (- int m) (flog2 m x + 1 - int p) / 2"
proof -
  define e where "e = max (- int m) (flog2 m x + 1 - int p)"
  have pos: "(0::rat) < 2 powi e" by simp
  have "\<bar>of_int (rne (x / 2 powi e)) - x / 2 powi e\<bar> * 2 powi e \<le> 1 / 2 * 2 powi e"
    using pos by (intro mult_right_mono rne_error) simp
  moreover have "round_fl p m x - x = (of_int (rne (x / 2 powi e)) - x / 2 powi e) * 2 powi e"
    using assms by (simp add: round_fl_pos e_def left_diff_distrib)
  ultimately show ?thesis
    using pos by (simp add: abs_mult e_def)
qed

lemma round_fl_rel_error:
  assumes "2 powi (int p - 1 - int m) \<le> x" and "1 \<le> p"
  shows "\<bar>round_fl p m x - x\<bar> \<le> x / 2 ^ p"
proof -
  have big: "(2::rat) powi (- int m) \<le> x"
  proof -
    have "(2::rat) powi (- int m) \<le> 2 powi (int p - 1 - int m)"
      using assms(2) by (intro power_int_increasing) auto
    with assms(1) show ?thesis by linarith
  qed
  then have one: "1 \<le> x * 2 ^ m"
    by (simp add: power_int_minus field_simps)
  have "0 \<le> x" using big by (meson order_trans zero_le_numeral zero_le_power_int)
  have "(2::rat) powi (int p - 1 - int m) < 2 powi (flog2 m x + 1)"
    using assms(1) flog2_bounds(2) [OF one] by linarith
  then have "int p - 1 - int m < flog2 m x + 1"
    by (metis linorder_not_less one_le_numeral power_int_increasing)
  then have e: "max (- int m) (flog2 m x + 1 - int p) = flog2 m x + 1 - int p"
    by linarith
  have "(2::rat) powi (flog2 m x + 1 - int p) / 2 = 2 powi flog2 m x / 2 ^ p"
    by (simp add: power_int_diff power_int_add)
  also have "\<dots> \<le> x / 2 ^ p"
    using flog2_bounds(1) [OF one] by (intro divide_right_mono) auto
  finally show ?thesis
    using round_fl_error [OF \<open>0 \<le> x\<close>, of p m] unfolding e by linarith
qed

lemma round_fl_of_nat [simp]:
  assumes "n < 2 ^ p"
  shows "round_fl p m (of_nat n) = of_nat n"
proof -
  define e where "e = max (- int m) (flog2 m (of_nat n) + 1 - int p)"
  have "rat_of_nat n < 2 powi int p"
    using assms by (metis of_nat_less_iff of_nat_numeral of_nat_power power_int_of_nat)
  then have "flog2 m (of_nat n) < int p"
    by (intro flog2_le) auto
  then have "e \<le> 0" by (simp add: e_def)
  then have q: "rat_of_nat n / 2 powi e = of_int (int n * 2 ^ nat (- e))"
    by (simp add: power_int_def field_simps)
  have "round_fl p m (of_nat n) = of_int (rne (rat_of_nat n / 2 powi e)) * 2 powi e"
    by (simp add: round_fl_pos e_def)
  also have "\<dots> = rat_of_nat n / 2 powi e * 2 powi e"
    by (simp only: q rne_of_int)
  finally show ?thesis by simp
qed

lemma round_fl_mono:
  assumes "0 \<le> x" and "x \<le> y" and "1 \<le> p"
  shows "round_fl p m x \<le> round_fl p m y"
proof -
  define ex where "ex = max (- int m) (flog2 m x + 1 - int p)"
  define ey where "ey = max (- int m) (flog2 m y + 1 - int p)"
  have rx: "round_fl p m x = of_int (rne (x / 2 powi ex)) * 2 powi ex"
    using assms by (simp add: round_fl_pos ex_def)
  have ry: "round_fl p m y = of_int (rne (y / 2 powi ey)) * 2 powi ey"
    using assms by (simp add: round_fl_pos ey_def)
  have "ex \<le> ey"
    using flog2_mono [OF assms(2), of m] by (simp add: ex_def ey_def)
  then consider "ex = ey" | "ex < ey" by linarith
  then show ?thesis
  proof cases
    case 1
    have "x / 2 powi ey \<le> y / 2 powi ey"
      using assms(2) by (intro divide_right_mono) auto
    then show ?thesis
      by (simp add: rx ry 1 rne_mono)
  next
    case 2
    define j where "j = flog2 m y"
    have ey: "ey = j + 1 - int p" and jm: "- int m \<le> j" and xj: "flog2 m x < j" and exj: "ex \<le> j"
      using 2 assms(3) by (auto simp: ex_def ey_def j_def)
    have y1: "1 \<le> y * 2 ^ m"
    proof (rule ccontr)
      assume "\<not> 1 \<le> y * 2 ^ m"
      then have "\<lfloor>y * 2 ^ m\<rfloor> \<le> 0" by linarith
      then have "j = - 1 - int m" by (simp add: j_def flog2_def floorlog_def)
      with jm show False by simp
    qed
    have "x < 2 powi j"
    proof (cases "1 \<le> x * 2 ^ m")
      case True
      have "(2::rat) powi (flog2 m x + 1) \<le> 2 powi j"
        using xj by (intro power_int_increasing) auto
      then show ?thesis using flog2_bounds(2) [OF True] by linarith
    next
      case False
      then have "x < 2 powi (- int m)" by (simp add: power_int_minus field_simps)
      also have "(2::rat) powi (- int m) \<le> 2 powi j"
        using jm by (intro power_int_increasing) auto
      finally show ?thesis .
    qed
    then have "x / 2 powi ex \<le> 2 powi j / 2 powi ex"
      by (intro divide_right_mono) auto
    also have "\<dots> = of_int (2 ^ nat (j - ex))"
      using exj power_int_diff [of "2::rat" j ex] by (simp add: power_int_def [of _ "j - ex"])
    finally have "rne (x / 2 powi ex) \<le> 2 ^ nat (j - ex)"
      using rne_mono by (metis rne_of_int)
    then have "round_fl p m x \<le> of_int (2 ^ nat (j - ex)) * 2 powi ex"
      unfolding rx by (intro mult_right_mono) (simp_all only: of_int_le_iff, simp)
    also have "\<dots> = 2 powi j"
      using exj power_int_add [of "2::rat" "j - ex" ex] by (simp add: power_int_def [of _ "j - ex"])
    finally have "round_fl p m x \<le> 2 powi j" .
    moreover have "2 powi j \<le> round_fl p m y"
    proof -
      have "int (p - 1) + ey = j" using assms(3) by (simp add: ey)
      then have "of_int (2 ^ (p - 1)) * 2 powi ey = (2::rat) powi j"
        using power_int_add [of "2::rat" "int (p - 1)" ey] power_int_of_nat [of "2::rat" "p - 1"]
        by (simp del: power_int_of_nat of_nat_diff)
      moreover have "2 powi j \<le> y" using flog2_bounds(1) [OF y1] by (simp add: j_def)
      ultimately have "of_int (2 ^ (p - 1)) \<le> y / 2 powi ey"
        by (simp add: le_divide_eq)
      then have "2 ^ (p - 1) \<le> rne (y / 2 powi ey)"
        using rne_mono by (metis rne_of_int)
      then have "rat_of_int (2 ^ (p - 1)) * 2 powi ey \<le> round_fl p m y"
        unfolding ry by (intro mult_right_mono) (simp_all only: of_int_le_iff, simp)
      then show ?thesis
        using \<open>of_int (2 ^ (p - 1)) * 2 powi ey = (2::rat) powi j\<close> by simp
    qed
    ultimately show ?thesis by linarith
  qed
qed

section \<open>Formatting with one decimal\<close>

text \<open>
  \<open>strconv.FormatFloat(x, 'f', 1, 32)\<close> for \<open>x \<ge> 0\<close>: the argument is rounded to \<open>float32\<close>, and
  the exact value of that to one decimal, ties to even. \<open>show_tenths n\<close> prints \<open>n\<close> tenths.
\<close>

definition show_tenths :: "nat \<Rightarrow> string" where
  "show_tenths n = show_nat (n div 10) @ ''.'' @ show_nat (n mod 10)"

definition format_f1 :: "rat \<Rightarrow> string" where
  "format_f1 x = show_tenths (nat (rne (f32 x * 10)))"

lemma tiny_powi:
  assumes "1 / 2 ^ 100 \<le> (x::rat)" and "k \<le> - 100"
  shows "2 powi k \<le> x"
proof -
  have "(2::rat) powi k \<le> 2 powi (- 100)"
    using assms(2) by (intro power_int_increasing) auto
  also have "\<dots> = 1 / 2 ^ 100" by (simp add: power_int_def field_simps)
  finally show ?thesis using assms(1) by linarith
qed

lemma f32_error: "1 / 2 ^ 100 \<le> x \<Longrightarrow> \<bar>f32 x - x\<bar> \<le> x / 2 ^ 24"
  unfolding f32_def by (rule round_fl_rel_error) (simp_all add: tiny_powi)

lemma f64_error: "1 / 2 ^ 100 \<le> x \<Longrightarrow> \<bar>f64 x - x\<bar> \<le> x / 2 ^ 53"
  unfolding f64_def by (rule round_fl_rel_error) (simp_all add: tiny_powi)

lemma f32_of_nat: "n < 2 ^ 24 \<Longrightarrow> f32 (of_nat n) = of_nat n"
  unfolding f32_def by (rule round_fl_of_nat)

lemma f64_of_nat: "n < 2 ^ 53 \<Longrightarrow> f64 (of_nat n) = of_nat n"
  unfolding f64_def by (rule round_fl_of_nat)

lemma f64_mono: "0 \<le> x \<Longrightarrow> x \<le> y \<Longrightarrow> f64 x \<le> f64 y"
  unfolding f64_def by (rule round_fl_mono) simp_all

lemma f64_nonneg: "0 \<le> x \<Longrightarrow> 0 \<le> f64 x"
  unfolding f64_def by (rule round_fl_nonneg)

lemma f32_0 [simp]: "f32 0 = 0" and f64_0 [simp]: "f64 0 = 0"
  by (simp_all add: f32_def f64_def)

lemma show_tenths_inject: "show_tenths m = show_tenths n \<Longrightarrow> m = n"
proof -
  have d: "show_nat (k mod 10) = [char_of (48 + k mod 10)]" for k
    by (subst show_nat.simps) simp
  assume "show_tenths m = show_tenths n"
  then have "show_nat (m div 10) = show_nat (n div 10)" and
    "show_nat (m mod 10) = show_nat (n mod 10)"
    unfolding show_tenths_def d by simp_all
  then show "m = n"
    by (metis show_nat_inject div_mult_mod_eq)
qed

end
