(* ===== verification/GoTime.thy ===== *)
theory GoTime
  imports GoFloat
begin

text \<open>\<open>time.ParseDuration\<close> of the standard library.\<close>

definition ascii_digit :: "char \<Rightarrow> bool" where
  "ascii_digit c = (48 \<le> (byte c :: nat) \<and> (byte c :: nat) \<le> 57)"

text \<open>\<open>leadingInt\<close>: \<open>None\<close> is an overflow.\<close>

fun leading_int :: "nat \<Rightarrow> string \<Rightarrow> (nat \<times> string) option" where
  "leading_int x [] = Some (x, [])"
| "leading_int x (c # s) =
     (if \<not> ascii_digit c then Some (x, c # s)
      else if 2 ^ 63 div 10 < x then None
      else if 2 ^ 63 < x * 10 + (byte c - 48) then None
      else leading_int (x * 10 + (byte c - 48)) s)"

text \<open>\<open>leadingFraction\<close>: the digits that fit, their number as a power of ten, and the rest.\<close>

fun leading_fraction :: "nat \<Rightarrow> nat \<Rightarrow> bool \<Rightarrow> string \<Rightarrow> nat \<times> nat \<times> string" where
  "leading_fraction x scale over [] = (x, scale, [])"
| "leading_fraction x scale over (c # s) =
     (if \<not> ascii_digit c then (x, scale, c # s)
      else if over \<or> (2 ^ 63 - 1) div 10 < x \<or> 2 ^ 63 < x * 10 + (byte c - 48)
        then leading_fraction x scale True s
      else leading_fraction (x * 10 + (byte c - 48)) (scale * 10) False s)"

definition unit_ns :: "string \<Rightarrow> nat option" where
  "unit_ns u =
     (if u = ''ns'' then Some 1
      else if u = ''us'' \<or> u = [CHR 0xC2, CHR 0xB5, CHR ''s''] \<or> u = [CHR 0xCE, CHR 0xBC, CHR ''s''] then Some 1000
      else if u = ''ms'' then Some 1000000
      else if u = ''s'' then Some 1000000000
      else if u = ''m'' then Some 60000000000
      else if u = ''h'' then Some 3600000000000
      else None)"

text \<open>One round of the loop: a number with its unit, in nanoseconds, and the rest of the text.\<close>

definition duration_part :: "string \<Rightarrow> (nat \<times> string) option" where
  "duration_part s =
     (if \<not> (hd s = CHR ''.'' \<or> ascii_digit (hd s)) then None
      else (case leading_int 0 s of
              None \<Rightarrow> None
            | Some (v, s1) \<Rightarrow>
                (let dot = s1 \<noteq> [] \<and> hd s1 = CHR ''.'';
                     frac = (if dot then leading_fraction 0 1 False (tl s1) else (0, 1, s1));
                     f = fst frac; scale = fst (snd frac); s2 = snd (snd frac);
                     pre = length s1 \<noteq> length s; post = dot \<and> length s2 \<noteq> length (tl s1);
                     u = takeWhile (\<lambda>c. \<not> (c = CHR ''.'' \<or> ascii_digit c)) s2;
                     s3 = drop (length u) s2
                 in if \<not> pre \<and> \<not> post then None
                    else if u = [] then None
                    else (case unit_ns u of
                            None \<Rightarrow> None
                          | Some unit \<Rightarrow>
                              if 2 ^ 63 div unit < v then None
                              else (let v1 = v * unit;
                                        v2 = (if 0 < f
                                              then v1 + nat \<lfloor>f64 (f64 (of_nat f) * f64 (of_nat unit / of_nat scale))\<rfloor>
                                              else v1)
                                    in if 2 ^ 63 < v2 then None else Some (v2, s3))))))"

lemma leading_int_shorter: "leading_int x s = Some (v, s') \<Longrightarrow> length s' \<le> length s"
  by (induction x s rule: leading_int.induct) (auto split: if_splits)

lemma leading_fraction_shorter: "length (snd (snd (leading_fraction x scale over s))) \<le> length s"
  by (induction x scale over s rule: leading_fraction.induct) auto

lemma duration_part_shorter:
  assumes "duration_part s = Some (v, s')" and "s \<noteq> []"
  shows "length s' < length s"
proof -
  obtain w s1 where l: "leading_int 0 s = Some (w, s1)"
    using assms(1) by (auto simp: duration_part_def split: if_splits option.splits)
  define s2 where "s2 = snd (snd (if s1 \<noteq> [] \<and> hd s1 = CHR ''.'' then leading_fraction 0 1 False (tl s1) else (0, 1, s1)))"
  define u where "u = takeWhile (\<lambda>c. \<not> (c = CHR ''.'' \<or> ascii_digit c)) s2"
  have "s' = drop (length u) s2" "u \<noteq> []"
    using assms(1) l by (auto simp: duration_part_def Let_def s2_def u_def split: if_splits option.splits)
  moreover have "length s2 \<le> length s1"
    using leading_fraction_shorter [of 0 1 False "tl s1"] by (auto simp: s2_def)
  moreover have "length s1 \<le> length s" by (rule leading_int_shorter [OF l])
  moreover have "length u \<le> length s2" by (simp add: u_def length_takeWhile_le)
  ultimately show ?thesis by (cases u) auto
qed

function duration_loop :: "nat \<Rightarrow> string \<Rightarrow> nat option" where
  "duration_loop d s =
     (if s = [] then Some d
      else (case duration_part s of
              None \<Rightarrow> None
            | Some (v, s') \<Rightarrow>
                (let d' = (d + v) mod 2 ^ 64 in if 2 ^ 63 < d' then None else duration_loop d' s')))"
  by pat_completeness auto
termination
  by (relation "measure (\<lambda>(d, s). length s)") (auto dest: duration_part_shorter)

declare duration_loop.simps [simp del]

definition parse_duration :: "string \<Rightarrow> duration option" where
  "parse_duration s0 =
     (let signed = s0 \<noteq> [] \<and> (hd s0 = CHR ''-'' \<or> hd s0 = CHR ''+'');
          neg = signed \<and> hd s0 = CHR ''-'';
          s = (if signed then tl s0 else s0)
      in if s = ''0'' then Some 0
         else if s = [] then None
         else (case duration_loop 0 s of
                 None \<Rightarrow> None
               | Some d \<Rightarrow> if neg then Some (- int d) else if 2 ^ 63 - 1 < d then None else Some (int d)))"

text \<open>A duration that parses fits 64 bits; days are not a unit.\<close>

lemma duration_loop_bound: "duration_loop d s = Some d' \<Longrightarrow> d \<le> 2 ^ 63 \<Longrightarrow> d' \<le> 2 ^ 63"
proof (induction d s rule: duration_loop.induct)
  case (1 d s)
  show ?case
  proof (cases "s = []")
    case True
    then show ?thesis using 1 by (simp add: duration_loop.simps)
  next
    case False
    then obtain v s' where p: "duration_part s = Some (v, s')"
      using "1.prems" by (auto simp: duration_loop.simps [of d s] split: option.splits)
    have n: "\<not> 2 ^ 63 < (d + v) mod 2 ^ 64" and l: "duration_loop ((d + v) mod 2 ^ 64) s' = Some d'"
      using "1.prems"(1) False by (auto simp: duration_loop.simps [of d s] p Let_def split: if_splits)
    show ?thesis
      by (rule "1.IH" [OF False p refl refl n l]) (use n in simp)
  qed
qed

lemma parse_duration_in_int64: "parse_duration s = Some d \<Longrightarrow> in_int64 d"
  using duration_loop_bound [of 0] by (fastforce simp: parse_duration_def Let_def in_int64_def split: if_splits option.splits)

lemma duration_hours: "parse_duration ''24h'' = Some (24 * 3600000000000)"
  by code_simp

lemma duration_hours_minutes: "parse_duration ''1h30m'' = Some (90 * 60000000000)"
  by code_simp

lemma duration_no_days: "parse_duration ''7d'' = None" "parse_duration ''7dh'' = None"
  by code_simp+

lemma duration_negative: "parse_duration ''-5m'' = Some (- 300000000000)"
  by code_simp

lemmas duration_examples = duration_hours duration_hours_minutes duration_no_days duration_negative

end
