(* ===== verification/Session.thy ===== *)
theory Session
  imports GoBase GoNum
begin

text \<open>
  \<open>rflink/session.go\<close>: the store of browser sessions. The map \<open>byID\<close> is an association list with
  distinct keys; the session id that \<open>crypto/rand\<close> yields, or its error, is an argument of
  \<open>Create\<close>, and so are the clock and the order in which \<open>range\<close> visits the map. The interface that
  the HTTP layer relies on is the locale \<open>session_service\<close>.
\<close>

section \<open>The store\<close>

record session =
  ses_ID :: string
  ses_CreatedAt :: instant
  ses_ExpiresAt :: instant
  ses_IP :: string

type_synonym store = "(string \<times> session) list"

definition session_ttl :: duration where "session_ttl = minutes (72 * 60)"
definition max_sessions :: nat where "max_sessions = 16"

definition new_session_store :: store where "new_session_store = []"

text \<open>One tick of the reaper.\<close>

definition reap :: "instant \<Rightarrow> store \<Rightarrow> store" where
  "reap now st = filter (\<lambda>(_, s). \<not> ses_ExpiresAt s < now) st"

text \<open>
  The loop that looks for the oldest entry: it takes the first entry visited (\<open>first\<close>), and then
  every one created before the best so far.
\<close>

definition older :: "string \<times> session \<Rightarrow> string \<times> session \<Rightarrow> string \<times> session" where
  "older e m = (if ses_CreatedAt (snd e) < ses_CreatedAt (snd m) then e else m)"

definition oldest :: "store \<Rightarrow> (string \<times> session) option" where
  "oldest es = (case es of [] \<Rightarrow> None | e # es' \<Rightarrow> Some (fold older es' e))"

lemma fold_older:
  "fold older es m \<in> insert m (set es) \<and>
   (\<forall>x \<in> insert m (set es). ses_CreatedAt (snd (fold older es m)) \<le> ses_CreatedAt (snd x))"
proof (induction es arbitrary: m)
  case (Cons e es)
  have "older e m \<in> {e, m}" "ses_CreatedAt (snd (older e m)) \<le> ses_CreatedAt (snd e)"
    "ses_CreatedAt (snd (older e m)) \<le> ses_CreatedAt (snd m)"
    by (simp_all add: older_def)
  then show ?case using Cons.IH [of "older e m"] by (auto intro: order_trans)
qed simp

lemma oldest_in: "oldest es = Some e \<Longrightarrow> e \<in> set es"
  using fold_older by (fastforce simp: oldest_def split: list.splits)

lemma oldest_min:
  "oldest es = Some e \<Longrightarrow> x \<in> set es \<Longrightarrow> ses_CreatedAt (snd e) \<le> ses_CreatedAt (snd x)"
  using fold_older by (fastforce simp: oldest_def split: list.splits)

lemma oldest_None: "oldest es = None \<longleftrightarrow> es = []"
  by (simp add: oldest_def split: list.splits)

text \<open>The eviction loop; \<open>rank\<close> gives the visiting order of the pass that sees \<open>n\<close> entries.\<close>

function evict :: "(nat \<Rightarrow> string \<Rightarrow> nat) \<Rightarrow> store \<Rightarrow> store" where
  "evict rank st =
     (if length st < max_sessions then st
      else (case oldest (range_order (rank (length st)) st) of
              None \<Rightarrow> st
            | Some e \<Rightarrow> if fst e = [] then st else evict rank (AList.delete (fst e) st)))"
  by pat_completeness auto
termination
proof (relation "measure (\<lambda>(rank, st). length st)", goal_cases)
  case (2 rank st e)
  then have "e \<in> set st" using oldest_in by fastforce
  then show ?case by (auto intro!: length_delete_less)
qed simp

declare evict.simps [simp del]

definition session_create ::
  "(nat \<Rightarrow> string \<Rightarrow> nat) \<Rightarrow> string + string \<Rightarrow> instant \<Rightarrow> string \<Rightarrow> store \<Rightarrow> store \<times> (string + session)" where
  "session_create rank rnd now ip st =
     (case rnd of
        Inl e \<Rightarrow> (st, Inl e)
      | Inr i \<Rightarrow>
          (let s = \<lparr>ses_ID = i, ses_CreatedAt = now, ses_ExpiresAt = now + session_ttl, ses_IP = ip\<rparr>
           in (AList.update i s (evict rank st), Inr s)))"

definition session_get :: "instant \<Rightarrow> string \<Rightarrow> store \<Rightarrow> store \<times> session option" where
  "session_get now i st =
     (if i = [] then (st, None)
      else (case map_of st i of
              None \<Rightarrow> (st, None)
            | Some s \<Rightarrow> if ses_ExpiresAt s < now then (AList.delete i st, None) else (st, Some s)))"

definition session_revoke :: "string \<Rightarrow> store \<Rightarrow> store \<times> bool" where
  "session_revoke i st = (case map_of st i of None \<Rightarrow> (st, False) | Some _ \<Rightarrow> (AList.delete i st, True))"

definition session_count :: "store \<Rightarrow> nat" where
  "session_count st = length st"

definition revoke_all_except :: "string \<Rightarrow> store \<Rightarrow> store \<times> nat" where
  "revoke_all_except keep st =
     (filter (\<lambda>(i, _). i = keep) st, length (filter (\<lambda>(i, _). i \<noteq> keep) st))"

text \<open>A row of \<open>List\<close>: id, prefix, address, creation and expiry.\<close>

definition session_row :: "string \<times> session \<Rightarrow> string \<times> string \<times> string \<times> instant \<times> instant" where
  "session_row e =
     (fst e, if 8 < length (fst e) then take 8 (fst e) else fst e,
      ses_IP (snd e), ses_CreatedAt (snd e), ses_ExpiresAt (snd e))"

definition list_sessions ::
  "(string \<Rightarrow> nat) \<Rightarrow> instant \<Rightarrow> store \<Rightarrow> (string \<times> string \<times> string \<times> instant \<times> instant) list" where
  "list_sessions rank now st =
     map session_row (filter (\<lambda>(_, s). \<not> ses_ExpiresAt s < now) (range_order rank st))"

text \<open>\<open>randomSessionID\<close> prints 32 random bytes in hexadecimal.\<close>

definition hex_digit :: "nat \<Rightarrow> char" where
  "hex_digit n = char_of (if n < 10 then 48 + n else 87 + n)"

definition hex_encode :: "nat list \<Rightarrow> string" where
  "hex_encode bs = concat (map (\<lambda>b. [hex_digit (b div 16), hex_digit (b mod 16)]) bs)"

definition random_session_id :: "string + nat list \<Rightarrow> string + string" where
  "random_session_id rnd = (case rnd of Inl e \<Rightarrow> Inl e | Inr bs \<Rightarrow> Inr (hex_encode bs))"

section \<open>Cookies\<close>

record cookie =
  ck_Name :: string
  ck_Value :: string
  ck_Path :: string
  ck_HttpOnly :: bool
  ck_SameSiteStrict :: bool
  ck_Secure :: bool
  ck_Expires :: instant
  ck_MaxAge :: int

definition session_cookie_name :: string where "session_cookie_name = ''gorflink_session''"

definition set_session_cookie :: "instant \<Rightarrow> bool \<Rightarrow> session \<Rightarrow> cookie" where
  "set_session_cookie now tls s =
     \<lparr>ck_Name = session_cookie_name, ck_Value = ses_ID s, ck_Path = ''/'', ck_HttpOnly = True,
      ck_SameSiteStrict = True, ck_Secure = tls, ck_Expires = ses_ExpiresAt s,
      ck_MaxAge = whole_seconds (time_sub (ses_ExpiresAt s) now)\<rparr>"

definition clear_session_cookie :: "bool \<Rightarrow> cookie" where
  "clear_session_cookie tls =
     \<lparr>ck_Name = session_cookie_name, ck_Value = [], ck_Path = ''/'', ck_HttpOnly = True,
      ck_SameSiteStrict = True, ck_Secure = tls, ck_Expires = 0, ck_MaxAge = - 1\<rparr>"

section \<open>The invariant\<close>

text \<open>
  At most \<open>max_sessions\<close> entries, each under its own id, which is not empty. The ids that \<open>session_create\<close>
  stores come from \<open>random_session_id\<close> and are never empty.
\<close>

definition store_inv :: "store \<Rightarrow> bool" where
  "store_inv st \<longleftrightarrow>
     length st \<le> max_sessions \<and> distinct (map fst st) \<and>
     (\<forall>e \<in> set st. fst e \<noteq> [] \<and> ses_ID (snd e) = fst e)"

lemma store_inv_new [simp]: "store_inv new_session_store"
  by (simp add: store_inv_def new_session_store_def)

lemma store_inv_filter: "store_inv st \<Longrightarrow> store_inv (filter P st)"
  using le_trans [OF length_filter_le [of P st]]
  by (auto simp: store_inv_def intro: distinct_map_filter)

lemma store_inv_delete: "store_inv st \<Longrightarrow> store_inv (AList.delete k st)"
  unfolding AList.delete_eq by (rule store_inv_filter)

lemma store_inv_reap: "store_inv st \<Longrightarrow> store_inv (reap now st)"
  unfolding reap_def by (rule store_inv_filter)

lemma store_inv_get: "store_inv st \<Longrightarrow> store_inv (fst (session_get now i st))"
  by (simp add: session_get_def store_inv_delete split: option.splits)

lemma store_inv_revoke: "store_inv st \<Longrightarrow> store_inv (fst (session_revoke i st))"
  by (simp add: session_revoke_def store_inv_delete split: option.splits)

lemma store_inv_revoke_all: "store_inv st \<Longrightarrow> store_inv (fst (revoke_all_except keep st))"
  by (simp add: revoke_all_except_def store_inv_filter)

lemma oldest_range:
  assumes "st \<noteq> []"
  obtains e where "oldest (range_order rank st) = Some e" and "e \<in> set st"
    and "\<forall>x \<in> set st. ses_CreatedAt (snd e) \<le> ses_CreatedAt (snd x)"
proof -
  have "range_order rank st \<noteq> []"
    using assms by (metis length_0_conv length_range_order)
  then obtain e where e: "oldest (range_order rank st) = Some e"
    using oldest_None by fastforce
  show thesis
    using that [OF e] oldest_in [OF e] oldest_min [OF e] by simp
qed

text \<open>
  The eviction makes room. The store never holds more than \<open>max_sessions\<close> entries, so one pass is
  enough; it removes an entry that no other entry precedes.
\<close>

lemma evict_idle: "length st < max_sessions \<Longrightarrow> evict rank st = st"
  by (simp add: evict.simps)

lemma evict_full:
  assumes "store_inv st" and "length st = max_sessions"
  obtains e where "evict rank st = AList.delete (fst e) st" and "e \<in> set st"
    and "\<forall>x \<in> set st. ses_CreatedAt (snd e) \<le> ses_CreatedAt (snd x)"
proof -
  have "st \<noteq> []" using assms(2) by (auto simp: max_sessions_def)
  then obtain e where e: "oldest (range_order (rank (length st)) st) = Some e" "e \<in> set st"
    "\<forall>x \<in> set st. ses_CreatedAt (snd e) \<le> ses_CreatedAt (snd x)"
    by (rule oldest_range)
  have n: "fst e \<noteq> []" using assms(1) e(2) by (simp add: store_inv_def)
  have "length (AList.delete (fst e) st) < max_sessions"
    using length_delete_less [of "fst e" st] e(2) assms(2) by simp
  then have "evict rank st = AList.delete (fst e) st"
    using e(1) n assms(2) by (subst evict.simps) (simp add: evict_idle)
  then show thesis using that e by blast
qed

lemma evict_room:
  assumes "store_inv st"
  shows "store_inv (evict rank st)" and "length (evict rank st) < max_sessions"
    and "set (evict rank st) \<subseteq> set st"
proof -
  consider "length st < max_sessions" | "length st = max_sessions"
    using assms by (fastforce simp: store_inv_def)
  then have "store_inv (evict rank st) \<and> length (evict rank st) < max_sessions \<and> set (evict rank st) \<subseteq> set st"
  proof cases
    case 2
    obtain e where "evict rank st = AList.delete (fst e) st" "e \<in> set st"
      using evict_full [OF assms 2] by blast
    then show ?thesis
      using assms 2 length_delete_less [of "fst e" st]
      by (simp add: store_inv_delete) (auto simp: AList.delete_eq)
  qed (simp add: evict_idle assms)
  then show "store_inv (evict rank st)" "length (evict rank st) < max_sessions"
    "set (evict rank st) \<subseteq> set st" by auto
qed

lemma store_inv_update:
  assumes "store_inv st" and "length st < max_sessions" and "i \<noteq> []" and "ses_ID s = i"
  shows "store_inv (AList.update i s st)"
proof -
  have "fst e \<noteq> [] \<and> ses_ID (snd e) = fst e" if "e \<in> set (AList.update i s st)" for e
    using that
  proof (rule set_update_cases)
    assume "e \<in> set st"
    then show ?thesis using assms(1) by (simp add: store_inv_def)
  qed (simp add: assms)
  then show ?thesis
    using assms(1,2) by (simp add: store_inv_def distinct_update length_update)
qed

lemma store_inv_create:
  assumes "store_inv st" and "\<forall>i. rnd = Inr i \<longrightarrow> i \<noteq> []"
  shows "store_inv (fst (session_create rank rnd now ip st))"
  using assms evict_room(1,2) [OF assms(1)]
  by (cases rnd) (simp_all add: session_create_def Let_def store_inv_update)

section \<open>Authentication by session\<close>

text \<open>
  What a request handler relies on: \<open>view\<close> is the session an id names; \<open>look\<close> and \<open>drop_id\<close> are the
  operations the handlers call.
\<close>

locale session_service =
  fixes view :: "'s \<Rightarrow> string \<Rightarrow> session option"
    and look :: "instant \<Rightarrow> string \<Rightarrow> 's \<Rightarrow> 's \<times> session option"
    and drop_id :: "string \<Rightarrow> 's \<Rightarrow> 's \<times> bool"
  assumes look_result:
      "snd (look now i st) = Some s \<longleftrightarrow> i \<noteq> [] \<and> view st i = Some s \<and> now \<le> ses_ExpiresAt s"
    and look_view: "view (fst (look now i st)) j =
      (case view st j of None \<Rightarrow> None
       | Some s \<Rightarrow> if j = i \<and> i \<noteq> [] \<and> ses_ExpiresAt s < now then None else Some s)"
    and drop_view: "view (fst (drop_id i st)) j = (if j = i then None else view st j)"
begin

lemma look_again:
  assumes "snd (look now i st) = Some s" and "now' \<le> ses_ExpiresAt s"
  shows "snd (look now' i (fst (look now i st))) = Some s"
  using assms by (auto simp: look_result look_view)

lemma look_dropped: "snd (look now i (fst (drop_id i st))) = None"
  using look_result [of now i "fst (drop_id i st)"] by (cases "snd (look now i (fst (drop_id i st)))") (auto simp: drop_view)

lemma look_expired:
  "view st i = Some s \<Longrightarrow> ses_ExpiresAt s < now \<Longrightarrow> snd (look now i st) = None"
  using look_result [of now i st] by (cases "snd (look now i st)") force+

lemma look_other: "j \<noteq> i \<Longrightarrow> view (fst (look now i st)) j = view st j"
  by (simp add: look_view split: option.splits)

lemma dropped_other: "j \<noteq> i \<Longrightarrow> snd (look now j (fst (drop_id i st))) = snd (look now j st)"
proof -
  assume "j \<noteq> i"
  then have "snd (look now j (fst (drop_id i st))) = Some s \<longleftrightarrow> snd (look now j st) = Some s" for s
    by (simp add: look_result drop_view)
  then show ?thesis
    by (cases "snd (look now j st)"; cases "snd (look now j (fst (drop_id i st)))") auto
qed

end

lemma map_of_filter_key: "map_of (filter (\<lambda>(k, v). P k) m) k = (if P k then map_of m k else None)"
  by (induction m) auto

interpretation sessions: session_service map_of session_get session_revoke
proof unfold_locales
  show "snd (session_get now i st) = Some s \<longleftrightarrow> i \<noteq> [] \<and> map_of st i = Some s \<and> now \<le> ses_ExpiresAt s"
    for now i st s
    by (auto simp: session_get_def split: option.splits)
  show "map_of (fst (session_get now i st)) j =
      (case map_of st j of None \<Rightarrow> None
       | Some s \<Rightarrow> if j = i \<and> i \<noteq> [] \<and> ses_ExpiresAt s < now then None else Some s)" for now i st j
    by (auto simp: session_get_def delete_conv' split: option.splits)
  show "map_of (fst (session_revoke i st)) j = (if j = i then None else map_of st j)" for i st j
    by (auto simp: session_revoke_def delete_conv' split: option.splits)
qed

lemma create_get:
  assumes "store_inv st" and "i \<noteq> []" and "session_create rank (Inr i) now ip st = (st', Inr s)"
  shows "snd (session_get now' i st') = (if now' \<le> now + session_ttl then Some s else None)"
    and "ses_ID s = i" and "ses_IP s = ip"
proof -
  have v: "map_of st' i = Some s" and s: "ses_ID s = i" "ses_IP s = ip" "ses_ExpiresAt s = now + session_ttl"
    using assms(3) by (auto simp: session_create_def Let_def update_conv')
  show "snd (session_get now' i st') = (if now' \<le> now + session_ttl then Some s else None)"
    using v s(3) assms(2) by (simp add: session_get_def)
  show "ses_ID s = i" "ses_IP s = ip" by (rule s)+
qed

lemma create_keeps:
  assumes "store_inv st" and "j \<noteq> i" and "map_of st j = Some u"
    and "length st < max_sessions \<or> (\<exists>x \<in> set st. ses_CreatedAt (snd x) < ses_CreatedAt u)"
  shows "map_of (fst (session_create rank (Inr i) now ip st)) j = Some u"
proof -
  have "map_of (evict rank st) j = Some u"
  proof (cases "length st < max_sessions")
    case False
    then have "length st = max_sessions" using assms(1) by (simp add: store_inv_def)
    then obtain e where e: "evict rank st = AList.delete (fst e) st" "e \<in> set st"
      and m: "\<forall>x \<in> set st. ses_CreatedAt (snd e) \<le> ses_CreatedAt (snd x)"
      using evict_full [OF assms(1)] by metis
    have "fst e \<noteq> j"
    proof
      assume "fst e = j"
      then have "snd e = u"
        using e(2) assms(1,3) map_of_eq_Some_iff [of st j "snd e"] by (cases e) (auto simp: store_inv_def)
      then show False using m assms(4) False by force
    qed
    then show ?thesis using e(1) assms(3) by (simp add: delete_conv')
  qed (simp add: evict_idle assms)
  then show ?thesis using assms(2) by (simp add: session_create_def Let_def update_conv')
qed

text \<open>Ids.\<close>

lemma hex_encode_length [simp]: "length (hex_encode bs) = 2 * length bs"
  by (induction bs) (simp_all add: hex_encode_def)

lemma byte_hex_digit: "n < 16 \<Longrightarrow> of_char (hex_digit n) = (if n < 10 then 48 + n else 87 + n)"
  by (simp add: hex_digit_def of_char_of)

lemma hex_digit_inject:
  assumes "m < 16" "n < 16" "hex_digit m = hex_digit n"
  shows "m = n"
  using arg_cong [OF assms(3), where f = "of_char :: char \<Rightarrow> nat"] assms(1,2)
  by (simp add: byte_hex_digit split: if_splits)

lemma hex_encode_inject:
  "\<forall>b \<in> set bs. b < 256 \<Longrightarrow> \<forall>b \<in> set cs. b < 256 \<Longrightarrow> hex_encode bs = hex_encode cs \<Longrightarrow> bs = cs"
proof (induction bs arbitrary: cs)
  case Nil
  then show ?case by (cases cs) (simp_all add: hex_encode_def)
next
  case (Cons b bs)
  then obtain c cs' where c: "cs = c # cs'" by (cases cs) (simp_all add: hex_encode_def)
  have "b div 16 = c div 16" "b mod 16 = c mod 16"
    using Cons.prems c by (auto simp: hex_encode_def intro!: hex_digit_inject)
  then have "b = c" by (metis div_mult_mod_eq)
  moreover have "bs = cs'"
    using Cons.prems c by (intro Cons.IH) (auto simp: hex_encode_def)
  ultimately show ?case by (simp add: c)
qed

section \<open>Properties\<close>

text \<open>
  The store never holds more than sixteen sessions, each under its own non-empty id, whatever
  operation is applied to it.
\<close>

lemma session_store_bounded:
  assumes "store_inv st" and "\<forall>i. rnd = Inr i \<longrightarrow> i \<noteq> []"
  shows "store_inv (fst (session_create rank rnd now ip st)) \<and> store_inv (fst (session_get now i st)) \<and>
    store_inv (fst (session_revoke i st)) \<and> store_inv (fst (revoke_all_except i st)) \<and> store_inv (reap now st) \<and>
    session_count st \<le> 16"
  using store_inv_create [OF assms] store_inv_get [OF assms(1)] store_inv_revoke [OF assms(1)]
    store_inv_revoke_all [OF assms(1)] store_inv_reap [OF assms(1)] assms(1)
  by (simp add: session_count_def store_inv_def max_sessions_def)

definition sixteen_sessions :: store where
  "sixteen_sessions = map (\<lambda>n. (hex_encode [n], \<lparr>ses_ID = hex_encode [n], ses_CreatedAt = int n,
     ses_ExpiresAt = int n + session_ttl, ses_IP = ''h''\<rparr>)) [0..<16]"

lemma session_store_bounded_witness:
  "store_inv (fst (session_create (\<lambda>_ _. 0) (Inr ''ff'') 99 ''h'' sixteen_sessions)) \<and>
   length (fst (session_create (\<lambda>_ _. 0) (Inr ''ff'') 99 ''h'' sixteen_sessions)) = 16 \<and>
   map_of (fst (session_create (\<lambda>_ _. 0) (Inr ''ff'') 99 ''h'' sixteen_sessions)) ''00'' = None"
proof -
  have i: "store_inv sixteen_sessions" by code_simp
  have c: "length (fst (session_create (\<lambda>_ _. 0) (Inr ''ff'') 99 ''h'' sixteen_sessions)) = 16"
    "map_of (fst (session_create (\<lambda>_ _. 0) (Inr ''ff'') 99 ''h'' sixteen_sessions)) ''00'' = None"
    by code_simp+
  show ?thesis
    using session_store_bounded [OF i, of "Inr ''ff''" "\<lambda>_ _. 0" 99 "''h''" "[]"] c by simp
qed

text \<open>
  C36: A session authenticates from its creation until its time to live is over, and creating another
  one does not end it as long as there is room or an older session to evict.
\<close>

theorem session_lifetime:
  assumes "store_inv st" and "i \<noteq> []" and "session_create rank (Inr i) now ip st = (st', Inr s)"
    and "j \<noteq> i" and "map_of st j = Some u"
    and "length st < max_sessions \<or> (\<exists>x \<in> set st. ses_CreatedAt (snd x) < ses_CreatedAt u)"
  shows "snd (session_get now' i st') = (if now' \<le> now + session_ttl then Some s else None) \<and>
    ses_ID s = i \<and> ses_IP s = ip \<and> map_of st' j = Some u"
  using create_get [OF assms(1-3)] create_keeps [OF assms(1,4-6), of rank now ip] assms(3) by simp

lemma session_lifetime_witness:
  "snd (session_get 99 ''ff'' (fst (session_create (\<lambda>_ _. 0) (Inr ''ff'') 99 ''h'' sixteen_sessions))) =
     Some \<lparr>ses_ID = ''ff'', ses_CreatedAt = 99, ses_ExpiresAt = 99 + session_ttl, ses_IP = ''h''\<rparr> \<and>
   map_of (fst (session_create (\<lambda>_ _. 0) (Inr ''ff'') 99 ''h'' sixteen_sessions)) ''07'' \<noteq> None"
proof -
  let ?s = "\<lparr>ses_ID = ''ff'', ses_CreatedAt = 99, ses_ExpiresAt = 99 + session_ttl, ses_IP = ''h''\<rparr>"
  let ?c = "session_create (\<lambda>_ _. 0) (Inr ''ff'') 99 ''h'' sixteen_sessions"
  have i: "store_inv sixteen_sessions" by code_simp
  have c: "?c = (fst ?c, Inr ?s)" by (simp add: session_create_def Let_def)
  have u: "map_of sixteen_sessions ''07'' = Some \<lparr>ses_ID = ''07'', ses_CreatedAt = 7,
      ses_ExpiresAt = 7 + session_ttl, ses_IP = ''h''\<rparr>" (is "_ = Some ?u")
    by code_simp
  have "list_ex (\<lambda>x. ses_CreatedAt (snd x) < 7) sixteen_sessions" by code_simp
  then have o: "\<exists>x \<in> set sixteen_sessions. ses_CreatedAt (snd x) < ses_CreatedAt ?u"
    by (simp add: list_ex_iff)
  have t: "(99 :: int) \<le> 99 + session_ttl" by code_simp
  show ?thesis
    using session_lifetime [OF i _ c _ u, of 99] o t by simp
qed

text \<open>
  Looking a session up twice gives the same answer while it lasts, a revoked id never
  authenticates again, and revoking one session leaves the others as they are.
\<close>

lemma session_lookup_contract:
  shows "(snd (session_get now i st) = Some s \<and> now' \<le> ses_ExpiresAt s \<longrightarrow> snd (session_get now' i (fst (session_get now i st))) = Some s) \<and>
    snd (session_get now i (fst (session_revoke i st))) = None \<and>
    (j \<noteq> i \<longrightarrow> snd (session_get now j (fst (session_revoke i st))) = snd (session_get now j st))"
  using sessions.look_again sessions.look_dropped sessions.dropped_other by blast

lemma session_lookup_contract_witness:
  "snd (session_get 9 ''07'' (fst (session_get 8 ''07'' sixteen_sessions))) =
     Some \<lparr>ses_ID = ''07'', ses_CreatedAt = 7, ses_ExpiresAt = 7 + session_ttl, ses_IP = ''h''\<rparr> \<and>
   snd (session_get 8 ''08'' (fst (session_revoke ''07'' sixteen_sessions))) = snd (session_get 8 ''08'' sixteen_sessions)"
proof -
  have g: "snd (session_get 8 ''07'' sixteen_sessions) =
     Some \<lparr>ses_ID = ''07'', ses_CreatedAt = 7, ses_ExpiresAt = 7 + session_ttl, ses_IP = ''h''\<rparr>" (is "_ = Some ?s")
    by code_simp
  have "(9 :: int) \<le> ses_ExpiresAt ?s" by code_simp
  then show ?thesis
    using session_lookup_contract [of 8 "''07''" sixteen_sessions ?s 9 "''08''"] g by simp
qed

end
