(* ===== verification/Validate.thy ===== *)
theory Validate
  imports GoStrings
begin

text \<open>
  \<open>rflink/validate.go\<close>: the syntax of an RFLink command and of the CSV settings that the GUI can
  edit. An error value names the failing check; the texts of \<open>fmt.Errorf\<close> are its constructors.
  The grammar of accepted commands and what an accepted setting guarantees follow the definitions.
\<close>

section \<open>Token classes\<close>

definition chars :: "string \<Rightarrow> char \<Rightarrow> bool" where
  "chars cs c = (is_alnum c \<or> c \<in> set cs)"

definition re_rflink_node :: "string \<Rightarrow> bool" where
  "re_rflink_node s = (1 \<le> length s \<and> length s \<le> 2 \<and> list_all is_digit s)"

definition re_hwid :: "string \<Rightarrow> bool" where
  "re_hwid s = match_token (chars ''_.-'') 63 s"

definition re_label :: "string \<Rightarrow> bool" where
  "re_label s = match_token (chars '' _./-'') 63 s"

definition re_ha_prefix :: "string \<Rightarrow> bool" where
  "re_ha_prefix s = match_token (chars ''_/-'') 63 s"

definition re_ignore_tok :: "string \<Rightarrow> bool" where
  "re_ignore_tok s = match_token (chars ''_.-'') 63 s"

section \<open>RFLink commands\<close>

datatype cmd_error =
    EmptyCommand
  | NoTrailingSemicolon
  | ControlCharacters
  | NonPrintable rune
  | TooFewFields string
  | InvalidNode string
  | EmptyField nat
  | FieldTooLong nat
  | CommandTooLong nat int

definition control_chars :: string where
  "control_chars = [char_of (0 :: nat), char_of (13 :: nat), char_of (10 :: nat)]"

text \<open>The loop over the fields, with its index.\<close>

fun check_fields :: "nat \<Rightarrow> string list \<Rightarrow> cmd_error + unit" where
  "check_fields i [] = Inr ()"
| "check_fields i (p # ps) =
     (if p = [] then Inl (EmptyField i)
      else if 96 < length p then Inl (FieldTooLong i)
      else check_fields (Suc i) ps)"

definition validate_rflink_command :: "string \<Rightarrow> cmd_error + unit" where
  "validate_rflink_command cmd0 =
     (let cmd = trim_space cmd0 in
      if cmd = [] then Inl EmptyCommand
      else if \<not> has_suffix cmd '';'' then Inl NoTrailingSemicolon
      else if contains_any cmd control_chars then Inl ControlCharacters
      else (case List.find (\<lambda>r. 127 < r \<or> r < 0x20) (runes cmd) of
              Some r \<Rightarrow> Inl (NonPrintable r)
            | None \<Rightarrow>
                (let parts = split_on (CHR '';'') (trim_suffix cmd '';'') in
                 if length parts < 2 then Inl (TooFewFields cmd)
                 else if \<not> re_rflink_node (hd parts) then Inl (InvalidNode (hd parts))
                 else check_fields 0 parts)))"

section \<open>CSV settings\<close>

datatype csv_error =
    EmptyAfterTrim
  | InvalidEntry string
  | EmptyPart string
  | InvalidKey string
  | InvalidValue string
  | CommaInName string
  | InvalidCommand string cmd_error

definition split_csv :: "string \<Rightarrow> string list" where
  "split_csv raw = filter (\<lambda>p. p \<noteq> []) (map trim_space (split_on (CHR '','') raw))"

definition is_printable_name :: "string \<Rightarrow> bool" where
  "is_printable_name s =
     (s \<noteq> [] \<and> length s \<le> 64 \<and> list_all (\<lambda>r. r \<le> 127 \<and> 0x20 \<le> r \<and> r \<noteq> 0x7F) (runes s))"

text \<open>A command of an actuator entry gets its trailing semicolon before it is checked.\<close>

definition with_semicolon :: "string \<Rightarrow> string" where
  "with_semicolon cmd = (if has_suffix cmd '';'' then cmd else cmd @ '';'')"

definition friendly_entry :: "string \<Rightarrow> csv_error + unit" where
  "friendly_entry part =
     (case split_n 2 (CHR '':'') part of
        [k, v] \<Rightarrow>
          (let key = trim_space k; val = trim_space v in
           if key = [] \<or> val = [] then Inl (EmptyPart part)
           else if \<not> re_hwid key then Inl (InvalidKey key)
           else if \<not> is_printable_name val then Inl (InvalidValue val)
           else if str_contains val '','' then Inl (CommaInName val)
           else Inr ())
      | _ \<Rightarrow> Inl (InvalidEntry part))"

definition validate_friendly_names_csv :: "string \<Rightarrow> csv_error + unit" where
  "validate_friendly_names_csv raw0 =
     (let raw = trim_space raw0 in
      if raw = [] then Inr ()
      else (let parts = split_csv raw in
            if parts = [] then Inl EmptyAfterTrim else check_all friendly_entry parts))"

definition hwid_entry :: "string \<Rightarrow> csv_error + unit" where
  "hwid_entry part =
     (case split_n 2 (CHR '':'') part of
        [k, v] \<Rightarrow>
          (let key = trim_space k; val = trim_space v in
           if key = [] \<or> val = [] then Inl (EmptyPart part)
           else if \<not> re_hwid key then Inl (InvalidKey key)
           else if \<not> re_hwid val then Inl (InvalidValue val)
           else Inr ())
      | _ \<Rightarrow> Inl (InvalidEntry part))"

definition validate_hwid_map_csv :: "string \<Rightarrow> csv_error + unit" where
  "validate_hwid_map_csv raw0 =
     (let raw = trim_space raw0 in
      if raw = [] then Inr () else check_all hwid_entry (split_csv raw))"

definition ignore_entry :: "string \<Rightarrow> csv_error + unit" where
  "ignore_entry part = (if re_ignore_tok part then Inr () else Inl (InvalidEntry part))"

definition validate_ignore_list_csv :: "string \<Rightarrow> csv_error + unit" where
  "validate_ignore_list_csv raw0 =
     (let raw = trim_space raw0 in
      if raw = [] then Inr () else check_all ignore_entry (split_csv raw))"

definition actuator_command :: "string \<Rightarrow> string \<Rightarrow> csv_error + unit" where
  "actuator_command name cmd =
     (case validate_rflink_command (with_semicolon cmd) of
        Inl e \<Rightarrow> Inl (InvalidCommand name e) | Inr _ \<Rightarrow> Inr ())"

definition button_entry :: "string \<Rightarrow> csv_error + unit" where
  "button_entry part =
     (case split_n 2 (CHR '':'') part of
        [k, v] \<Rightarrow>
          (let name = trim_space k; cmd = trim_space v in
           if name = [] \<or> cmd = [] then Inl (EmptyPart part)
           else if \<not> re_label name then Inl (InvalidKey name)
           else actuator_command name cmd)
      | _ \<Rightarrow> Inl (InvalidEntry part))"

definition validate_ha_buttons_csv :: "string \<Rightarrow> csv_error + unit" where
  "validate_ha_buttons_csv raw0 =
     (let raw = trim_space raw0 in
      if raw = [] then Inr () else check_all button_entry (split_csv raw))"

definition switch_entry :: "string \<Rightarrow> csv_error + unit" where
  "switch_entry part =
     (case split_n 3 (CHR '':'') part of
        [a, b, c] \<Rightarrow>
          (let name = trim_space a; on = trim_space b; off = trim_space c in
           if name = [] \<or> on = [] \<or> off = [] then Inl (EmptyPart part)
           else if \<not> re_label name then Inl (InvalidKey name)
           else bind_res (actuator_command name on) (\<lambda>_. actuator_command name off))
      | _ \<Rightarrow> Inl (InvalidEntry part))"

definition validate_ha_switches_csv :: "string \<Rightarrow> csv_error + unit" where
  "validate_ha_switches_csv raw0 =
     (let raw = trim_space raw0 in
      if raw = [] then Inr () else check_all switch_entry (split_csv raw))"

definition validate_ha_discovery_prefix :: "string \<Rightarrow> csv_error + unit" where
  "validate_ha_discovery_prefix pfx0 =
     (let pfx = trim_space pfx0 in
      if pfx = [] then Inr ()
      else if re_ha_prefix pfx then Inr () else Inl (InvalidValue pfx))"

section \<open>The grammar of accepted commands\<close>

text \<open>
  Specification: a frame is a node of one or two digits and at least one field, each ended by a
  semicolon; a field has 1 to 96 bytes from space to DEL, other than the semicolon.
\<close>

definition field_byte :: "char \<Rightarrow> bool" where
  "field_byte c = (32 \<le> byte c \<and> byte c < (128 :: nat))"

definition rflink_field :: "string \<Rightarrow> bool" where
  "rflink_field f = (f \<noteq> [] \<and> length f \<le> 96 \<and> list_all field_byte f \<and> CHR '';'' \<notin> set f)"

definition frame_of :: "string list \<Rightarrow> string" where
  "frame_of ps = concat (map (\<lambda>p. p @ '';'') ps)"

definition rflink_frame :: "string \<Rightarrow> bool" where
  "rflink_frame c \<longleftrightarrow>
     (\<exists>node fs. re_rflink_node node \<and> fs \<noteq> [] \<and> list_all rflink_field fs \<and> c = frame_of (node # fs))"

lemma frame_of_join: "ps \<noteq> [] \<Longrightarrow> frame_of ps = join '';'' ps @ '';''"
  by (induction ps rule: induct_list012) (simp_all add: frame_of_def)

lemma check_fields_ok:
  "check_fields i ps = Inr () \<longleftrightarrow> (\<forall>p \<in> set ps. p \<noteq> [] \<and> length p \<le> 96)"
  by (induction i ps rule: check_fields.induct) auto

lemma printable_runes:
  "List.find (\<lambda>r. 127 < r \<or> r < 0x20) (runes c) = None \<longleftrightarrow> list_all field_byte c"
proof -
  have "List.find (\<lambda>r. 127 < r \<or> r < 0x20) (runes c) = None \<longleftrightarrow>
      (\<forall>r \<in> set (runes c). r < 128) \<and> (\<forall>r \<in> set (runes c). 32 \<le> r)"
    by (auto simp: find_None_iff linorder_not_less less_Suc_eq_le)
  also have "\<dots> \<longleftrightarrow> is_ascii c \<and> (\<forall>x \<in> set c. 32 \<le> (byte x :: nat))"
    by (auto simp: runes_all_ascii runes_ascii)
  also have "\<dots> \<longleftrightarrow> list_all field_byte c"
    by (auto simp: is_ascii_def list_all_iff field_byte_def)
  finally show ?thesis .
qed

lemma node_bytes: "re_rflink_node s \<Longrightarrow> list_all field_byte s \<and> CHR '';'' \<notin> set s \<and> s \<noteq> [] \<and> length s \<le> 96"
  by (fastforce simp: re_rflink_node_def is_digit_def field_byte_def list_all_iff)

lemma no_control_chars: "list_all field_byte c \<Longrightarrow> \<not> contains_any c control_chars"
  by (fastforce simp: contains_any_iff list_all_iff field_byte_def control_chars_def of_char_of)

lemma frame_of_bytes:
  "list_all (list_all field_byte) ps \<Longrightarrow> list_all field_byte (frame_of ps)"
  by (induction ps) (simp_all add: frame_of_def field_byte_def)

lemma frame_bytes: "rflink_frame c \<Longrightarrow> list_all field_byte c"
  unfolding rflink_frame_def
  by (elim exE conjE, hypsubst, rule frame_of_bytes)
    (auto simp: list_all_iff rflink_field_def dest: node_bytes)

text \<open>What the checks see of a command that ends in a semicolon.\<close>

lemma validated_parts:
  assumes "trim_space cmd = c @ '';''"
  shows "validate_rflink_command cmd = Inr () \<longleftrightarrow>
    list_all field_byte c \<and> 2 \<le> length (split_on (CHR '';'') c) \<and>
    re_rflink_node (hd (split_on (CHR '';'') c)) \<and>
    (\<forall>p \<in> set (split_on (CHR '';'') c). p \<noteq> [] \<and> length p \<le> 96)"
proof -
  have sc: "list_all field_byte (c @ '';'') \<longleftrightarrow> list_all field_byte c"
    by (simp add: field_byte_def)
  show ?thesis
  proof (cases "list_all field_byte c")
    case True
    then have "\<not> contains_any (c @ '';'') control_chars"
      and "List.find (\<lambda>r. 127 < r \<or> r < 0x20) (runes (c @ '';'')) = None"
      using sc no_control_chars printable_runes by blast+
    then show ?thesis
      using assms True by (auto simp: validate_rflink_command_def Let_def check_fields_ok)
  next
    case False
    then have "List.find (\<lambda>r. 127 < r \<or> r < 0x20) (runes (c @ '';'')) \<noteq> None"
      using sc printable_runes by blast
    then show ?thesis
      using assms False by (auto simp: validate_rflink_command_def Let_def)
  qed
qed

lemma validate_rflink_command_iff:
  "validate_rflink_command cmd = Inr () \<longleftrightarrow> rflink_frame (trim_space cmd)"
proof (cases "has_suffix (trim_space cmd) '';''")
  case False
  moreover have "rflink_frame c \<Longrightarrow> has_suffix c '';''" for c
    by (auto simp: rflink_frame_def frame_of_join)
  ultimately show ?thesis
    by (auto simp: validate_rflink_command_def Let_def)
next
  case True
  then obtain c where c: "trim_space cmd = c @ '';''"
    by (auto simp: has_suffix_iff)
  have pieces: "list_all field_byte p" if "list_all field_byte c" "p \<in> set (split_on (CHR '';'') c)" for p
    using that split_on_set [OF that(2)] by (auto simp: list_all_iff)
  show ?thesis
  proof
    assume "validate_rflink_command cmd = Inr ()"
    then have b: "list_all field_byte c" and l: "2 \<le> length (split_on (CHR '';'') c)"
      and n: "re_rflink_node (hd (split_on (CHR '';'') c))"
      and f: "\<forall>p \<in> set (split_on (CHR '';'') c). p \<noteq> [] \<and> length p \<le> 96"
      using validated_parts [OF c] by auto
    obtain node fs where ps: "split_on (CHR '';'') c = node # fs"
      by (metis neq_Nil_conv split_on_not_Nil)
    then have "c = join '';'' (node # fs)"
      by (metis join_split_on)
    moreover have "list_all rflink_field fs"
      using f pieces [OF b] split_on_no_sep [of _ "CHR '';''" c]
      by (auto simp: rflink_field_def list_all_iff ps)
    moreover have "re_rflink_node node" and "fs \<noteq> []"
      using l n by (auto simp: ps)
    ultimately show "rflink_frame (trim_space cmd)"
      unfolding rflink_frame_def c
      by (intro exI [of _ node] exI [of _ fs]) (simp add: frame_of_join)
  next
    assume "rflink_frame (trim_space cmd)"
    then obtain node fs where nf: "re_rflink_node node" "fs \<noteq> []" "list_all rflink_field fs"
      and e: "trim_space cmd = frame_of (node # fs)"
      by (auto simp: rflink_frame_def)
    have cj: "c = join '';'' (node # fs)"
      using c e by (simp add: frame_of_join)
    have "list_all field_byte c"
      using frame_bytes [OF \<open>rflink_frame (trim_space cmd)\<close>] by (simp add: c)
    moreover have "split_on (CHR '';'') c = node # fs"
      using nf node_bytes unfolding cj
      by (intro split_on_join) (auto simp: rflink_field_def list_all_iff)
    ultimately show "validate_rflink_command cmd = Inr ()"
      using nf node_bytes validated_parts [OF c]
      by (cases fs) (auto simp: rflink_field_def list_all_iff)
  qed
qed

lemma rflink_frame_not_Nil: "rflink_frame c \<Longrightarrow> c \<noteq> []"
  by (auto simp: rflink_frame_def frame_of_join)

lemma rflink_frame_last: "rflink_frame c \<Longrightarrow> last c = CHR '';''"
  by (auto simp: rflink_frame_def frame_of_join)

lemma rflink_frame_hd: "rflink_frame c \<Longrightarrow> is_digit (hd c)"
  by (auto simp: rflink_frame_def frame_of_def re_rflink_node_def list_all_iff hd_append)

lemma rflink_frame_trimmed:
  assumes "rflink_frame c"
  shows "trimmed c"
  using rflink_frame_not_Nil [OF assms] rflink_frame_last [OF assms] rflink_frame_hd [OF assms]
  by (intro trimmedI) (auto simp: is_digit_def ascii_space_def Let_def)

section \<open>What an accepted CSV setting guarantees\<close>

lemma split_csv_parts: "p \<in> set (split_csv raw) \<Longrightarrow> p \<noteq> [] \<and> trimmed p"
  by (auto simp: split_csv_def)

lemma split_csv_no_comma: "p \<in> set (split_csv raw) \<Longrightarrow> CHR '','' \<notin> set p"
  using split_on_no_sep set_trim_space by (fastforce simp: split_csv_def)

lemma split_csv_Nil [simp]: "split_csv [] = []"
  by (simp add: split_csv_def)

lemma with_semicolon_ends: "has_suffix (with_semicolon cmd) '';''"
  by (simp add: with_semicolon_def)

lemma actuator_command_ok:
  "actuator_command name cmd = Inr () \<longleftrightarrow> rflink_frame (trim_space (with_semicolon cmd))"
  by (auto simp: actuator_command_def validate_rflink_command_iff [symmetric] split: sum.splits)

text \<open>
  The validators share one shape: nothing to check for a blank setting, otherwise every entry is
  checked. The interface of a CSV setting pairs the entry check with the entry parser that reads
  the setting when it is applied; the contract is that the parser accepts whatever the check
  accepts. Its client lemma: an accepted setting is read without dropping an entry.
\<close>

definition csv_values :: "(string \<Rightarrow> 'a option) \<Rightarrow> string \<Rightarrow> 'a list" where
  "csv_values parse raw = List.map_filter parse (split_csv raw)"

locale csv_setting =
  fixes check :: "string \<Rightarrow> csv_error + unit"
    and parse :: "string \<Rightarrow> 'a option"
  assumes check_parses: "trimmed p \<Longrightarrow> p \<noteq> [] \<Longrightarrow> check p = Inr () \<Longrightarrow> parse p \<noteq> None"
begin

lemma entry_parses:
  assumes "check_all check (split_csv raw) = Inr ()" and "p \<in> set (split_csv raw)"
  shows "\<exists>v. parse p = Some v"
  using assms split_csv_parts [OF assms(2)] check_parses [of p] by (auto simp: check_all_ok)

lemma nothing_dropped:
  assumes "check_all check (split_csv raw) = Inr ()"
  shows "map Some (csv_values parse raw) = map parse (split_csv raw)"
proof -
  have "map Some (List.map_filter parse ps) = map parse ps"
    if "\<forall>p \<in> set ps. \<exists>v. parse p = Some v" for ps
    using that by (induction ps) (auto simp: map_filter_simps)
  then show ?thesis
    using entry_parses [OF assms] by (simp add: csv_values_def)
qed

lemma length_values:
  "check_all check (split_csv raw) = Inr () \<Longrightarrow> length (csv_values parse raw) = length (split_csv raw)"
  by (metis length_map nothing_dropped)

end

section \<open>Property\<close>

text \<open>
  C16: A command passes validation exactly if, trimmed, it is a frame of the grammar: a node of one or
  two digits, then at least one field of 1 to 96 printable bytes, each closed by a semicolon.
\<close>

theorem command_grammar:
  "validate_rflink_command cmd = Inr () \<longleftrightarrow> rflink_frame (trim_space cmd)"
  by (rule validate_rflink_command_iff)

end
