(* ===== verification/Options.thy ===== *)
theory Options
  imports Validate GoNum
begin

text \<open>
  \<open>rflink/options.go\<close>: the configuration record, the normalisation that \<open>GetOptions\<close> applies to the
  values read from the environment, the parsers of the CSV settings, the checks on commands and
  sensors, and the derived durations and topics. \<open>env.Parse\<close> is a library call: its outcome, the
  record it filled or an error, is an argument of \<open>get_options\<close>. Reading a nil map of Go gives the
  same as reading an empty one, so both are \<open>Map.empty\<close> here.
\<close>

section \<open>The configuration record\<close>

record publish_opts =
  Host :: string
  Scheme :: string
  MqttUsername :: string
  MqttPassword :: string
  InfinityReconnect :: bool
  ConnectRetryInterval :: int
  ClientID :: string
  Topic :: string
  QoS :: int
  CleanSession :: bool
  Retain :: bool
  KeepAlive :: int
  SessionExpiry :: int
  TLSCAFile :: string
  TLSInsecureSkipVerify :: bool
  LWTTopic :: string
  LWTMessage :: string
  LWTQoS :: int
  LWTRetain :: bool
  CmdTopic :: string
  HomeAssistantDiscovery :: bool
  HADiscoveryPrefix :: string
  FriendlyNames :: string
  HWIDMap :: string
  HealthLogIntervalSec :: int
  PendingTTLSec :: int
  TemperatureUnit :: string
  CommandWhitelist :: string
  CommandRateLimit :: int
  DedupWindowMs :: int
  IgnoreList :: string
  CommandMaxLen :: int
  HAButtons :: string
  HASwitches :: string

record serial_opts =
  Device :: string
  Baud :: int
  ReadTimeoutSec :: int
  ReconnectMinDelaySec :: int
  ReconnectMaxDelaySec :: int
  WatchdogSec :: int
  PingIntervalSec :: int
  PingTimeoutSec :: int
  PingFailThreshold :: int

record http_opts =
  Listen :: string
  AuthToken :: string
  GUI :: bool
  RawBufferSize :: int
  SensorBufferSize :: int
  CORSOrigins :: string
  TrustedProxies :: string
  ReadOnly :: bool

record ha_button =
  btn_Name :: string
  btn_Command :: string

record ha_switch =
  sw_Name :: string
  sw_CommandOn :: string
  sw_CommandOff :: string

text \<open>A stored API token and a webhook (\<open>apiToken\<close> and \<open>RuntimeWebhook\<close>); a header map is an
  association list with distinct keys.\<close>

record api_token =
  tok_Name :: string
  tok_Hash :: string
  tok_Suffix :: string
  tok_ExpiresAt :: "instant option"
  tok_CreatedAt :: instant
  tok_Scopes :: "string list"

record webhook =
  wh_ID :: string
  wh_Name :: string
  wh_Enabled :: bool
  wh_Kind :: string
  wh_URL :: string
  wh_Method :: string
  wh_IntervalSec :: int
  wh_TimeoutSec :: int
  wh_MaxResponseBytes :: int
  wh_Payload :: string
  wh_Headers :: "(string \<times> string) list"
  wh_CreatedAt :: string

record options =
  LogLevel :: string
  Publish :: publish_opts
  Serial :: serial_opts
  HTTP :: http_opts
  RuntimeConfigFile :: string
  APIAuthTokens :: string
  APITokenPepper :: string
  WebhooksJSON :: string
  friendlyNameMap :: "string \<rightharpoonup> string"
  hwidMap :: "string \<rightharpoonup> string"
  commandWhitelist :: "string list"
  ignoreSet :: "string set"
  haButtons :: "ha_button list"
  haSwitches :: "ha_switch list"
  apiTokens :: "api_token list"
  webhooks :: "webhook list"

section \<open>Parsers of the CSV settings\<close>

text \<open>\<open>parseColonMap\<close>: malformed entries are skipped, a later entry for the same key wins.\<close>

definition colon_entry :: "unicode \<Rightarrow> string \<Rightarrow> (string \<times> string) option" where
  "colon_entry U part =
     (case split_n 2 (CHR '':'') part of
        [k, v] \<Rightarrow>
          (let key = trim_space k; val = trim_space v in
           if key \<noteq> [] \<and> val \<noteq> [] then Some (to_upper U key, val) else None)
      | _ \<Rightarrow> None)"

definition parse_colon_map :: "unicode \<Rightarrow> string \<Rightarrow> (string \<rightharpoonup> string)" where
  "parse_colon_map U raw0 =
     (let raw = trim_space raw0 in
      if raw = [] then Map.empty
      else fold (\<lambda>(k, v) m. m(k \<mapsto> v)) (csv_values (colon_entry U) raw) Map.empty)"

definition parse_command_whitelist :: "string \<Rightarrow> string list" where
  "parse_command_whitelist raw0 =
     (let raw = trim_space raw0 in if raw = [] then [] else split_csv raw)"

text \<open>\<open>parseIgnoreList\<close> trims and upper-cases every part before it looks for empty ones.\<close>

definition parse_ignore_list :: "unicode \<Rightarrow> string \<Rightarrow> string set" where
  "parse_ignore_list U raw =
     set (filter (\<lambda>p. p \<noteq> []) (map (\<lambda>p. to_upper U (trim_space p)) (split_on (CHR '','') raw)))"

definition button_value :: "string \<Rightarrow> ha_button option" where
  "button_value part =
     (case split_n 2 (CHR '':'') part of
        [k, v] \<Rightarrow>
          (let name = trim_space k; cmd = trim_space v in
           if name = [] \<or> cmd = [] then None
           else Some \<lparr>btn_Name = name, btn_Command = with_semicolon cmd\<rparr>)
      | _ \<Rightarrow> None)"

definition parse_ha_buttons :: "string \<Rightarrow> ha_button list" where
  "parse_ha_buttons raw0 =
     (let raw = trim_space raw0 in if raw = [] then [] else csv_values button_value raw)"

definition switch_value :: "string \<Rightarrow> ha_switch option" where
  "switch_value part =
     (case split_n 3 (CHR '':'') part of
        [a, b, c] \<Rightarrow>
          (let name = trim_space a; on = trim_space b; off = trim_space c in
           if name = [] \<or> on = [] \<or> off = [] then None
           else Some \<lparr>sw_Name = name, sw_CommandOn = with_semicolon on, sw_CommandOff = with_semicolon off\<rparr>)
      | _ \<Rightarrow> None)"

definition parse_ha_switches :: "string \<Rightarrow> ha_switch list" where
  "parse_ha_switches raw0 =
     (let raw = trim_space raw0 in if raw = [] then [] else csv_values switch_value raw)"

section \<open>Reading the options\<close>

datatype opt_error =
    EnvError string
  | CmdTopicEqualsTopic string
  | CmdTopicIsParent string string
  | InvalidQoS int
  | InvalidLWTQoS int
  | InvalidTemperatureUnit string

definition validate_cmd_topic :: "string \<Rightarrow> string \<Rightarrow> opt_error + unit" where
  "validate_cmd_topic topic0 cmd0 =
     (let topic = trim_suffix topic0 ''/''; cmd = trim_suffix cmd0 ''/'' in
      if cmd = topic then Inl (CmdTopicEqualsTopic topic)
      else if has_prefix (topic @ ''/'') (cmd @ ''/'') then Inl (CmdTopicIsParent cmd topic)
      else if has_prefix (cmd @ ''/'') (topic @ ''/'') then Inr ()
      else Inr ())"

definition at_least :: "int \<Rightarrow> int \<Rightarrow> int \<Rightarrow> int" where
  "at_least lo dflt n = (if n < lo then dflt else n)"

definition clamp_publish :: "publish_opts \<Rightarrow> publish_opts" where
  "clamp_publish p = p\<lparr>
     KeepAlive := at_least 1 30 (KeepAlive p),
     SessionExpiry := at_least 0 0 (SessionExpiry p),
     ConnectRetryInterval := at_least 1 5 (ConnectRetryInterval p),
     PendingTTLSec := at_least 0 0 (PendingTTLSec p),
     CommandRateLimit := at_least 0 0 (CommandRateLimit p),
     DedupWindowMs := at_least 0 0 (DedupWindowMs p),
     CommandMaxLen := at_least 1 256 (CommandMaxLen p)\<rparr>"

definition clamp_serial :: "serial_opts \<Rightarrow> serial_opts" where
  "clamp_serial s =
     (let mn = at_least 1 3 (ReconnectMinDelaySec s) in s\<lparr>
        Baud := at_least 1 57600 (Baud s),
        ReadTimeoutSec := at_least 1 10 (ReadTimeoutSec s),
        ReconnectMinDelaySec := mn,
        ReconnectMaxDelaySec := (if ReconnectMaxDelaySec s < mn then mn else ReconnectMaxDelaySec s),
        PingIntervalSec := at_least 0 0 (PingIntervalSec s),
        PingTimeoutSec := at_least 0 5 (PingTimeoutSec s),
        PingFailThreshold := at_least 0 3 (PingFailThreshold s)\<rparr>)"

definition clamp_http :: "http_opts \<Rightarrow> http_opts" where
  "clamp_http h = h\<lparr>
     RawBufferSize := at_least 1 100 (RawBufferSize h),
     SensorBufferSize := at_least 1 50 (SensorBufferSize h)\<rparr>"

definition temperature_unit_of :: "unicode \<Rightarrow> string \<Rightarrow> opt_error + string" where
  "temperature_unit_of U raw =
     (let unit = to_upper U (trim_space raw) in
      if unit = ''C'' \<or> unit = ''F'' \<or> unit = ''RAW'' then Inr unit
      else if unit = [] then Inr ''C''
      else Inl (InvalidTemperatureUnit raw))"

definition default_cmd_topic :: "publish_opts \<Rightarrow> publish_opts" where
  "default_cmd_topic p = (if CmdTopic p = [] then p\<lparr>CmdTopic := Topic p @ ''/send''\<rparr> else p)"

text \<open>The checks and the normalisation, in the order of the code, for the publish section \<open>p\<close>.\<close>

definition finish_options :: "unicode \<Rightarrow> options \<Rightarrow> publish_opts \<Rightarrow> opt_error + options" where
  "finish_options U opts p =
     bind_res (validate_cmd_topic (Topic p) (CmdTopic p)) (\<lambda>_.
       if QoS p < 0 \<or> 2 < QoS p then Inl (InvalidQoS (QoS p))
       else if LWTQoS p < 0 \<or> 2 < LWTQoS p then Inl (InvalidLWTQoS (LWTQoS p))
       else bind_res (temperature_unit_of U (TemperatureUnit p)) (\<lambda>unit.
         Inr (opts\<lparr>
           Publish := (clamp_publish p)\<lparr>TemperatureUnit := unit\<rparr>,
           Serial := clamp_serial (Serial opts),
           HTTP := clamp_http (HTTP opts),
           friendlyNameMap := parse_colon_map U (FriendlyNames p),
           hwidMap := parse_colon_map U (HWIDMap p),
           commandWhitelist := parse_command_whitelist (CommandWhitelist p),
           ignoreSet := parse_ignore_list U (IgnoreList p),
           haButtons := parse_ha_buttons (HAButtons p),
           haSwitches := parse_ha_switches (HASwitches p)\<rparr>)))"

definition get_options :: "unicode \<Rightarrow> opt_error + options \<Rightarrow> opt_error + options" where
  "get_options U parsed =
     bind_res parsed (\<lambda>opts. finish_options U opts (default_cmd_topic (Publish opts)))"

section \<open>Lookups\<close>

definition friendly_name_for :: "unicode \<Rightarrow> options \<Rightarrow> string \<Rightarrow> string" where
  "friendly_name_for U o' hwid =
     (case friendlyNameMap o' (to_upper U hwid) of None \<Rightarrow> [] | Some n \<Rightarrow> n)"

definition canonical_hwid :: "unicode \<Rightarrow> options \<Rightarrow> string \<Rightarrow> string \<Rightarrow> string" where
  "canonical_hwid U o' ident dflt =
     (case hwidMap o' (to_upper U dflt) of
        Some v \<Rightarrow> v
      | None \<Rightarrow> (case hwidMap o' (to_upper U ident) of Some v \<Rightarrow> v | None \<Rightarrow> dflt))"

definition command_allowed :: "options \<Rightarrow> string \<Rightarrow> bool" where
  "command_allowed o' payload =
     (commandWhitelist o' = [] \<or> list_ex (has_prefix (trim_space payload)) (commandWhitelist o'))"

definition sensor_ignored :: "unicode \<Rightarrow> options \<Rightarrow> string \<Rightarrow> string \<Rightarrow> bool" where
  "sensor_ignored U o' model hwid =
     (ignoreSet o' \<noteq> {} \<and>
      (to_upper U (trim_space hwid) \<in> ignoreSet o' \<or> to_upper U (trim_space model) \<in> ignoreSet o'))"

definition cr_lf :: string where "cr_lf = [char_of (13 :: nat), char_of (10 :: nat)]"

definition normalize_command :: "options \<Rightarrow> string \<Rightarrow> cmd_error + string" where
  "normalize_command o' payload =
     (let cmd0 = trim_space (trim_right (trim_space payload) cr_lf) in
      if cmd0 = [] then Inl EmptyCommand
      else (let cmd = with_semicolon cmd0;
                mx = (if CommandMaxLen (Publish o') \<le> 0 then 256 else CommandMaxLen (Publish o')) in
            if mx < int (length cmd) then Inl (CommandTooLong (length cmd) mx)
            else (case validate_rflink_command cmd of Inl e \<Rightarrow> Inl e | Inr _ \<Rightarrow> Inr cmd)))"

section \<open>Derived settings\<close>

text \<open>\<open>byte(n)\<close>, \<open>uint16(n)\<close> and \<open>uint32(n)\<close> keep the low bits.\<close>

definition mqtt_qos :: "options \<Rightarrow> 8 word" where "mqtt_qos o' = of_int (QoS (Publish o'))"
definition lwt_qos :: "options \<Rightarrow> 8 word" where "lwt_qos o' = of_int (LWTQoS (Publish o'))"
definition mqtt_keep_alive :: "options \<Rightarrow> 16 word" where
  "mqtt_keep_alive o' = of_int (KeepAlive (Publish o'))"
definition mqtt_session_expiry :: "options \<Rightarrow> 32 word" where
  "mqtt_session_expiry o' = of_int (SessionExpiry (Publish o'))"

definition pending_ttl :: "options \<Rightarrow> duration" where
  "pending_ttl o' = seconds (PendingTTLSec (Publish o'))"

definition optional_seconds :: "int \<Rightarrow> duration" where
  "optional_seconds n = (if n \<le> 0 then 0 else seconds n)"

definition health_log_interval :: "options \<Rightarrow> duration" where
  "health_log_interval o' = optional_seconds (HealthLogIntervalSec (Publish o'))"
definition serial_watchdog :: "options \<Rightarrow> duration" where
  "serial_watchdog o' = optional_seconds (WatchdogSec (Serial o'))"
definition serial_ping_interval :: "options \<Rightarrow> duration" where
  "serial_ping_interval o' = optional_seconds (PingIntervalSec (Serial o'))"
definition serial_ping_timeout :: "options \<Rightarrow> duration" where
  "serial_ping_timeout o' =
     seconds (if PingTimeoutSec (Serial o') \<le> 0 then 5 else PingTimeoutSec (Serial o'))"
definition serial_ping_fail_threshold :: "options \<Rightarrow> int" where
  "serial_ping_fail_threshold o' =
     (if PingFailThreshold (Serial o') \<le> 0 then 3 else PingFailThreshold (Serial o'))"
definition dedup_window :: "options \<Rightarrow> duration" where
  "dedup_window o' = (if DedupWindowMs (Publish o') \<le> 0 then 0 else millis (DedupWindowMs (Publish o')))"
definition serial_read_timeout :: "options \<Rightarrow> duration" where
  "serial_read_timeout o' = seconds (ReadTimeoutSec (Serial o'))"
definition serial_reconnect_min_delay :: "options \<Rightarrow> duration" where
  "serial_reconnect_min_delay o' = seconds (ReconnectMinDelaySec (Serial o'))"
definition serial_reconnect_max_delay :: "options \<Rightarrow> duration" where
  "serial_reconnect_max_delay o' = seconds (ReconnectMaxDelaySec (Serial o'))"
definition mqtt_connect_retry_interval :: "options \<Rightarrow> duration" where
  "mqtt_connect_retry_interval o' = seconds (ConnectRetryInterval (Publish o'))"

definition status_topic :: "options \<Rightarrow> string" where
  "status_topic o' = Topic (Publish o') @ ''/status''"
definition serial_status_topic :: "options \<Rightarrow> string" where
  "serial_status_topic o' = Topic (Publish o') @ ''/serial/status''"
definition health_topic :: "options \<Rightarrow> string" where
  "health_topic o' = Topic (Publish o') @ ''/health''"
definition cmd_result_topic :: "options \<Rightarrow> string" where
  "cmd_result_topic o' = Topic (Publish o') @ ''/cmd/result''"
definition gateway_info_topic :: "options \<Rightarrow> string" where
  "gateway_info_topic o' = Topic (Publish o') @ ''/gateway/info''"
definition ha_rediscover_topic :: "options \<Rightarrow> string" where
  "ha_rediscover_topic o' = Topic (Publish o') @ ''/admin/rediscover''"
definition temperature_unit :: "options \<Rightarrow> string" where
  "temperature_unit o' = TemperatureUnit (Publish o')"

definition is_tls_scheme :: "unicode \<Rightarrow> options \<Rightarrow> bool" where
  "is_tls_scheme U o' = (to_lower U (trim_space (Scheme (Publish o'))) \<in> {''ssl'', ''tls'', ''mqtts'', ''wss''})"

text \<open>\<open>LogMQTTTopics\<close> logs these rows (role, topic).\<close>

definition mqtt_topic_rows :: "options \<Rightarrow> (string \<times> string) list" where
  "mqtt_topic_rows o' =
     (let base = Topic (Publish o') in
      [(''sensor base'', base @ ''/{HWID}/{field}''),
       (''sensor JSON'', base @ ''/{HWID}/sumJson''),
       (''command in (subscribe)'', CmdTopic (Publish o')),
       (''command result'', cmd_result_topic o'),
       (''app status'', status_topic o'),
       (''serial status'', serial_status_topic o'),
       (''health'', health_topic o'),
       (''gateway info'', gateway_info_topic o')]
      @ (if HomeAssistantDiscovery (Publish o')
         then [(''HA discovery'', HADiscoveryPrefix (Publish o') @ ''/{component}/gorflink_{HWID}_{field}/config''),
               (''HA rediscover (subscribe)'', ha_rediscover_topic o')]
         else [])
      @ (if LWTTopic (Publish o') \<noteq> [] then [(''LWT (custom)'', LWTTopic (Publish o'))]
         else [(''LWT (default)'', status_topic o')]))"

section \<open>Normalised options\<close>

text \<open>What \<open>GetOptions\<close> guarantees about every record it returns.\<close>

definition publish_ok :: "publish_opts \<Rightarrow> bool" where
  "publish_ok p \<longleftrightarrow>
     QoS p \<in> {0, 1, 2} \<and> LWTQoS p \<in> {0, 1, 2} \<and> 0 < KeepAlive p \<and> 0 \<le> SessionExpiry p \<and>
     0 < ConnectRetryInterval p \<and> 0 \<le> PendingTTLSec p \<and> 0 \<le> CommandRateLimit p \<and>
     0 \<le> DedupWindowMs p \<and> 0 < CommandMaxLen p \<and>
     TemperatureUnit p \<in> {''C'', ''F'', ''RAW''} \<and>
     CmdTopic p \<noteq> [] \<and> is_ok (validate_cmd_topic (Topic p) (CmdTopic p))"

definition serial_ok :: "serial_opts \<Rightarrow> bool" where
  "serial_ok s \<longleftrightarrow>
     0 < Baud s \<and> 0 < ReadTimeoutSec s \<and> 0 < ReconnectMinDelaySec s \<and>
     ReconnectMinDelaySec s \<le> ReconnectMaxDelaySec s \<and> 0 \<le> PingIntervalSec s \<and>
     0 \<le> PingTimeoutSec s \<and> 0 \<le> PingFailThreshold s"

definition http_ok :: "http_opts \<Rightarrow> bool" where
  "http_ok h \<longleftrightarrow> 0 < RawBufferSize h \<and> 0 < SensorBufferSize h"

definition options_ok :: "options \<Rightarrow> bool" where
  "options_ok o' \<longleftrightarrow> publish_ok (Publish o') \<and> serial_ok (Serial o') \<and> http_ok (HTTP o')"

lemma temperature_unit_of_ok:
  "temperature_unit_of U raw = Inr u \<Longrightarrow> u \<in> {''C'', ''F'', ''RAW''}"
  by (auto simp: temperature_unit_of_def Let_def split: if_splits)

lemma clamp_publish_ok:
  assumes "QoS p \<in> {0, 1, 2}" and "LWTQoS p \<in> {0, 1, 2}" and "unit \<in> {''C'', ''F'', ''RAW''}"
    and "CmdTopic p \<noteq> []" and "is_ok (validate_cmd_topic (Topic p) (CmdTopic p))"
  shows "publish_ok ((clamp_publish p)\<lparr>TemperatureUnit := unit\<rparr>)"
  using assms by (simp add: publish_ok_def clamp_publish_def at_least_def)

lemma clamp_serial_ok: "serial_ok (clamp_serial s)"
  by (simp add: serial_ok_def clamp_serial_def at_least_def Let_def)

lemma clamp_http_ok: "http_ok (clamp_http h)"
  by (simp add: http_ok_def clamp_http_def at_least_def)

text \<open>The stages of \<open>GetOptions\<close> as an inversion rule.\<close>

lemma finish_options_Inr:
  assumes "finish_options U opts p = Inr o'"
  obtains unit where "is_ok (validate_cmd_topic (Topic p) (CmdTopic p))"
    and "QoS p \<in> {0, 1, 2}" and "LWTQoS p \<in> {0, 1, 2}"
    and "temperature_unit_of U (TemperatureUnit p) = Inr unit"
    and "Publish o' = (clamp_publish p)\<lparr>TemperatureUnit := unit\<rparr>"
    and "Serial o' = clamp_serial (Serial opts)" and "HTTP o' = clamp_http (HTTP opts)"
    and "hwidMap o' = parse_colon_map U (HWIDMap p)"
    and "friendlyNameMap o' = parse_colon_map U (FriendlyNames p)"
proof -
  obtain u where v: "validate_cmd_topic (Topic p) (CmdTopic p) = Inr u"
    using assms by (auto simp: finish_options_def bind_res_Inr_iff)
  have q: "\<not> (QoS p < 0 \<or> 2 < QoS p)" "\<not> (LWTQoS p < 0 \<or> 2 < LWTQoS p)"
    using assms by (simp_all add: finish_options_def v split: if_splits)
  obtain unit where t: "temperature_unit_of U (TemperatureUnit p) = Inr unit"
    using assms q by (auto simp: finish_options_def v bind_res_Inr_iff)
  show thesis
    by (rule that [of unit]) (use assms q in \<open>auto simp: finish_options_def v t\<close>)
qed

lemma get_options_ok:
  assumes "get_options U parsed = Inr o'"
  shows "options_ok o'"
proof -
  obtain opts where "finish_options U opts (default_cmd_topic (Publish opts)) = Inr o'"
    using assms by (auto simp: get_options_def bind_res_Inr_iff)
  then show ?thesis
  proof (rule finish_options_Inr)
    fix unit
    let ?p = "default_cmd_topic (Publish opts)"
    assume v: "is_ok (validate_cmd_topic (Topic ?p) (CmdTopic ?p))"
      and q: "QoS ?p \<in> {0, 1, 2}" "LWTQoS ?p \<in> {0, 1, 2}"
      and t: "temperature_unit_of U (TemperatureUnit ?p) = Inr unit"
      and e: "Publish o' = (clamp_publish ?p)\<lparr>TemperatureUnit := unit\<rparr>"
        "Serial o' = clamp_serial (Serial opts)" "HTTP o' = clamp_http (HTTP opts)"
    have "CmdTopic ?p \<noteq> []"
      by (simp add: default_cmd_topic_def)
    then show "options_ok o'"
      unfolding options_ok_def e
      using clamp_publish_ok [OF q temperature_unit_of_ok [OF t] _ v] clamp_serial_ok clamp_http_ok
      by blast
  qed
qed

section \<open>Normalised commands\<close>

definition max_command_len :: "options \<Rightarrow> int" where
  "max_command_len o' = (if CommandMaxLen (Publish o') \<le> 0 then 256 else CommandMaxLen (Publish o'))"

lemma with_semicolon_trimmed: "trimmed s \<Longrightarrow> s \<noteq> [] \<Longrightarrow> trimmed (with_semicolon s)"
  unfolding with_semicolon_def
  using trimmed_snoc [of s "CHR '';''"] by (simp add: ascii_space_def)

lemma normalize_command_sound:
  assumes "normalize_command o' payload = Inr c"
  shows "rflink_frame c" and "int (length c) \<le> max_command_len o'"
proof -
  define c0 where "c0 = trim_space (trim_right (trim_space payload) cr_lf)"
  have c0: "c0 \<noteq> []" "trimmed c0"
    using assms by (auto simp: normalize_command_def c0_def Let_def)
  have c: "c = with_semicolon c0" "int (length c) \<le> max_command_len o'"
    and v: "validate_rflink_command c = Inr ()"
    using assms
    by (auto simp: normalize_command_def c0_def [symmetric] Let_def max_command_len_def
        split: if_splits sum.splits)
  have "trim_space c = c"
    using c0 with_semicolon_trimmed by (simp add: c(1))
  then show "rflink_frame c"
    using v by (simp add: validate_rflink_command_iff)
  show "int (length c) \<le> max_command_len o'" by (rule c(2))
qed

lemma normalize_command_complete:
  assumes "rflink_frame c" and "int (length c) \<le> max_command_len o'"
  shows "normalize_command o' c = Inr c"
proof -
  have t: "trim_space c = c"
    using rflink_frame_trimmed [OF assms(1)] by simp
  have n: "c \<noteq> []" "last c = CHR '';''"
    using rflink_frame_not_Nil [OF assms(1)] rflink_frame_last [OF assms(1)] by auto
  then have r: "trim_right c cr_lf = c"
    by (intro trim_right_idle) (auto simp: cr_lf_def dest: arg_cong [where f = byte])
  have "has_suffix c '';''"
    using n by (simp add: has_suffix_single)
  moreover have "validate_rflink_command c = Inr ()"
    using assms(1) by (simp add: validate_rflink_command_iff t)
  ultimately show ?thesis
    using n assms(2) by (simp add: normalize_command_def t r with_semicolon_def max_command_len_def)
qed

lemma normalized_one_line:
  assumes "normalize_command o' payload = Inr c"
  shows "CHR 0x0A \<notin> set c \<and> CHR 0x0D \<notin> set c"
  using frame_bytes [OF normalize_command_sound(1) [OF assms]]
  by (fastforce simp: list_all_iff field_byte_def)

section \<open>Accepted settings are applied in full\<close>

lemma friendly_entry_colon:
  "friendly_entry p = Inr () \<Longrightarrow> colon_entry U p \<noteq> None"
  by (auto simp: friendly_entry_def colon_entry_def Let_def split: list.splits if_splits)

lemma hwid_entry_colon: "hwid_entry p = Inr () \<Longrightarrow> colon_entry U p \<noteq> None"
  by (auto simp: hwid_entry_def colon_entry_def Let_def split: list.splits if_splits)

interpretation friendly: csv_setting friendly_entry "colon_entry U" for U
  by unfold_locales (rule friendly_entry_colon)

interpretation hwids: csv_setting hwid_entry "colon_entry U" for U
  by unfold_locales (rule hwid_entry_colon)

interpretation buttons: csv_setting button_entry button_value
  by unfold_locales (auto simp: button_entry_def button_value_def Let_def split: list.splits if_splits)

interpretation switches: csv_setting switch_entry switch_value
  by unfold_locales (auto simp: switch_entry_def switch_value_def Let_def split: list.splits if_splits)

definition ignore_value :: "unicode \<Rightarrow> string \<Rightarrow> string option" where
  "ignore_value U p = Some (to_upper U p)"

interpretation ignores: csv_setting ignore_entry "ignore_value U" for U
  by unfold_locales (simp add: ignore_value_def)

section \<open>Properties\<close>

text \<open>
  C18: Whatever the environment holds, the options that \<open>GetOptions\<close> returns are normalised: every
  numeric setting is in range, the reconnect delays are ordered, the QoS levels are MQTT levels, the
  temperature unit is one of three, and the command topic is set and passed its check.
\<close>

theorem options_normalised:
  assumes "get_options U parsed = Inr o'"
  shows "options_ok o'"
  by (rule get_options_ok [OF assms])

definition ascii_tables :: unicode where
  "ascii_tables = \<lparr>u_upper = id, u_lower = id, u_fold = id, u_letter = (\<lambda>_. False), u_digit = (\<lambda>_. False)\<rparr>"

definition sample_publish :: publish_opts where
  "sample_publish = \<lparr>Host = ''localhost:1883'', Scheme = ''tcp'', MqttUsername = [], MqttPassword = [],
     InfinityReconnect = True, ConnectRetryInterval = 0, ClientID = ''goRFLink'', Topic = ''rflink'', QoS = 0,
     CleanSession = True, Retain = False, KeepAlive = 0, SessionExpiry = 0, TLSCAFile = [],
     TLSInsecureSkipVerify = False, LWTTopic = [], LWTMessage = [], LWTQoS = 0, LWTRetain = True,
     CmdTopic = [], HomeAssistantDiscovery = True, HADiscoveryPrefix = ''homeassistant'',
     FriendlyNames = ''EV1527_08:Door'', HWIDMap = ''08:DOOR'', HealthLogIntervalSec = 0, PendingTTLSec = 60,
     TemperatureUnit = ''c'', CommandWhitelist = [], CommandRateLimit = 5, DedupWindowMs = 500,
     IgnoreList = ''X10'', CommandMaxLen = 0, HAButtons = ''Gong:10;PT2262;3;1;ON'', HASwitches = []\<rparr>"

definition sample_options :: options where
  "sample_options = \<lparr>LogLevel = ''info'', Publish = sample_publish,
     Serial = \<lparr>Device = ''/dev/ttyUSB0'', Baud = 0, ReadTimeoutSec = 10, ReconnectMinDelaySec = 5,
       ReconnectMaxDelaySec = 2, WatchdogSec = 0, PingIntervalSec = 30, PingTimeoutSec = 5, PingFailThreshold = 3\<rparr>,
     HTTP = \<lparr>Listen = [], AuthToken = [], GUI = True, RawBufferSize = 0, SensorBufferSize = 0,
       CORSOrigins = [], TrustedProxies = [], ReadOnly = False\<rparr>,
     RuntimeConfigFile = [], APIAuthTokens = [], APITokenPepper = [], WebhooksJSON = [],
     friendlyNameMap = Map.empty, hwidMap = Map.empty, commandWhitelist = [], ignoreSet = {},
     haButtons = [], haSwitches = [], apiTokens = [], webhooks = []\<rparr>"

lemma options_normalised_witness:
  "\<exists>o'. get_options ascii_tables (Inr sample_options) = Inr o' \<and> options_ok o' \<and>
     ReconnectMaxDelaySec (Serial o') = 5 \<and> CmdTopic (Publish o') = ''rflink/send''"
proof -
  have "case get_options ascii_tables (Inr sample_options) of Inl _ \<Rightarrow> False
    | Inr o' \<Rightarrow> ReconnectMaxDelaySec (Serial o') = 5 \<and> CmdTopic (Publish o') = ''rflink/send''"
    by code_simp
  then obtain o' where g: "get_options ascii_tables (Inr sample_options) = Inr o'"
    and "ReconnectMaxDelaySec (Serial o') = 5" "CmdTopic (Publish o') = ''rflink/send''"
    by (auto split: sum.splits)
  with options_normalised [OF g] show ?thesis by blast
qed

definition sample_normalised :: options where
  "sample_normalised = sample_options\<lparr>Publish := sample_publish\<lparr>CommandMaxLen := 32\<rparr>\<rparr>"

text \<open>
  C17: A command that normalisation lets through is a frame of the grammar on one line, no longer than
  the configured maximum, and normalising it again changes nothing; every frame within that length is
  let through as it is.
\<close>

theorem normalised_command:
  shows "(normalize_command o' payload = Inr c \<longrightarrow>
      rflink_frame c \<and> int (length c) \<le> max_command_len o' \<and> CHR 0x0A \<notin> set c \<and> CHR 0x0D \<notin> set c \<and>
      normalize_command o' c = Inr c) \<and>
    (rflink_frame f \<and> int (length f) \<le> max_command_len o' \<longrightarrow> normalize_command o' f = Inr f)"
  using normalize_command_sound [of o' payload c] normalize_command_complete normalized_one_line [of o' payload c]
  by blast

lemma normalised_command_witness:
  "normalize_command sample_normalised ''  10;PT2262;3;1;ON '' = Inr ''10;PT2262;3;1;ON;'' \<and>
   rflink_frame ''10;PT2262;3;1;ON;''"
proof -
  have n: "normalize_command sample_normalised ''  10;PT2262;3;1;ON '' = Inr ''10;PT2262;3;1;ON;''"
    by code_simp
  then show ?thesis
    using normalised_command [of sample_normalised "''  10;PT2262;3;1;ON ''" "''10;PT2262;3;1;ON;''"] by blast
qed

lemma button_value_frame:
  assumes "button_entry p = Inr ()" and "button_value p = Some b"
  shows "btn_Name b \<noteq> [] \<and> rflink_frame (trim_space (btn_Command b))"
  using assms by (auto simp: button_entry_def button_value_def Let_def actuator_command_ok split: list.splits if_splits)

lemma switch_entry_commands:
  assumes "switch_entry p = Inr ()" and "switch_value p = Some s"
  shows "sw_Name s \<noteq> [] \<and> rflink_frame (trim_space (sw_CommandOn s)) \<and> rflink_frame (trim_space (sw_CommandOff s))"
  using assms
  by (auto simp: switch_entry_def switch_value_def Let_def bind_res_Inr_iff actuator_command_ok
      split: list.splits if_splits)

lemma map_filter_member: "b \<in> set (List.map_filter f xs) \<longleftrightarrow> (\<exists>x \<in> set xs. f x = Some b)"
  by (force simp: List.map_filter_def)

text \<open>
  A list of Home Assistant buttons that the GUI's validator accepts is applied in full: one button
  per entry, in order, each with a name and a command that is a frame.
\<close>

lemma accepted_buttons_applied:
  assumes "validate_ha_buttons_csv raw = Inr ()"
  shows "map Some (parse_ha_buttons raw) = map button_value (split_csv (trim_space raw)) \<and>
    (\<forall>b \<in> set (parse_ha_buttons raw). btn_Name b \<noteq> [] \<and> rflink_frame (trim_space (btn_Command b)))"
proof -
  have c: "check_all button_entry (split_csv (trim_space raw)) = Inr ()"
    using assms by (auto simp: validate_ha_buttons_csv_def Let_def split: if_splits)
  have p: "parse_ha_buttons raw = csv_values button_value (trim_space raw)"
    by (simp add: parse_ha_buttons_def Let_def csv_values_def List.map_filter_def)
  have "btn_Name b \<noteq> [] \<and> rflink_frame (trim_space (btn_Command b))" if b: "b \<in> set (parse_ha_buttons raw)" for b
  proof -
    obtain e where "e \<in> set (split_csv (trim_space raw))" "button_value e = Some b"
      using b by (auto simp: p csv_values_def map_filter_member)
    then show ?thesis
      using c button_value_frame [of e b] by (simp add: check_all_ok)
  qed
  then show ?thesis
    using buttons.nothing_dropped [OF c] p by simp
qed

lemma accepted_buttons_applied_witness:
  "parse_ha_buttons ''Gong:10;PT2262;3;1;ON, Bell:10;AB400D;7;2;OFF;'' =
     [\<lparr>btn_Name = ''Gong'', btn_Command = ''10;PT2262;3;1;ON;''\<rparr>,
      \<lparr>btn_Name = ''Bell'', btn_Command = ''10;AB400D;7;2;OFF;''\<rparr>] \<and>
   length (split_csv (trim_space ''Gong:10;PT2262;3;1;ON, Bell:10;AB400D;7;2;OFF;'')) = 2 \<and>
   list_all (\<lambda>b. rflink_frame (trim_space (btn_Command b)))
     (parse_ha_buttons ''Gong:10;PT2262;3;1;ON, Bell:10;AB400D;7;2;OFF;'')"
proof -
  have v: "validate_ha_buttons_csv ''Gong:10;PT2262;3;1;ON, Bell:10;AB400D;7;2;OFF;'' = Inr ()"
    by code_simp
  have "parse_ha_buttons ''Gong:10;PT2262;3;1;ON, Bell:10;AB400D;7;2;OFF;'' =
     [\<lparr>btn_Name = ''Gong'', btn_Command = ''10;PT2262;3;1;ON;''\<rparr>,
      \<lparr>btn_Name = ''Bell'', btn_Command = ''10;AB400D;7;2;OFF;''\<rparr>]"
    by code_simp
  moreover have "length (split_csv (trim_space ''Gong:10;PT2262;3;1;ON, Bell:10;AB400D;7;2;OFF;'')) = 2"
    by code_simp
  ultimately show ?thesis using accepted_buttons_applied [OF v] unfolding list_all_iff by blast
qed

text \<open>
  A list of switches that the GUI's validator accepts is applied in full, with a frame for each
  of the two commands of every switch.
\<close>

lemma accepted_switches_applied:
  assumes "validate_ha_switches_csv raw = Inr ()"
  shows "map Some (parse_ha_switches raw) = map switch_value (split_csv (trim_space raw)) \<and>
    (\<forall>s \<in> set (parse_ha_switches raw). sw_Name s \<noteq> [] \<and>
       rflink_frame (trim_space (sw_CommandOn s)) \<and> rflink_frame (trim_space (sw_CommandOff s)))"
proof -
  have c: "check_all switch_entry (split_csv (trim_space raw)) = Inr ()"
    using assms by (auto simp: validate_ha_switches_csv_def Let_def split: if_splits)
  have p: "parse_ha_switches raw = csv_values switch_value (trim_space raw)"
    by (simp add: parse_ha_switches_def Let_def csv_values_def List.map_filter_def)
  have "sw_Name s \<noteq> [] \<and> rflink_frame (trim_space (sw_CommandOn s)) \<and> rflink_frame (trim_space (sw_CommandOff s))"
    if s: "s \<in> set (parse_ha_switches raw)" for s
  proof -
    obtain e where "e \<in> set (split_csv (trim_space raw))" "switch_value e = Some s"
      using s by (auto simp: p csv_values_def map_filter_member)
    then show ?thesis
      using c switch_entry_commands [of e s] by (simp add: check_all_ok)
  qed
  then show ?thesis
    using switches.nothing_dropped [OF c] p by simp
qed

lemma accepted_switches_applied_witness:
  "list_all (\<lambda>s. sw_Name s \<noteq> [] \<and> rflink_frame (trim_space (sw_CommandOn s)) \<and>
     rflink_frame (trim_space (sw_CommandOff s))) (parse_ha_switches ''Lamp:10;PT2262;3;1;ON:10;PT2262;3;1;OFF'')"
proof -
  have "validate_ha_switches_csv ''Lamp:10;PT2262;3;1;ON:10;PT2262;3;1;OFF'' = Inr ()"
    by code_simp
  from accepted_switches_applied [OF this] show ?thesis unfolding list_all_iff by blast
qed

text \<open>
  A map of names to friendly names that the validator accepts is applied in full: no entry is
  dropped, and the last entry for a key is the one that a lookup finds.
\<close>

lemma accepted_friendly_names_applied:
  assumes "validate_friendly_names_csv raw = Inr ()"
  shows "\<exists>kvs. map Some kvs = map (colon_entry U) (split_csv (trim_space raw)) \<and>
    parse_colon_map U raw = map_of (rev kvs)"
proof -
  let ?ps = "split_csv (trim_space raw)"
  have c: "check_all friendly_entry ?ps = Inr ()"
    using assms by (auto simp: validate_friendly_names_csv_def Let_def split: if_splits)
  have f: "fold (\<lambda>(k, v) m. m(k \<mapsto> v)) kvs m = m ++ map_of (rev kvs)" for kvs and m :: "string \<rightharpoonup> string"
    by (induction kvs arbitrary: m) (auto simp: map_add_def fun_eq_iff split: option.splits)
  show ?thesis
    using friendly.nothing_dropped [OF c, of U] f [of "csv_values (colon_entry U) (trim_space raw)" Map.empty]
    by (intro exI [of _ "csv_values (colon_entry U) (trim_space raw)"])
      (auto simp: parse_colon_map_def Let_def csv_values_def List.map_filter_def)
qed

lemma accepted_friendly_names_applied_witness:
  "\<exists>kvs. map Some kvs = map (colon_entry ascii_tables) (split_csv (trim_space ''a1:Door , b2:Hall'')) \<and>
    parse_colon_map ascii_tables ''a1:Door , b2:Hall'' = map_of (rev kvs)"
proof -
  have "validate_friendly_names_csv ''a1:Door , b2:Hall'' = Inr ()" by code_simp
  from accepted_friendly_names_applied [OF this] show ?thesis .
qed

end
