(* ===== verification/Serial.thy ===== *)
theory Serial
  imports Options
begin

text \<open>
  \<open>rflink/reconnect.go\<close>, \<open>rflink/channels.go\<close> and \<open>rflink/serial_reader.go\<close>: the reconnect delay, the
  serial port behind its mutex, and the reading of lines. The port driver (go.bug.st/serial) is the
  record \<open>driver\<close>: whether each call fails may depend on all calls before. What one \<open>port.Read\<close>
  returns is a \<open>read_event\<close>; \<open>bufio.Scanner\<close>, which cuts the bytes into lines, is modelled after
  the standard library.
\<close>

section \<open>Delays\<close>

text \<open>\<open>cancelled\<close> is \<open>ctx.Err() != nil\<close> at the call, \<open>done_first\<close> that the context ends before the timer.\<close>

definition sleep_context :: "bool \<Rightarrow> bool \<Rightarrow> duration \<Rightarrow> bool" where
  "sleep_context cancelled done_first delay = (if delay \<le> 0 then \<not> cancelled else \<not> done_first)"

definition next_backoff :: "duration \<Rightarrow> duration \<Rightarrow> duration \<Rightarrow> duration" where
  "next_backoff current mn mx =
     (if current < mn then mn
      else (let nxt = wrap64 (current * 2) in if mx < nxt then mx else nxt))"

text \<open>Delays stay between the two settings; with room below \<open>2 ^ 62\<close> doubling cannot wrap.\<close>

lemma next_backoff_exact:
  assumes "0 < mn" and "mn \<le> mx" and "mx < 2 ^ 62" and "mn \<le> d" and "d \<le> mx"
  shows "next_backoff d mn mx = min mx (d * 2)"
proof -
  have "in_int64 (d * 2)" using assms by (simp add: in_int64_def)
  then show ?thesis using assms by (simp add: next_backoff_def Let_def)
qed

lemma next_backoff_range:
  assumes "0 < mn" and "mn \<le> mx" and "mx < 2 ^ 62" and "d \<le> mx"
  shows "mn \<le> next_backoff d mn mx" and "next_backoff d mn mx \<le> mx"
proof -
  have "mn \<le> next_backoff d mn mx \<and> next_backoff d mn mx \<le> mx"
  proof (cases "d < mn")
    case True
    then show ?thesis using assms by (simp add: next_backoff_def)
  next
    case False
    then have "next_backoff d mn mx = min mx (d * 2)" using assms by (intro next_backoff_exact) auto
    then show ?thesis using False assms by auto
  qed
  then show "mn \<le> next_backoff d mn mx" and "next_backoff d mn mx \<le> mx" by auto
qed

lemma next_backoff_iterate:
  assumes "0 < mn" and "mn \<le> mx" and "mx < 2 ^ 62"
  shows "((\<lambda>d. next_backoff d mn mx) ^^ n) mn = min mx (mn * 2 ^ n)"
proof (induction n)
  case 0
  then show ?case using assms by simp
next
  case (Suc n)
  have m: "mn \<le> mn * 2 ^ n" using assms(1) by simp
  have "next_backoff (min mx (mn * 2 ^ n)) mn mx = min mx (min mx (mn * 2 ^ n) * 2)"
    using assms m by (intro next_backoff_exact) auto
  also have "\<dots> = min mx (mn * 2 ^ Suc n)"
    using assms by (auto simp: min_def)
  finally show ?case using Suc by simp
qed

section \<open>The reader\<close>

definition serial_channel_buffer :: nat where "serial_channel_buffer = 64"

definition new_serial_channel :: "string list" where "new_serial_channel = []"

text \<open>Calls of the driver, in order, with their outcome: \<open>None\<close> or the text of the error.\<close>

datatype port_call =
    Opened string int
  | TimeoutSet duration
  | Wrote string
  | Closed

record driver =
  dr_call :: "(port_call \<times> string option) list \<Rightarrow> port_call \<Rightarrow> string option"

record serial_reader =
  port_open :: bool
  port_log :: "(port_call \<times> string option) list"

datatype scan_err = ScanEOF | ScanRead string | ScanTooLong | ScanNoProgress

datatype serial_error =
    SerialNotConnected
  | StreamClosed
  | PortError string
  | EmptyRFLinkCommand
  | ScanFailed scan_err
  | ContextDone

definition port_do :: "driver \<Rightarrow> port_call \<Rightarrow> serial_reader \<Rightarrow> serial_reader \<times> string option" where
  "port_do D c sr = (let e = dr_call D (port_log sr) c in (sr\<lparr>port_log := port_log sr @ [(c, e)]\<rparr>, e))"

definition serial_connected :: "serial_reader \<Rightarrow> bool" where
  "serial_connected sr = port_open sr"

definition disconnect :: "driver \<Rightarrow> serial_reader \<Rightarrow> serial_reader" where
  "disconnect D sr = (if port_open sr then (fst (port_do D Closed sr))\<lparr>port_open := False\<rparr> else sr)"

definition connect_port :: "driver \<Rightarrow> options \<Rightarrow> serial_reader \<Rightarrow> serial_reader \<times> serial_error option" where
  "connect_port D o' sr0 =
     (let sr = disconnect D sr0 in
      case port_do D (Opened (Device (Serial o')) (Baud (Serial o'))) sr of
        (sr1, Some e) \<Rightarrow> (sr1, Some (PortError e))
      | (sr1, None) \<Rightarrow>
          (case port_do D (TimeoutSet (serial_read_timeout o')) sr1 of
             (sr2, Some e) \<Rightarrow> (fst (port_do D Closed sr2), Some (PortError e))
           | (sr2, None) \<Rightarrow> (sr2\<lparr>port_open := True\<rparr>, None)))"

definition new_serial_reader :: "driver \<Rightarrow> options \<Rightarrow> serial_reader" where
  "new_serial_reader D o' = fst (connect_port D o' \<lparr>port_open = False, port_log = []\<rparr>)"

definition reconnect :: "driver \<Rightarrow> options \<Rightarrow> serial_reader \<Rightarrow> serial_reader \<times> serial_error option" where
  "reconnect D o' sr = connect_port D o' (disconnect D sr)"

definition write_command :: "driver \<Rightarrow> string \<Rightarrow> serial_reader \<Rightarrow> serial_reader \<times> serial_error option" where
  "write_command D command sr =
     (let payload = trim_right command cr_lf in
      if payload = [] then (sr, Some EmptyRFLinkCommand)
      else if \<not> port_open sr then (sr, Some SerialNotConnected)
      else (case port_do D (Wrote (payload @ cr_lf)) sr of
              (sr', Some e) \<Rightarrow> (sr', Some (PortError e))
            | (sr', None) \<Rightarrow> (sr', None)))"

definition close_port :: "driver \<Rightarrow> serial_reader \<Rightarrow> serial_reader \<times> serial_error option" where
  "close_port D sr =
     (if \<not> port_open sr then (sr, None)
      else (case port_do D Closed sr of (sr', e) \<Rightarrow> (sr'\<lparr>port_open := False\<rparr>, map_option PortError e)))"

section \<open>Lines\<close>

text \<open>
  \<open>bufio.Scanner\<close> with \<open>ScanLines\<close>: \<open>scan_lines\<close> cuts one token off the buffered bytes (\<open>at_eof\<close> once
  reading has failed or ended), \<open>scan_read\<close> takes in what one \<open>Read\<close> returned. More than one hundred
  reads in a row without a byte or an error are \<open>io.ErrNoProgress\<close>; 64 KiB without a line end are
  \<open>bufio.ErrTooLong\<close>, and what is buffered is then lost.
\<close>

definition new_line :: char where "new_line = CHR 0x0A"
definition carriage_return :: char where "carriage_return = CHR 0x0D"

definition drop_cr :: "string \<Rightarrow> string" where
  "drop_cr s = (if s \<noteq> [] \<and> last s = carriage_return then butlast s else s)"

definition scan_lines :: "string \<Rightarrow> bool \<Rightarrow> (string \<times> string) option" where
  "scan_lines data at_eof =
     (if at_eof \<and> data = [] then None
      else if new_line \<in> set data
        then Some (drop_cr (takeWhile (\<lambda>c. c \<noteq> new_line) data), tl (dropWhile (\<lambda>c. c \<noteq> new_line) data))
      else if at_eof then Some (drop_cr data, [])
      else None)"

record scanner =
  sc_buf :: string
  sc_err :: "scan_err option"
  sc_loop :: nat

definition new_scanner :: scanner where
  "new_scanner = \<lparr>sc_buf = [], sc_err = None, sc_loop = 0\<rparr>"

definition max_empty_reads :: nat where "max_empty_reads = 100"
definition max_token_size :: nat where "max_token_size = 65536"

record read_event =
  re_data :: string
  re_err :: "scan_err option"

definition scan_take :: "scanner \<Rightarrow> (string \<times> scanner) option" where
  "scan_take sc =
     (if sc_err sc = Some ScanTooLong then None
      else (case scan_lines (sc_buf sc) (sc_err sc \<noteq> None) of
              None \<Rightarrow> None
            | Some (token, rest) \<Rightarrow> Some (token, sc\<lparr>sc_buf := rest\<rparr>)))"

definition scan_read :: "read_event \<Rightarrow> scanner \<Rightarrow> scanner" where
  "scan_read ev sc =
     (if max_token_size \<le> length (sc_buf sc) then sc\<lparr>sc_err := Some ScanTooLong\<rparr>
      else (let sc' = sc\<lparr>sc_buf := sc_buf sc @ re_data ev\<rparr> in
        case re_err ev of
          Some e \<Rightarrow> sc'\<lparr>sc_err := Some e\<rparr>
        | None \<Rightarrow>
            if re_data ev \<noteq> [] then sc'\<lparr>sc_loop := 0\<rparr>
            else if max_empty_reads < Suc (sc_loop sc) then sc'\<lparr>sc_err := Some ScanNoProgress\<rparr>
            else sc'\<lparr>sc_loop := Suc (sc_loop sc)\<rparr>))"

text \<open>
  One round of the loop of \<open>ReadLines\<close>: the next line is handed to the callback, or the scanner has
  to read more, or the call returns. \<open>cancelled\<close> is \<open>ctx.Err() != nil\<close>.
\<close>

datatype read_round = HandleLine string | ReadMore | Returns serial_error

definition read_next :: "bool \<Rightarrow> scanner \<Rightarrow> scanner \<times> read_round" where
  "read_next cancelled sc =
     (case scan_take sc of
        Some (line, sc') \<Rightarrow> (sc', if cancelled then Returns ContextDone else HandleLine line)
      | None \<Rightarrow> (sc, case sc_err sc of
                       None \<Rightarrow> ReadMore
                     | Some ScanEOF \<Rightarrow> Returns StreamClosed
                     | Some e \<Rightarrow> Returns (ScanFailed e)))"

text \<open>
  \<open>ReadLines\<close> on a context that is not cancelled and with a callback that returns no error: the
  lines handed over, and the error it returns when the events suffice for that.
\<close>

lemma length_after_char: "c \<in> set s \<Longrightarrow> length (tl (dropWhile (\<lambda>x. x \<noteq> c) s)) < length s"
  by (induction s) auto

lemma scan_take_shorter: "scan_take sc = Some (line, sc') \<Longrightarrow> length (sc_buf sc') < length (sc_buf sc)"
  using length_after_char [of new_line "sc_buf sc"]
  by (auto simp: scan_take_def scan_lines_def split: if_splits)

lemma read_next_shorter: "read_next c sc = (sc', HandleLine line) \<Longrightarrow> length (sc_buf sc') < length (sc_buf sc)"
  using scan_take_shorter [of sc line sc']
  by (auto simp: read_next_def split: option.splits if_splits scan_err.splits)

function (sequential) read_lines :: "read_event list \<Rightarrow> scanner \<Rightarrow> string list \<times> serial_error option" where
  "read_lines evs sc =
     (case read_next False sc of
        (sc', HandleLine line) \<Rightarrow> (case read_lines evs sc' of (ls, e) \<Rightarrow> (line # ls, e))
      | (sc', Returns e) \<Rightarrow> ([], Some e)
      | (sc', ReadMore) \<Rightarrow>
          (case evs of [] \<Rightarrow> ([], None) | ev # evs' \<Rightarrow> read_lines evs' (scan_read ev sc')))"
  by pat_completeness auto
termination
  by (relation "measures [\<lambda>(evs, sc). length evs, \<lambda>(evs, sc). length (sc_buf sc)]")
    (auto dest: read_next_shorter [OF sym])

declare read_lines.simps [simp del]

section \<open>Lines do not depend on how the bytes arrive\<close>

definition stream_bytes :: "read_event list \<Rightarrow> string" where
  "stream_bytes evs = concat (map re_data evs)"

text \<open>\<open>stalls n evs\<close>: after \<open>n\<close> empty reads in a row the events bring the count above one hundred.\<close>

fun stalls :: "nat \<Rightarrow> read_event list \<Rightarrow> bool" where
  "stalls n [] = False"
| "stalls n (ev # evs) =
     (if re_data ev = [] then max_empty_reads < Suc n \<or> stalls (Suc n) evs else stalls 0 evs)"

definition silence :: read_event where "silence = \<lparr>re_data = [], re_err = None\<rparr>"
definition hang_up :: read_event where "hang_up = \<lparr>re_data = [], re_err = Some ScanEOF\<rparr>"

lemma scan_take_line:
  assumes "new_line \<notin> set l" and "sc_err sc = None" and "sc_buf sc = l @ new_line # rest"
  shows "scan_take sc = Some (drop_cr l, sc\<lparr>sc_buf := rest\<rparr>)"
proof -
  have "takeWhile (\<lambda>c. c \<noteq> new_line) (l @ new_line # rest) = l"
    and "dropWhile (\<lambda>c. c \<noteq> new_line) (l @ new_line # rest) = new_line # rest"
    using assms(1) by (simp_all add: takeWhile_append dropWhile_append)
  then show ?thesis using assms by (simp add: scan_take_def scan_lines_def)
qed

lemma scan_take_none:
  "new_line \<notin> set (sc_buf sc) \<Longrightarrow> sc_err sc = None \<Longrightarrow> scan_take sc = None"
  by (simp add: scan_take_def scan_lines_def)

lemma read_lines_line:
  assumes "scan_take sc = Some (line, sc')"
  shows "read_lines evs sc = (case read_lines evs sc' of (ls, e) \<Rightarrow> (line # ls, e))"
  by (subst read_lines.simps) (simp add: read_next_def assms)

lemma read_lines_more:
  assumes "scan_take sc = None" and "sc_err sc = None"
  shows "read_lines [] sc = ([], None)"
    and "read_lines (ev # evs) sc = read_lines evs (scan_read ev sc)"
  by (subst read_lines.simps, simp add: read_next_def assms)+

lemma read_lines_buffered:
  assumes "sc_err sc = None"
  shows "read_lines evs sc =
    (case read_lines evs (sc\<lparr>sc_buf := last (split_on new_line (sc_buf sc))\<rparr>) of
       (ls, e) \<Rightarrow> (map drop_cr (butlast (split_on new_line (sc_buf sc))) @ ls, e))"
  using assms
proof (induction "length (sc_buf sc)" arbitrary: sc rule: less_induct)
  case less
  show ?case
  proof (cases "new_line \<in> set (sc_buf sc)")
    case True
    then obtain l rest where l: "sc_buf sc = l @ new_line # rest" "new_line \<notin> set l"
      by (meson split_list_first)
    have "read_lines evs sc = (case read_lines evs (sc\<lparr>sc_buf := rest\<rparr>) of (ls, e) \<Rightarrow> (drop_cr l # ls, e))"
      by (rule read_lines_line [OF scan_take_line [OF l(2) less.prems l(1)]])
    moreover have "length (sc_buf (sc\<lparr>sc_buf := rest\<rparr>)) < length (sc_buf sc)" using l by simp
    note less.hyps [OF this]
    ultimately show ?thesis
      using less.prems l by (simp add: split_on_append split: prod.splits)
  next
    case False
    then show ?thesis by (simp add: split_on_single split: prod.splits)
  qed
qed

lemma split_on_snoc_part:
  "split_on c (s @ t) = butlast (split_on c s) @ split_on c (last (split_on c s) @ t)"
proof (induction "length s" arbitrary: s rule: less_induct)
  case less
  show ?case
  proof (cases "c \<in> set s")
    case True
    then obtain l rest where l: "s = l @ c # rest" "c \<notin> set l" by (meson split_list_first)
    have "length rest < length s" using l by simp
    from less.hyps [OF this] show ?thesis
      using l by (simp add: split_on_append)
  next
    case False
    then show ?thesis by (simp add: split_on_single)
  qed
qed

lemma last_piece_clean: "c \<notin> set (last (split_on c s))"
  using split_on_no_sep [of _ c s] by (metis last_in_set split_on_not_Nil)

lemma split_on_prefix:
  "c \<notin> set b \<Longrightarrow> split_on c (b @ t) = (b @ hd (split_on c t)) # tl (split_on c t)"
  by (induction b) (auto simp: neq_Nil_conv split: list.splits)

lemma butlast_append_split: "butlast (xs @ split_on c t) = xs @ butlast (split_on c t)"
  by (simp add: butlast_append)

text \<open>Events without an error leave the scanner in a state from which any further events go on.\<close>

lemma read_lines_chunks:
  assumes "list_all (\<lambda>ev. re_err ev = None) evs" and "\<not> stalls (sc_loop sc) evs" and "sc_err sc = None"
    and "list_all (\<lambda>p. length p < max_token_size) (split_on new_line (sc_buf sc @ stream_bytes evs))"
  shows "\<exists>k. read_lines (evs @ fin) sc =
    (case read_lines fin \<lparr>sc_buf = last (split_on new_line (sc_buf sc @ stream_bytes evs)), sc_err = None, sc_loop = k\<rparr> of
       (ls, e) \<Rightarrow> (map drop_cr (butlast (split_on new_line (sc_buf sc @ stream_bytes evs))) @ ls, e))"
  using assms
proof (induction evs arbitrary: sc)
  case Nil
  have "sc\<lparr>sc_buf := b\<rparr> = \<lparr>sc_buf = b, sc_err = None, sc_loop = sc_loop sc\<rparr>" for b
    using Nil.prems(3) by simp
  then show ?case
    using read_lines_buffered [OF Nil.prems(3), of fin]
    by (intro exI [of _ "sc_loop sc"]) (simp add: stream_bytes_def)
next
  case (Cons ev evs)
  define b where "b = last (split_on new_line (sc_buf sc))"
  define sc1 where "sc1 = scan_read ev (sc\<lparr>sc_buf := b\<rparr>)"
  have st: "stream_bytes (ev # evs) = re_data ev @ stream_bytes evs" by (simp add: stream_bytes_def)
  have b: "new_line \<notin> set b" unfolding b_def by (rule last_piece_clean)
  have parts: "split_on new_line (sc_buf sc @ re_data ev @ stream_bytes evs) =
      butlast (split_on new_line (sc_buf sc)) @ split_on new_line (b @ re_data ev @ stream_bytes evs)"
    unfolding b_def by (rule split_on_snoc_part)
  have short: "length b < max_token_size"
    using Cons.prems(4) by (simp add: st parts split_on_prefix [OF b])
  have sc1: "sc1 = sc\<lparr>sc_buf := b @ re_data ev, sc_loop := (if re_data ev = [] then Suc (sc_loop sc) else 0)\<rparr>"
    using Cons.prems short by (auto simp: sc1_def scan_read_def Let_def)
  have "read_lines ((ev # evs) @ fin) (sc\<lparr>sc_buf := b\<rparr>) = read_lines (evs @ fin) sc1"
    using b Cons.prems(3) by (simp add: sc1_def read_lines_more scan_take_none)
  moreover obtain k where "read_lines (evs @ fin) sc1 =
    (case read_lines fin \<lparr>sc_buf = last (split_on new_line (sc_buf sc1 @ stream_bytes evs)), sc_err = None, sc_loop = k\<rparr> of
       (ls, e) \<Rightarrow> (map drop_cr (butlast (split_on new_line (sc_buf sc1 @ stream_bytes evs))) @ ls, e))"
    using Cons.IH [of sc1] Cons.prems by (auto simp: sc1 st parts split: if_splits)
  ultimately show ?case
    using read_lines_buffered [OF Cons.prems(3), of "(ev # evs) @ fin"]
    by (intro exI [of _ k])
      (simp add: st parts sc1 b_def [symmetric] butlast_append_split split: prod.splits)
qed

lemma read_hang_up:
  assumes "new_line \<notin> set b"
  shows "read_lines [hang_up] \<lparr>sc_buf = b, sc_err = None, sc_loop = k\<rparr> =
    (if length b < max_token_size then (if b = [] then [] else [drop_cr b], Some StreamClosed)
     else ([], Some (ScanFailed ScanTooLong)))"
proof -
  have stop: "read_lines [] \<lparr>sc_buf = [], sc_err = Some ScanEOF, sc_loop = k\<rparr> = ([], Some StreamClosed)"
    by (subst read_lines.simps) (simp add: read_next_def scan_take_def scan_lines_def)
  have "scan_take \<lparr>sc_buf = b, sc_err = Some ScanEOF, sc_loop = k\<rparr> =
      Some (drop_cr b, \<lparr>sc_buf = [], sc_err = Some ScanEOF, sc_loop = k\<rparr>)" if "b \<noteq> []"
    using that assms by (simp add: scan_take_def scan_lines_def)
  moreover have "read_lines [] \<lparr>sc_buf = b, sc_err = Some ScanTooLong, sc_loop = k\<rparr> = ([], Some (ScanFailed ScanTooLong))"
    by (subst read_lines.simps) (simp add: read_next_def scan_take_def)
  ultimately show ?thesis
    using assms stop
    by (cases "b = []") (auto simp: read_lines_more scan_take_none scan_read_def hang_up_def read_lines_line)
qed

lemma read_silence:
  assumes "sc_err sc = None" and "sc_buf sc = []" and "n + sc_loop sc \<le> max_empty_reads"
  shows "read_lines (replicate n silence @ evs) sc = read_lines evs (sc\<lparr>sc_loop := n + sc_loop sc\<rparr>)"
  using assms
proof (induction n arbitrary: sc)
  case (Suc n)
  have "scan_read silence sc = sc\<lparr>sc_loop := Suc (sc_loop sc)\<rparr>"
    using Suc.prems by (simp add: scan_read_def silence_def max_token_size_def)
  then show ?case
    using Suc.IH [of "sc\<lparr>sc_loop := Suc (sc_loop sc)\<rparr>"] Suc.prems
    by (simp add: read_lines_more scan_take_none)
qed simp

section \<open>Properties of reading\<close>

text \<open>The lines of a whole stream: cut at line feeds, without an empty remainder, without a final CR.\<close>

definition lines_of_stream :: "string \<Rightarrow> string list" where
  "lines_of_stream s =
     (let ps = split_on new_line s in map drop_cr (if last ps = [] then butlast ps else ps))"

text \<open>C33: \<open>ReadLines\<close> hands over the lines of the byte stream, however the port cuts the stream into
  reads: while the port stays open all complete lines, and the rest of an unfinished line when it is
  closed. This holds if no line reaches 64 KiB and no more than one hundred reads in a row are empty.\<close>
theorem lines_independent_of_chunks:
  assumes "list_all (\<lambda>ev. re_err ev = None) evs" and "\<not> stalls 0 evs"
    and "list_all (\<lambda>p. length p < max_token_size) (split_on new_line (stream_bytes evs))"
  shows "read_lines evs new_scanner = (map drop_cr (butlast (split_on new_line (stream_bytes evs))), None) \<and>
    read_lines (evs @ [hang_up]) new_scanner = (lines_of_stream (stream_bytes evs), Some StreamClosed)"
proof -
  let ?ps = "split_on new_line (stream_bytes evs)"
  note run = read_lines_chunks [of evs new_scanner, simplified new_scanner_def, simplified, OF assms]
  obtain k where k: "read_lines evs new_scanner =
      (case read_lines [] \<lparr>sc_buf = last ?ps, sc_err = None, sc_loop = k\<rparr> of
         (ls, e) \<Rightarrow> (map drop_cr (butlast ?ps) @ ls, e))"
    using run [of "[]"] by (auto simp: new_scanner_def)
  obtain k' where k': "read_lines (evs @ [hang_up]) new_scanner =
      (case read_lines [hang_up] \<lparr>sc_buf = last ?ps, sc_err = None, sc_loop = k'\<rparr> of
         (ls, e) \<Rightarrow> (map drop_cr (butlast ?ps) @ ls, e))"
    using run [of "[hang_up]"] by (auto simp: new_scanner_def)
  have clean: "new_line \<notin> set (last ?ps)" by (rule last_piece_clean)
  have short: "length (last ?ps) < max_token_size"
    using assms(3) by (simp add: list_all_iff)
  have all: "map drop_cr (butlast ?ps) @ [drop_cr (last ?ps)] = map drop_cr ?ps"
    by (metis append_butlast_last_id list.simps(8,9) map_append split_on_not_Nil)
  show ?thesis
    using clean short
    by (simp add: k k' read_hang_up read_lines_more(1) scan_take_none lines_of_stream_def Let_def all)
qed

lemma lines_independent_of_chunks_witness:
  "read_lines ([\<lparr>re_data = ''20;00;PO'', re_err = None\<rparr>, silence,
      \<lparr>re_data = ''NG;'' @ [carriage_return, new_line] @ ''20;01'', re_err = None\<rparr>] @ [hang_up]) new_scanner
    = ([''20;00;PONG;'', ''20;01''], Some StreamClosed)"
proof -
  let ?evs = "[\<lparr>re_data = ''20;00;PO'', re_err = None\<rparr>, silence,
      \<lparr>re_data = ''NG;'' @ [carriage_return, new_line] @ ''20;01'', re_err = None\<rparr>]"
  have h: "list_all (\<lambda>ev. re_err ev = None) ?evs" "\<not> stalls 0 ?evs"
    "list_all (\<lambda>p. length p < max_token_size) (split_on new_line (stream_bytes ?evs))"
    by (simp_all add: silence_def max_empty_reads_def max_token_size_def stream_bytes_def new_line_def carriage_return_def)
  have "lines_of_stream (stream_bytes ?evs) = [''20;00;PONG;'', ''20;01'']"
    by (simp add: lines_of_stream_def stream_bytes_def silence_def new_line_def carriage_return_def drop_cr_def)
  then show ?thesis
    using lines_independent_of_chunks [OF h] by simp
qed

text \<open>A gateway that is silent for more than one hundred read timeouts in a row makes \<open>ReadLines\<close>
  return an error, although the port works: the timeouts come back as empty reads, and the scanner
  gives up on them. With fewer empty reads the call goes on.\<close>
lemma silence_ends_reading:
  shows "read_lines (replicate n silence) new_scanner =
    ([], if n \<le> max_empty_reads then None else Some (ScanFailed ScanNoProgress))"
proof (cases "n \<le> max_empty_reads")
  case True
  then show ?thesis
    using read_silence [of new_scanner n "[]"]
    by (simp add: new_scanner_def read_lines_more scan_take_none)
next
  case False
  define m where "m = n - Suc max_empty_reads"
  have n: "replicate n silence = replicate max_empty_reads silence @ silence # replicate m silence"
    using False by (simp add: m_def flip: replicate_add replicate_Suc)
  let ?sc = "\<lparr>sc_buf = [], sc_err = None, sc_loop = max_empty_reads\<rparr>"
  have "read_lines (replicate n silence) new_scanner = read_lines (silence # replicate m silence) ?sc"
    using read_silence [of new_scanner max_empty_reads "silence # replicate m silence"]
    by (simp add: n new_scanner_def)
  also have "\<dots> = read_lines (replicate m silence) (?sc\<lparr>sc_err := Some ScanNoProgress\<rparr>)"
    by (simp add: read_lines_more scan_take_none scan_read_def silence_def max_token_size_def)
  also have "\<dots> = ([], Some (ScanFailed ScanNoProgress))"
    by (subst read_lines.simps) (simp add: read_next_def scan_take_def scan_lines_def)
  finally show ?thesis using False by simp
qed

end
