(* ===== verification/SensorData.thy ===== *)
theory SensorData
  imports Options GoFloat
begin

text \<open>
  \<open>rflink/sensor_data.go\<close> and \<open>rflink/utils.go\<close>: parsing a line received from the RFLink gateway, the
  fields it publishes, and gateway replies. A map with string values is an association list with
  distinct keys, updated with \<open>AList.update\<close>. A temperature is a \<open>float32\<close>, here the rational it
  denotes. The time of reception is an argument, already formatted.
\<close>

section \<open>Sensor messages\<close>

record sensor_data =
  Hwid :: string
  Model :: string
  Id :: string
  FriendlyName :: string
  Temperature :: "rat option"
  TempRaw :: string
  Humidity :: "16 word option"
  Bat :: string
  Switch :: string
  Cmd :: string
  Extra :: "(string \<times> string) list"
  Timestamp :: string
  ReceivedAt :: string

datatype msg_error =
    EmptyMessage
  | MessageTooShort string
  | InvalidField string string
  | BadTemperature num_error
  | BadHumidity num_error
  | NoSensorID

definition str_to_uint16 :: "string \<Rightarrow> nat \<Rightarrow> num_error + 16 word" where
  "str_to_uint16 s base = bind_res (parse_uint s base 16) (\<lambda>n. Inr (of_nat n))"

definition known_field_keys :: "string list" where
  "known_field_keys = [''ID'', ''TEMP'', ''HUM'', ''BAT'', ''SWITCH'', ''CMD'']"

definition field_topic_name :: "unicode \<Rightarrow> string \<Rightarrow> string" where
  "field_topic_name U key = to_lower U (trim_space key)"

text \<open>\<open>float32(t) / 10\<close>.\<close>

definition celsius :: "16 word \<Rightarrow> rat" where
  "celsius t = f32 (f32 (of_nat (unat t)) / 10)"

text \<open>The \<open>switch\<close> on the key of one known field, then the body of the loop over the pieces.\<close>

definition store_field :: "unicode \<Rightarrow> string \<Rightarrow> string \<Rightarrow> sensor_data \<Rightarrow> msg_error + sensor_data" where
  "store_field U key value sd =
     (if key = ''ID'' then
        Inr (sd\<lparr>Id := value, Hwid := to_upper U (Model sd @ ''_'' @ value)\<rparr>)
      else if key = ''TEMP'' then
        (case str_to_uint16 value 16 of
           Inl e \<Rightarrow> Inl (BadTemperature e)
         | Inr t \<Rightarrow> Inr (sd\<lparr>TempRaw := value, Temperature := Some (celsius t)\<rparr>))
      else if key = ''HUM'' then
        (case str_to_uint16 value 10 of
           Inl e \<Rightarrow> Inl (BadHumidity e)
         | Inr h \<Rightarrow> Inr (sd\<lparr>Humidity := Some h\<rparr>))
      else if key = ''BAT'' then Inr (sd\<lparr>Bat := value\<rparr>)
      else if key = ''SWITCH'' then Inr (sd\<lparr>Switch := value\<rparr>)
      else Inr (sd\<lparr>Cmd := value\<rparr>))"

definition parse_piece :: "unicode \<Rightarrow> string \<Rightarrow> string \<Rightarrow> sensor_data \<Rightarrow> msg_error + sensor_data" where
  "parse_piece U msg piece0 sd =
     (let piece = trim_space piece0 in
      if piece = [] then Inr sd
      else (case split_n 2 (CHR ''='') piece of
              [k, v] \<Rightarrow>
                (let key = to_upper U (trim_space k); value = trim_space v in
                 if key \<notin> set known_field_keys
                 then Inr (sd\<lparr>Extra := AList.update (field_topic_name U key) value (Extra sd)\<rparr>)
                 else store_field U key value sd)
            | _ \<Rightarrow> Inl (InvalidField piece msg)))"

fun parse_pieces :: "unicode \<Rightarrow> string \<Rightarrow> string list \<Rightarrow> sensor_data \<Rightarrow> msg_error + sensor_data" where
  "parse_pieces U msg [] sd = Inr sd"
| "parse_pieces U msg (p # ps) sd =
     (case parse_piece U msg p sd of Inl e \<Rightarrow> Inl e | Inr sd' \<Rightarrow> parse_pieces U msg ps sd')"

definition new_sensor :: "string \<Rightarrow> string \<Rightarrow> sensor_data" where
  "new_sensor model now =
     \<lparr>Hwid = [], Model = model, Id = [], FriendlyName = [], Temperature = None, TempRaw = [],
      Humidity = None, Bat = [], Switch = [], Cmd = [], Extra = [],
      Timestamp = now, ReceivedAt = now\<rparr>"

definition sensor_data_from_message :: "unicode \<Rightarrow> string \<Rightarrow> string \<Rightarrow> msg_error + sensor_data" where
  "sensor_data_from_message U now msg0 =
     (let msg = trim_space msg0 in
      if msg = [] then Inl EmptyMessage
      else (let pieces = split_on (CHR '';'') msg in
            if length pieces < 3 then Inl (MessageTooShort msg)
            else bind_res
                   (parse_pieces U msg (drop 3 pieces)
                      (new_sensor (replace_all (trim_space (pieces ! 2)) '' '' ''_'') now))
                   (\<lambda>sd. if Id sd = [] then Inl NoSensorID else Inr sd)))"

text \<open>\<open>ApplyCanonicalHWID\<close>; a nil \<open>Options\<close> is \<open>None\<close>.\<close>

definition apply_canonical_hwid :: "unicode \<Rightarrow> options option \<Rightarrow> sensor_data \<Rightarrow> sensor_data" where
  "apply_canonical_hwid U oo sd =
     (case oo of None \<Rightarrow> sd | Some o' \<Rightarrow> sd\<lparr>Hwid := canonical_hwid U o' (Id sd) (Hwid sd)\<rparr>)"

definition strip_event_fields :: "sensor_data \<Rightarrow> sensor_data" where
  "strip_event_fields sd = sd\<lparr>Cmd := [], Switch := []\<rparr>"

section \<open>Published fields\<close>

definition show_word :: "16 word \<Rightarrow> string" where
  "show_word w = show_nat (unat w)"

text \<open>\<open>float64(t)*9/5 + 32\<close>, every operation rounded to \<open>float64\<close>.\<close>

definition fahrenheit :: "rat \<Rightarrow> rat" where
  "fahrenheit t = f64 (f64 (f64 (t * 9) / 5) + 32)"

definition temp_field :: "unicode \<Rightarrow> string \<Rightarrow> sensor_data \<Rightarrow> (string \<times> string) list" where
  "temp_field U unit0 sd =
     (let unit = to_upper U unit0 in
      if unit = ''RAW'' then (if TempRaw sd \<noteq> [] then [(''temp'', TempRaw sd)] else [])
      else if unit = ''F'' then
        (case Temperature sd of Some t \<Rightarrow> [(''temp'', format_f1 (fahrenheit t))] | None \<Rightarrow> [])
      else (case Temperature sd of Some t \<Rightarrow> [(''temp'', format_f1 t)] | None \<Rightarrow> []))"

definition switch_fields :: "unicode \<Rightarrow> sensor_data \<Rightarrow> (string \<times> string) list" where
  "switch_fields U sd =
     (if Switch sd \<noteq> [] \<and> Cmd sd \<noteq> []
      then [(''sw_'' @ field_topic_name U (Switch sd), to_upper U (trim_space (Cmd sd)))]
      else (if Switch sd \<noteq> [] then [(''switch'', Switch sd)] else [])
           @ (if Cmd sd \<noteq> [] then [(''cmd'', Cmd sd)] else []))"

definition base_fields :: "unicode \<Rightarrow> string \<Rightarrow> sensor_data \<Rightarrow> (string \<times> string) list" where
  "base_fields U unit sd =
     temp_field U unit sd
     @ (case Humidity sd of Some h \<Rightarrow> [(''hum'', show_word h)] | None \<Rightarrow> [])
     @ (if Bat sd \<noteq> [] then [(''bat'', Bat sd)] else [])
     @ switch_fields U sd"

definition add_extra :: "(string \<times> string) \<Rightarrow> (string \<times> string) list \<Rightarrow> (string \<times> string) list" where
  "add_extra kv fs = (if snd kv \<noteq> [] then AList.update (fst kv) (snd kv) fs else fs)"

definition fields_for_publish :: "unicode \<Rightarrow> string \<Rightarrow> sensor_data \<Rightarrow> (string \<times> string) list" where
  "fields_for_publish U unit sd = fold add_extra (Extra sd) (base_fields U unit sd)"

definition topic_id :: "sensor_data \<Rightarrow> string" where
  "topic_id sd = (if Hwid sd \<noteq> [] then Hwid sd else Id sd)"


section \<open>The log text of a sensor\<close>

text \<open>The degree sign is the two bytes C2 B0 of UTF-8; \<open>%.1f\<close> prints a \<open>float32\<close> like \<open>format_f1\<close>.\<close>

definition degree_c :: string where
  "degree_c = [char_of (0xC2 :: nat), char_of (0xB0 :: nat), CHR ''C'']"

definition opt_text :: "string \<Rightarrow> string \<Rightarrow> string" where
  "opt_text label v = (if v \<noteq> [] then label @ v else [])"

definition sensor_string :: "sensor_data \<Rightarrow> string" where
  "sensor_string sd =
     Model sd @ '' ['' @ Id sd @ '']''
     @ opt_text '' bat='' (Bat sd) @ opt_text '' switch='' (Switch sd) @ opt_text '' cmd='' (Cmd sd)
     @ (case Temperature sd of Some t \<Rightarrow> '' temp='' @ format_f1 t @ degree_c | None \<Rightarrow> [])
     @ (case Humidity sd of Some h \<Rightarrow> '' hum='' @ show_word h @ ''%'' | None \<Rightarrow> [])"

section \<open>Gateway replies\<close>

record gateway_info =
  gw_Raw :: string
  gw_Version :: string
  gw_Pong :: bool
  gw_ReceivedAt :: string
  gw_Extra :: "(string \<times> string) list"

text \<open>
  The loop over the pieces carries the record and the flag \<open>hasVer\<close> (\<open>hasPong\<close> equals \<open>Pong\<close>).
  A nil \<open>Extra\<close> and an empty one are both \<open>[]\<close>.
\<close>

definition gateway_key :: "unicode \<Rightarrow> string \<Rightarrow> string \<Rightarrow> gateway_info \<times> bool \<Rightarrow> gateway_info \<times> bool" where
  "gateway_key U key val st =
     (case st of (info, hasVer) \<Rightarrow>
        if key = ''VER'' \<or> key = ''VERSION'' then (info\<lparr>gw_Version := val\<rparr>, True)
        else if key = ''REV'' \<or> key = ''BUILD'' \<or> key = ''NAME''
        then (info\<lparr>gw_Extra := AList.update (to_lower U key) val (gw_Extra info)\<rparr>, True)
        else (info\<lparr>gw_Extra := AList.update (to_lower U key) val (gw_Extra info)\<rparr>, hasVer))"

definition gateway_piece :: "unicode \<Rightarrow> string \<Rightarrow> gateway_info \<times> bool \<Rightarrow> gateway_info \<times> bool" where
  "gateway_piece U piece0 st =
     (let piece = trim_space piece0 in
      if piece = [] then st
      else if to_upper U piece = ''PONG'' then ((fst st)\<lparr>gw_Pong := True\<rparr>, snd st)
      else if str_contains piece ''=''
      then (case split_n 2 (CHR ''='') piece of
              [k, v] \<Rightarrow> gateway_key U (to_upper U (trim_space k)) (trim_space v) st
            | _ \<Rightarrow> st)
      else st)"

definition parse_gateway_message :: "unicode \<Rightarrow> string \<Rightarrow> string \<Rightarrow> gateway_info option" where
  "parse_gateway_message U now msg0 =
     (let msg = trim_space msg0 in
      if msg = [] then None
      else if \<not> has_prefix msg ''20;'' then None
      else if str_contains (to_upper U msg) ''ID='' then None
      else (let (info, hasVer) =
                  fold (gateway_piece U) (split_on (CHR '';'') msg)
                    (\<lparr>gw_Raw = msg, gw_Version = [], gw_Pong = False, gw_ReceivedAt = now, gw_Extra = []\<rparr>, False)
            in if \<not> gw_Pong info \<and> \<not> hasVer \<and> gw_Version info = [] then None else Some info))"

section \<open>Printed temperatures\<close>

text \<open>
  Every 16-bit reading \<open>n\<close> is printed exactly: the errors of the conversions stay below the distance
  to the next decimal. \<open>tenths n\<close> is the \<open>float32\<close> that the code computes from \<open>n\<close>.
\<close>

definition tenths :: "nat \<Rightarrow> rat" where
  "tenths n = f32 (f32 (of_nat n) / 10)"

lemma celsius_tenths: "celsius t = tenths (unat t)"
  by (simp only: celsius_def tenths_def)

lemma tenths_0 [simp]: "tenths 0 = 0"
  by (simp add: tenths_def)

lemma unat16_le: "unat (t :: 16 word) \<le> 65535"
  using unsigned_less [of t, where ?'a = nat] by simp

lemma tenths_error:
  assumes "n \<le> 65535"
  shows "\<bar>tenths n - of_nat n / 10\<bar> \<le> 1 / 2000"
proof (cases "n = 0")
  case False
  then have "(1::rat) \<le> of_nat n" by simp
  then have lo: "(1::rat) / 2 ^ 100 \<le> of_nat n / 10" by simp
  have hi: "(of_nat n :: rat) \<le> 65535" using assms by simp
  have "f32 (of_nat n) = of_nat n"
    using assms by (intro f32_of_nat) simp
  then show ?thesis
    using f32_error [OF lo] hi by (simp add: tenths_def)
qed simp

lemma tenths_lower:
  assumes "n \<le> 65535" and "n \<noteq> 0"
  shows "1 / 20 \<le> tenths n"
proof -
  have "(1::rat) \<le> of_nat n" using assms by simp
  then show ?thesis using tenths_error [OF assms(1)] by linarith
qed

lemma tenths_upper:
  assumes "n \<le> 65535"
  shows "tenths n \<le> 6554"
proof -
  have "(of_nat n :: rat) \<le> 65535" using assms by simp
  then show ?thesis using tenths_error [OF assms] by linarith
qed

text \<open>One more rounding to \<open>float32\<close>, and one to \<open>float64\<close>, move such a value by little.\<close>

lemma f32_small_error:
  assumes "x = 0 \<or> 1 / 20 \<le> x" and "x \<le> 20000"
  shows "\<bar>f32 x - x\<bar> \<le> 1 / 800"
proof (cases "x = 0")
  case False
  then have "1 / 2 ^ 100 \<le> x" using assms(1) by simp
  then show ?thesis using f32_error [of x] assms(2) by simp
qed simp

lemma f64_small_error:
  assumes "x = 0 \<or> 1 / 20 \<le> x" and "x \<le> 100000"
  shows "\<bar>f64 x - x\<bar> \<le> 1 / 1000000"
proof (cases "x = 0")
  case False
  then have "1 / 2 ^ 100 \<le> x" using assms(1) by simp
  then show ?thesis using f64_error [of x] assms(2) by simp
qed simp

lemma tenths_0_or_lower: "n \<le> 65535 \<Longrightarrow> tenths n = 0 \<or> 1 / 20 \<le> tenths n"
  using tenths_lower [of n] by (cases "n = 0") simp_all

lemma format_tenths:
  assumes "n \<le> 65535"
  shows "format_f1 (tenths n) = show_tenths n"
proof -
  have "\<bar>f32 (tenths n) - tenths n\<bar> \<le> 1 / 800"
    using tenths_0_or_lower [OF assms] tenths_upper [OF assms] by (intro f32_small_error) auto
  then have "\<bar>f32 (tenths n) * 10 - of_int (int n)\<bar> < 1 / 2"
    using tenths_error [OF assms] unfolding of_int_of_nat_eq by linarith
  then have "rne (f32 (tenths n) * 10) = int n"
    by (rule rne_unique)
  then show ?thesis by (simp add: format_f1_def)
qed

lemma f64_between:
  assumes "x = 0 \<or> 1 / 20 \<le> x" and "x \<le> 100000"
  shows "x - 1 / 1000000 \<le> f64 x" and "f64 x \<le> x + 1 / 1000000"
  using f64_small_error [OF assms] unfolding abs_le_iff by linarith+

lemma fahrenheit_steps:
  assumes t: "1 / 20 \<le> t" "t \<le> 6554"
  shows "t * 9 / 5 + 32 - 1 / 100000 \<le> fahrenheit t" and "fahrenheit t \<le> t * 9 / 5 + 32 + 1 / 100000"
proof -
  define a where "a = f64 (t * 9)"
  define b where "b = f64 (a / 5)"
  have a: "t * 9 - 1 / 1000000 \<le> a" "a \<le> t * 9 + 1 / 1000000"
    unfolding a_def by (rule f64_between; use t in linarith)+
  have b: "a / 5 - 1 / 1000000 \<le> b" "b \<le> a / 5 + 1 / 1000000"
    unfolding b_def by (rule f64_between; use t a in linarith)+
  have "b + 32 - 1 / 1000000 \<le> f64 (b + 32)" "f64 (b + 32) \<le> b + 32 + 1 / 1000000"
    by (rule f64_between; use t a b in linarith)+
  then show "t * 9 / 5 + 32 - 1 / 100000 \<le> fahrenheit t" and "fahrenheit t \<le> t * 9 / 5 + 32 + 1 / 100000"
    using a b unfolding fahrenheit_def a_def [symmetric] b_def [symmetric] by linarith+
qed

lemma fahrenheit_0: "fahrenheit 0 = 32"
  using f64_of_nat [of 32] by (simp add: fahrenheit_def)

lemma fahrenheit_error:
  assumes n: "n \<le> 65535"
  shows "\<bar>fahrenheit (tenths n) - (of_nat n * 9 / 50 + 32)\<bar> \<le> 1 / 1000"
proof (cases "n = 0")
  case False
  show ?thesis
    using fahrenheit_steps [OF tenths_lower [OF n False] tenths_upper [OF n]] tenths_error [OF n]
    unfolding abs_le_iff by linarith
qed (simp add: fahrenheit_0)

lemma nearest_tenth:
  "10 * ((18 * n + 3205) div 10) \<le> 18 * n + 3204 \<and> 18 * n + 3196 \<le> 10 * ((18 * n + 3205) div (10 :: nat))"
proof -
  define r where "r = (18 * n + 3205) mod 10"
  have d: "10 * ((18 * n + 3205) div 10) + r = 18 * n + 3205"
    unfolding r_def by (rule mult_div_mod_eq)
  have "odd r"
  proof
    assume "even r"
    then have "even (10 * ((18 * n + 3205) div 10) + r)" by simp
    then show False unfolding d by simp
  qed
  then have "r \<noteq> 0" by (rule contrapos_nn) simp
  moreover have "r < 10" by (simp add: r_def)
  ultimately show ?thesis using d by linarith
qed

lemma format_fahrenheit:
  assumes n: "n \<le> 65535"
  shows "format_f1 (fahrenheit (tenths n)) = show_tenths ((18 * n + 3205) div 10)"
proof -
  define f where "f = fahrenheit (tenths n)"
  define m where "m = (18 * n + 3205) div 10"
  have e: "\<bar>f - (of_nat n * 9 / 50 + 32)\<bar> \<le> 1 / 1000"
    unfolding f_def by (rule fahrenheit_error [OF n])
  have hi: "(of_nat n :: rat) \<le> 65535" and lo: "0 \<le> (of_nat n :: rat)" using n by simp_all
  have "\<bar>f32 f - f\<bar> \<le> 1 / 800"
    using e hi lo by (intro f32_small_error) linarith+
  moreover have "10 * m \<le> 18 * n + 3204 \<and> 18 * n + 3196 \<le> 10 * m"
    unfolding m_def by (rule nearest_tenth)
  then have "(of_nat (10 * m) :: rat) \<le> of_nat (18 * n + 3204)"
    and "(of_nat (18 * n + 3196) :: rat) \<le> of_nat (10 * m)"
    by (simp_all only: of_nat_le_iff)
  ultimately have "\<bar>f32 f * 10 - of_int (int m)\<bar> < 1 / 2"
    using e unfolding of_int_of_nat_eq of_nat_add of_nat_mult of_nat_numeral by linarith
  then have "rne (f32 f * 10) = int m"
    by (rule rne_unique)
  then show ?thesis by (simp add: format_f1_def f_def m_def)
qed

section \<open>Reading a frame\<close>

text \<open>
  A device frame as the gateway prints it: \<open>20;SEQ;PROTOCOL;KEY=VALUE;...;\<close>. The value of a key is
  the last one given for it, and the key is read without regard to case.
\<close>

definition field_text :: "string \<times> string \<Rightarrow> string" where
  "field_text f = fst f @ ''='' @ snd f"

definition sensor_line :: "string \<Rightarrow> string \<Rightarrow> (string \<times> string) list \<Rightarrow> string" where
  "sensor_line sq model fs = join '';'' (''20'' # sq # model # map field_text fs @ [[]])"

definition field_ok :: "string \<times> string \<Rightarrow> bool" where
  "field_ok f = (is_ascii (fst f) \<and> is_ascii (snd f) \<and> fst f \<noteq> [] \<and> trimmed (fst f) \<and> trimmed (snd f) \<and>
     CHR ''='' \<notin> set (fst f) \<and> CHR '';'' \<notin> set (fst f) \<and> CHR '';'' \<notin> set (snd f))"

definition last_value :: "unicode \<Rightarrow> string \<Rightarrow> (string \<times> string) list \<Rightarrow> string option" where
  "last_value U K fs = map_of (rev (map (\<lambda>f. (to_upper U (fst f), snd f)) fs)) K"

definition field_value_ok :: "unicode \<Rightarrow> string \<times> string \<Rightarrow> bool" where
  "field_value_ok U f =
     ((to_upper U (fst f) = ''TEMP'' \<longrightarrow> is_ok (str_to_uint16 (snd f) 16)) \<and>
      (to_upper U (fst f) = ''HUM'' \<longrightarrow> is_ok (str_to_uint16 (snd f) 10)))"

lemma last_value_Nil [simp]: "last_value U K [] = None"
  by (simp add: last_value_def)

lemma last_value_snoc [simp]:
  "last_value U K (fs @ [f]) = (if to_upper U (fst f) = K then Some (snd f) else last_value U K fs)"
  by (simp add: last_value_def)

lemma field_text_trimmed:
  assumes "field_ok f"
  shows "trimmed (field_text f)" and "field_text f \<noteq> []" and "CHR '';'' \<notin> set (field_text f)"
proof -
  have a: "is_ascii (field_text f)"
    using assms by (simp add: field_ok_def field_text_def)
  have "\<not> ascii_space (hd (fst f))"
    using assms trimmed_ends(1) by (simp add: field_ok_def)
  moreover have "\<not> ascii_space (last (field_text f))"
    using assms trimmed_ends(2) [of "snd f"]
    by (simp add: field_ok_def field_text_def ascii_space_def)
  ultimately show "trimmed (field_text f)"
    using assms unfolding trimmed_ascii_iff [OF a]
    by (simp add: field_text_def field_ok_def)
  show "field_text f \<noteq> []" "CHR '';'' \<notin> set (field_text f)"
    using assms by (simp_all add: field_text_def field_ok_def)
qed

lemma parse_piece_field:
  assumes "field_ok f"
  shows "parse_piece U msg (field_text f) sd =
    (if to_upper U (fst f) \<in> set known_field_keys then store_field U (to_upper U (fst f)) (snd f) sd
     else Inr (sd\<lparr>Extra := AList.update (field_topic_name U (to_upper U (fst f))) (snd f) (Extra sd)\<rparr>))"
  using assms field_text_trimmed [OF assms] split_n_2_append [of "CHR ''=''" "fst f" "snd f"]
  by (simp add: parse_piece_def Let_def field_ok_def field_text_def)

lemma parse_pieces_append:
  "parse_pieces U msg (ps @ qs) sd =
    bind_res (parse_pieces U msg ps sd) (parse_pieces U msg qs)"
  by (induction ps arbitrary: sd) (auto split: sum.splits)

lemma parse_pieces_single: "parse_pieces U msg [p] sd = parse_piece U msg p sd"
  by (simp split: sum.splits)

lemma ascii_space_byte_upper: "ascii_space (byte_upper c) \<longleftrightarrow> ascii_space c"
  by (auto simp: ascii_space_def byte_upper_def Let_def of_char_of)

lemma trimmed_to_upper:
  assumes "is_ascii s" and "trimmed s"
  shows "trimmed (to_upper U s)"
  using assms(2) trimmed_ascii_iff [OF assms(1)] trimmed_ascii_iff [OF is_ascii_to_upper [OF assms(1)], of U]
  by (cases "s = []")
    (simp_all add: to_upper_ascii [OF assms(1)] hd_map last_map ascii_space_byte_upper)

lemma to_lower_to_upper:
  assumes "is_ascii s"
  shows "to_upper U (to_lower U (to_upper U s)) = to_upper U s"
proof -
  have "byte_upper (byte_lower (byte_upper c)) = byte_upper c" for c
    by (auto simp: byte_lower_def byte_upper_def Let_def of_char_of char_of_eqI)
  then show ?thesis
    using is_ascii_to_upper [OF assms, of U] is_ascii_to_lower [OF is_ascii_to_upper [OF assms, of U], of U]
    by (simp add: to_upper_ascii to_lower_ascii assms)
qed

lemma store_field_ok:
  assumes "K \<in> set known_field_keys"
  shows "is_ok (store_field U K v sd) \<longleftrightarrow>
    (K = ''TEMP'' \<longrightarrow> is_ok (str_to_uint16 v 16)) \<and> (K = ''HUM'' \<longrightarrow> is_ok (str_to_uint16 v 10))"
  using assms by (auto simp: store_field_def known_field_keys_def split: sum.splits)

lemma parse_pieces_ok:
  assumes "\<forall>f \<in> set fs. field_ok f"
  shows "is_ok (parse_pieces U msg (map field_text fs) sd) \<longleftrightarrow> (\<forall>f \<in> set fs. field_value_ok U f)"
  using assms
proof (induction fs arbitrary: sd)
  case (Cons f fs)
  have "is_ok (parse_piece U msg (field_text f) sd) \<longleftrightarrow> field_value_ok U f"
    using Cons.prems store_field_ok [of "to_upper U (fst f)" U "snd f" sd]
    by (auto simp: parse_piece_field field_value_ok_def known_field_keys_def)
  with Cons show ?case
    by (auto split: sum.splits simp: is_ok_iff)
qed simp


text \<open>The record after the fields \<open>fs\<close>, read from a record with no field set.\<close>

definition reads_extra :: "unicode \<Rightarrow> (string \<times> string) list \<Rightarrow> (string \<times> string) list \<Rightarrow> bool" where
  "reads_extra U fs extra \<longleftrightarrow>
     (\<forall>k. is_ascii k \<longrightarrow> map_of extra (to_lower U (to_upper U k)) =
        (if to_upper U k \<in> set known_field_keys then None else last_value U (to_upper U k) fs))"

definition reads_fields :: "unicode \<Rightarrow> string \<Rightarrow> string \<Rightarrow> (string \<times> string) list \<Rightarrow> sensor_data \<Rightarrow> bool" where
  "reads_fields U now model fs sd \<longleftrightarrow>
     Model sd = model \<and> Timestamp sd = now \<and> ReceivedAt sd = now \<and> FriendlyName sd = [] \<and>
     Id sd = (case last_value U ''ID'' fs of None \<Rightarrow> [] | Some v \<Rightarrow> v) \<and>
     Hwid sd = (case last_value U ''ID'' fs of None \<Rightarrow> [] | Some v \<Rightarrow> to_upper U (model @ ''_'' @ v)) \<and>
     Temperature sd = (case last_value U ''TEMP'' fs of None \<Rightarrow> None
       | Some v \<Rightarrow> (case str_to_uint16 v 16 of Inl e \<Rightarrow> None | Inr t \<Rightarrow> Some (celsius t))) \<and>
     TempRaw sd = (case last_value U ''TEMP'' fs of None \<Rightarrow> [] | Some v \<Rightarrow> v) \<and>
     Humidity sd = (case last_value U ''HUM'' fs of None \<Rightarrow> None
       | Some v \<Rightarrow> (case str_to_uint16 v 10 of Inl e \<Rightarrow> None | Inr h \<Rightarrow> Some h)) \<and>
     Bat sd = (case last_value U ''BAT'' fs of None \<Rightarrow> [] | Some v \<Rightarrow> v) \<and>
     Switch sd = (case last_value U ''SWITCH'' fs of None \<Rightarrow> [] | Some v \<Rightarrow> v) \<and>
     Cmd sd = (case last_value U ''CMD'' fs of None \<Rightarrow> [] | Some v \<Rightarrow> v) \<and>
     reads_extra U fs (Extra sd)"

lemma reads_fields_Nil: "reads_fields U now model [] (new_sensor model now)"
  by (simp add: reads_fields_def reads_extra_def new_sensor_def)

lemma extra_key:
  assumes "field_ok f"
  shows "field_topic_name U (to_upper U (fst f)) = to_lower U (to_upper U (fst f))"
  using assms trimmed_to_upper by (simp add: field_topic_name_def field_ok_def)

lemma lower_upper_inject:
  assumes "is_ascii j" and "is_ascii k"
  shows "to_lower U (to_upper U j) = to_lower U (to_upper U k) \<longleftrightarrow> to_upper U j = to_upper U k"
  using to_lower_to_upper assms by metis

lemma reads_fields_extra:
  assumes "reads_fields U now model fs sd" and "field_ok f" and "to_upper U (fst f) \<notin> set known_field_keys"
  shows "reads_fields U now model (fs @ [f])
    (sd\<lparr>Extra := AList.update (field_topic_name U (to_upper U (fst f))) (snd f) (Extra sd)\<rparr>)"
proof -
  have "is_ascii (fst f)" using assms(2) by (simp add: field_ok_def)
  moreover have "to_upper U (fst f) \<noteq> K" if "K \<in> set known_field_keys" for K
    using assms(3) that by blast
  note ne = this [of "''ID''"] this [of "''TEMP''"] this [of "''HUM''"] this [of "''BAT''"]
    this [of "''SWITCH''"] this [of "''CMD''"]
  ultimately show ?thesis
    using assms(1,3) ne unfolding extra_key [OF assms(2)]
    by (auto simp: reads_fields_def reads_extra_def update_conv' lower_upper_inject known_field_keys_def)
qed

lemma reads_extra_known_key:
  "reads_extra U fs extra \<Longrightarrow> is_ascii k \<Longrightarrow> to_upper U k \<in> set known_field_keys \<Longrightarrow>
    map_of extra (to_lower U (to_upper U k)) = None"
  unfolding reads_extra_def by (drule spec [of _ k]) simp

lemma reads_extra_known:
  assumes "reads_extra U fs extra" and "to_upper U (fst f) \<in> set known_field_keys"
  shows "reads_extra U (fs @ [f]) extra"
  using assms by (auto simp: reads_extra_def)

lemma reads_fields_store:
  assumes "reads_fields U now model fs sd" and "to_upper U (fst f) \<in> set known_field_keys"
    and "store_field U (to_upper U (fst f)) (snd f) sd = Inr sd'"
  shows "reads_fields U now model (fs @ [f]) sd'"
proof -
  note r = assms(1) [unfolded reads_fields_def]
  have x: "reads_extra U (fs @ [f]) (Extra sd)"
    using r assms(2) by (intro reads_extra_known) simp_all
  consider "to_upper U (fst f) = ''ID''" | "to_upper U (fst f) = ''TEMP''" | "to_upper U (fst f) = ''HUM''"
    | "to_upper U (fst f) = ''BAT''" | "to_upper U (fst f) = ''SWITCH''" | "to_upper U (fst f) = ''CMD''"
    using assms(2) unfolding known_field_keys_def by auto
  then show ?thesis
  proof cases
    case 2
    then obtain t where t: "str_to_uint16 (snd f) 16 = Inr t"
      using assms(3) by (auto simp: store_field_def split: sum.splits)
    then have "sd' = sd\<lparr>TempRaw := snd f, Temperature := Some (celsius t)\<rparr>"
      using 2 assms(3) by (simp add: store_field_def)
    then show ?thesis using r x 2 t by (simp add: reads_fields_def)
  next
    case 3
    then obtain h where h: "str_to_uint16 (snd f) 10 = Inr h"
      using assms(3) by (auto simp: store_field_def split: sum.splits)
    then have "sd' = sd\<lparr>Humidity := Some h\<rparr>"
      using 3 assms(3) by (simp add: store_field_def)
    then show ?thesis using r x 3 h by (simp add: reads_fields_def)
  qed (use r x assms(3) in \<open>simp add: reads_fields_def store_field_def, hypsubst, simp\<close>)+
qed

lemma parse_pieces_reads:
  assumes "\<forall>f \<in> set fs. field_ok f"
    and "parse_pieces U msg (map field_text fs) (new_sensor model now) = Inr sd"
  shows "reads_fields U now model fs sd"
  using assms
proof (induction fs arbitrary: sd rule: rev_induct)
  case Nil
  then show ?case by (auto simp: reads_fields_Nil)
next
  case (snoc f fs)
  then obtain sd1 where p: "parse_pieces U msg (map field_text fs) (new_sensor model now) = Inr sd1"
    and s: "parse_piece U msg (field_text f) sd1 = Inr sd"
    by (auto simp: parse_pieces_append parse_pieces_single bind_res_Inr_iff simp del: parse_pieces.simps)
  have r: "reads_fields U now model fs sd1" and f: "field_ok f"
    using snoc p by auto
  show ?case
    using s parse_piece_field [OF f, of U msg sd1] reads_fields_store [OF r, of f sd]
      reads_fields_extra [OF r f]
    by (cases "to_upper U (fst f) \<in> set known_field_keys") auto
qed


lemma sensor_line_pieces:
  assumes "CHR '';'' \<notin> set sq" and "CHR '';'' \<notin> set model" and "\<forall>f \<in> set fs. field_ok f"
  shows "split_on (CHR '';'') (sensor_line sq model fs) = ''20'' # sq # model # map field_text fs @ [[]]"
  unfolding sensor_line_def
  using assms field_text_trimmed(3) by (intro split_on_join) auto

lemma last_join_Nil: "ps \<noteq> [] \<Longrightarrow> join [c] (ps @ [[]]) \<noteq> [] \<and> last (join [c] (ps @ [[]])) = c"
  by (induction ps rule: induct_list012) auto

lemma sensor_line_trimmed: "trimmed (sensor_line sq model fs)"
proof -
  have l: "sensor_line sq model fs = CHR ''2'' # CHR ''0'' # CHR '';'' # join '';'' (sq # model # map field_text fs @ [[]])"
    by (simp add: sensor_line_def)
  have "last (sensor_line sq model fs) = CHR '';''"
    using last_join_Nil [of "''20'' # sq # model # map field_text fs" "CHR '';''"]
    by (simp add: sensor_line_def)
  then show ?thesis
    by (intro trimmedI) (simp_all add: l ascii_space_def)
qed

lemma parse_piece_Nil: "parse_piece U msg [] sd = Inr sd"
  by (simp add: parse_piece_def)

lemma sensor_line_read:
  assumes "CHR '';'' \<notin> set sq" and "CHR '';'' \<notin> set model" and "\<forall>f \<in> set fs. field_ok f"
  shows "sensor_data_from_message U now (sensor_line sq model fs) =
    bind_res (parse_pieces U (sensor_line sq model fs) (map field_text fs)
        (new_sensor (replace_all (trim_space model) '' '' ''_'') now))
      (\<lambda>sd. if Id sd = [] then Inl NoSensorID else Inr sd)"
proof -
  let ?l = "sensor_line sq model fs"
  have n: "?l \<noteq> []" by (simp add: sensor_line_def)
  have p: "parse_pieces U ?l (map field_text fs @ [[]]) sd = parse_pieces U ?l (map field_text fs) sd" for sd
    by (cases "parse_pieces U ?l (map field_text fs) sd")
      (simp_all add: parse_pieces_append parse_piece_Nil)
  show ?thesis
    using n sensor_line_pieces [OF assms] p
    by (simp add: sensor_data_from_message_def sensor_line_trimmed del: parse_pieces.simps)
qed

text \<open>Which frames are accepted.\<close>

lemma sensor_line_accepted:
  assumes "CHR '';'' \<notin> set sq" and "CHR '';'' \<notin> set model" and f: "\<forall>f \<in> set fs. field_ok f"
  shows "is_ok (sensor_data_from_message U now (sensor_line sq model fs)) \<longleftrightarrow>
    (\<forall>f \<in> set fs. field_value_ok U f) \<and> (\<exists>v. v \<noteq> [] \<and> last_value U ''ID'' fs = Some v)"
proof -
  let ?m = "replace_all (trim_space model) '' '' ''_''"
  let ?p = "parse_pieces U (sensor_line sq model fs) (map field_text fs) (new_sensor ?m now)"
  have i: "Id sd = [] \<longleftrightarrow> \<not> (\<exists>v. v \<noteq> [] \<and> last_value U ''ID'' fs = Some v)" if "?p = Inr sd" for sd
    using parse_pieces_reads [OF f that] by (auto simp: reads_fields_def split: option.splits)
  show ?thesis
    using i parse_pieces_ok [OF f, of U "sensor_line sq model fs" "new_sensor ?m now"]
    unfolding sensor_line_read [OF assms] by (cases ?p) auto
qed

lemma sensor_line_reads:
  assumes "CHR '';'' \<notin> set sq" and "CHR '';'' \<notin> set model" and "\<forall>f \<in> set fs. field_ok f"
    and "sensor_data_from_message U now (sensor_line sq model fs) = Inr sd"
  shows "reads_fields U now (replace_all (trim_space model) '' '' ''_'') fs sd"
  using assms(4) parse_pieces_reads [OF assms(3)] unfolding sensor_line_read [OF assms(1-3)]
  by (auto simp: bind_res_Inr_iff split: if_splits)

section \<open>Every accepted message\<close>

text \<open>What holds of a sensor read from any line, well formed or not.\<close>

definition sensor_wf :: "unicode \<Rightarrow> sensor_data \<Rightarrow> bool" where
  "sensor_wf U sd \<longleftrightarrow>
     (Id sd = [] \<and> Hwid sd = [] \<or> Hwid sd = to_upper U (Model sd @ ''_'' @ Id sd)) \<and>
     distinct (map fst (Extra sd)) \<and>
     Temperature sd = (case str_to_uint16 (TempRaw sd) 16 of Inl e \<Rightarrow> None | Inr t \<Rightarrow> Some (celsius t))"

lemma sensor_wf_new: "sensor_wf U (new_sensor model now)"
  by (simp add: sensor_wf_def new_sensor_def str_to_uint16_def parse_uint_def)

lemma store_field_wf:
  "sensor_wf U sd \<Longrightarrow> store_field U key v sd = Inr sd' \<Longrightarrow> sensor_wf U sd'"
  by (auto simp: sensor_wf_def store_field_def split: if_splits sum.splits)

lemma parse_piece_wf:
  assumes "sensor_wf U sd" and "parse_piece U msg p sd = Inr sd'"
  shows "sensor_wf U sd'"
  using assms store_field_wf [OF assms(1)] distinct_update [of "Extra sd"]
  by (auto simp: parse_piece_def Let_def sensor_wf_def split: if_splits list.splits)

lemma parse_pieces_wf:
  "sensor_wf U sd \<Longrightarrow> parse_pieces U msg ps sd = Inr sd' \<Longrightarrow> sensor_wf U sd'"
  by (induction ps arbitrary: sd) (auto split: sum.splits dest: parse_piece_wf)

lemma sensor_message_wf:
  assumes "sensor_data_from_message U now msg = Inr sd"
  shows "sensor_wf U sd" and "Id sd \<noteq> []"
  using assms parse_pieces_wf [OF sensor_wf_new]
  by (auto simp: sensor_data_from_message_def Let_def bind_res_Inr_iff split: if_splits)

section \<open>Gateway replies and device frames\<close>

lemma join_infix: "p \<in> set ps \<Longrightarrow> \<exists>u v. join sep ps = u @ p @ v"
proof (induction ps rule: induct_list012)
  case (3 q r ps)
  show ?case
  proof (cases "p = q")
    case True
    then show ?thesis by (intro exI [of _ "[]"] exI [of _ "sep @ join sep (r # ps)"]) simp
  next
    case False
    then obtain u v where "join sep (r # ps) = u @ p @ v" using 3 by auto
    then show ?thesis
      by (intro exI [of _ "q @ sep @ u"] exI [of _ v]) simp
  qed
next
  case (2 q)
  then show ?case by (intro exI [of _ "[]"] exI [of _ "[]"]) simp
qed simp

lemma is_ascii_join: "is_ascii sep \<Longrightarrow> \<forall>p \<in> set ps. is_ascii p \<Longrightarrow> is_ascii (join sep ps)"
  by (induction sep ps rule: join.induct) auto

lemma field_text_ascii: "field_ok f \<Longrightarrow> is_ascii (field_text f)"
  by (simp add: field_ok_def field_text_def)

lemma field_infix:
  assumes "f \<in> set fs"
  shows "\<exists>u v. sensor_line sq model fs = u @ fst f @ ''='' @ v"
proof -
  have "field_text f \<in> set (''20'' # sq # model # map field_text fs @ [[]])"
    using assms by simp
  then obtain u v where "sensor_line sq model fs = u @ field_text f @ v"
    unfolding sensor_line_def using join_infix by blast
  then show ?thesis
    by (intro exI [of _ u] exI [of _ "snd f @ v"]) (simp add: field_text_def)
qed

lemma sensor_line_ascii:
  assumes "is_ascii sq" and "is_ascii model" and "\<forall>f \<in> set fs. field_ok f"
  shows "is_ascii (sensor_line sq model fs)"
  unfolding sensor_line_def using assms field_text_ascii by (intro is_ascii_join) auto

lemma device_not_gateway:
  assumes "is_ascii sq" and "is_ascii model" and f: "\<forall>f \<in> set fs. field_ok f"
    and i: "last_value U ''ID'' fs \<noteq> None"
  shows "parse_gateway_message U now (sensor_line sq model fs) = None"
proof -
  note a = sensor_line_ascii [OF assms(1-3)]
  obtain g where g: "g \<in> set fs" "to_upper U (fst g) = ''ID''"
    using i by (force simp: last_value_def dest: map_of_SomeD)
  have e: "map byte_upper (fst g) = ''ID''"
    using g f by (simp add: to_upper_ascii field_ok_def)
  obtain u v where uv: "sensor_line sq model fs = u @ fst g @ ''='' @ v"
    using field_infix [OF g(1)] by blast
  have "to_upper U (sensor_line sq model fs) = map byte_upper u @ ''ID='' @ map byte_upper v"
    unfolding to_upper_ascii [OF a] unfolding uv by (simp add: e byte_upper_def)
  then have "str_contains (to_upper U (sensor_line sq model fs)) ''ID=''"
    unfolding str_contains_iff by blast
  then show ?thesis
    by (simp add: parse_gateway_message_def sensor_line_trimmed Let_def)
qed

definition pong_line :: "string \<Rightarrow> string" where
  "pong_line sq = ''20;'' @ sq @ '';PONG;''"

lemma no_equals_upper:
  assumes "is_ascii s" and "CHR ''='' \<notin> set s"
  shows "CHR ''='' \<notin> set (to_upper U s)"
proof
  assume "CHR ''='' \<in> set (to_upper U s)"
  then obtain c where c: "c \<in> set s" "byte_upper c = CHR ''=''"
    using assms(1) by (auto simp: to_upper_ascii)
  then have "byte (byte_upper c) = (61 :: nat)" by simp
  then have "byte c = (61 :: nat)" by (simp split: if_splits)
  then have "c = CHR ''=''" by (intro char_eq_byteI) simp
  then show False using c assms(2) by simp
qed

lemma gateway_piece_plain:
  assumes "CHR ''='' \<notin> set p"
  shows "gateway_piece U p st =
    (if trim_space p \<noteq> [] \<and> to_upper U (trim_space p) = ''PONG'' then ((fst st)\<lparr>gw_Pong := True\<rparr>, snd st) else st)"
proof -
  have "\<not> str_contains (trim_space p) ''=''"
    using assms set_trim_space [of p] by (auto simp: str_contains_single)
  then show ?thesis by (simp add: gateway_piece_def Let_def)
qed

lemma pong_line_parts:
  assumes "CHR '';'' \<notin> set sq"
  shows "split_on (CHR '';'') (pong_line sq) = [''20'', sq, ''PONG'', []]"
proof -
  have "pong_line sq = join '';'' [''20'', sq, ''PONG'', []]"
    by (simp add: pong_line_def)
  then show ?thesis using split_on_join [of "[''20'', sq, ''PONG'', []]" "CHR '';''"] assms by simp
qed

lemma pong_recognised:
  assumes "is_ascii sq" and "CHR '';'' \<notin> set sq" and "CHR ''='' \<notin> set sq"
  shows "\<exists>info. parse_gateway_message U now (pong_line sq) = Some info \<and> gw_Pong info"
proof -
  have al: "is_ascii (pong_line sq)" using assms by (simp add: pong_line_def)
  have t: "trimmed (pong_line sq)"
    by (intro trimmedI) (simp_all add: pong_line_def ascii_space_def)
  have "CHR ''='' \<notin> set (to_upper U (pong_line sq))"
    by (rule no_equals_upper [OF al]) (simp add: pong_line_def assms)
  then have i: "\<not> str_contains (to_upper U (pong_line sq)) ''ID=''"
    by (auto simp: str_contains_iff)
  have p: "has_prefix (pong_line sq) ''20;''" "pong_line sq \<noteq> []"
    by (simp_all add: pong_line_def has_prefix_Cons)
  have u: "to_upper U ''PONG'' = ''PONG''" by (simp add: to_upper_ascii byte_upper_def)
  have tp: "trim_space ''PONG'' = ''PONG''" by (intro trim_space_trimmed trimmedI) (simp_all add: ascii_space_def)
  have g: "gw_Pong (fst (gateway_piece U ''PONG'' st))" for st
    using tp u by (simp add: gateway_piece_plain)
  show ?thesis
    using g p t i pong_line_parts [OF assms(2)]
    by (simp add: parse_gateway_message_def Let_def split_beta gateway_piece_plain [of "[]"])
qed

section \<open>Published fields as a map\<close>

lemma map_of_fold_add_extra:
  assumes "distinct (map fst extra)"
  shows "map_of (fold add_extra extra base) k =
    (case map_of extra k of Some v \<Rightarrow> if v = [] then map_of base k else Some v | None \<Rightarrow> map_of base k)"
  using assms
proof (induction extra arbitrary: base)
  case (Cons e extra)
  have "map_of extra (fst e) = None"
    using Cons.prems by (simp add: map_of_eq_None_iff)
  then show ?case
    using Cons by (cases e) (auto simp: add_extra_def update_conv' split: option.splits)
qed simp

lemma fields_for_publish_lookup:
  assumes "distinct (map fst (Extra sd))"
  shows "map_of (fields_for_publish U unit sd) k =
    (case map_of (Extra sd) k of
       Some v \<Rightarrow> if v = [] then map_of (base_fields U unit sd) k else Some v
     | None \<Rightarrow> map_of (base_fields U unit sd) k)"
  unfolding fields_for_publish_def by (rule map_of_fold_add_extra [OF assms])

lemma temp_field_keys: "fst ` set (temp_field U unit sd) \<subseteq> {''temp''}"
  by (auto simp: temp_field_def Let_def split: if_splits option.splits)

lemma base_fields_keys: "distinct (map fst (base_fields U unit sd))"
proof -
  have "map fst (temp_field U unit sd) = [] \<or> map fst (temp_field U unit sd) = [''temp'']"
    by (simp add: temp_field_def Let_def split: option.splits)
  then show ?thesis
    by (auto simp: base_fields_def switch_fields_def split: option.splits)
qed

lemma fields_for_publish_keys: "distinct (map fst (fields_for_publish U unit sd))"
proof -
  have "distinct (map fst base) \<Longrightarrow> distinct (map fst (fold add_extra extra base))" for extra base
    by (induction extra arbitrary: base) (auto simp: add_extra_def distinct_update)
  then show ?thesis
    by (simp add: fields_for_publish_def base_fields_keys)
qed

lemma base_temp_lookup: "map_of (base_fields U unit sd) ''temp'' = map_of (temp_field U unit sd) ''temp''"
  by (auto simp: base_fields_def switch_fields_def map_add_def split: option.splits)

lemma units_upper: "to_upper U ''C'' = ''C''" "to_upper U ''F'' = ''F''" "to_upper U ''RAW'' = ''RAW''"
  by (simp_all add: to_upper_ascii byte_upper_def)

lemma published_temperature:
  assumes s: "CHR '';'' \<notin> set sq" "CHR '';'' \<notin> set model" "\<forall>f \<in> set fs. field_ok f"
    and m: "sensor_data_from_message U now (sensor_line sq model fs) = Inr sd"
    and t: "last_value U ''TEMP'' fs = Some v" "str_to_uint16 v 16 = Inr t"
  shows "map_of (fields_for_publish U ''C'' sd) ''temp'' = Some (show_tenths (unat t))"
    and "map_of (fields_for_publish U ''F'' sd) ''temp'' = Some (show_tenths ((18 * unat t + 3205) div 10))"
proof -
  have r: "reads_fields U now (replace_all (trim_space model) '' '' ''_'') fs sd"
    by (rule sensor_line_reads [OF s m])
  have T: "Temperature sd = Some (tenths (unat t))"
    using r t by (simp add: reads_fields_def celsius_tenths)
  have u: "to_upper U ''TEMP'' = ''TEMP''" "to_lower U ''TEMP'' = ''temp''"
    by (simp_all add: to_upper_ascii to_lower_ascii) code_simp+
  have "reads_extra U fs (Extra sd)" using r by (simp add: reads_fields_def)
  then have "map_of (Extra sd) (to_lower U (to_upper U ''TEMP'')) = None"
    by (rule reads_extra_known_key) (simp_all add: u(1) known_field_keys_def)
  then have e: "map_of (Extra sd) ''temp'' = None" by (simp only: u)
  have d: "distinct (map fst (Extra sd))"
    using sensor_message_wf(1) [OF m] by (simp add: sensor_wf_def)
  show "map_of (fields_for_publish U ''C'' sd) ''temp'' = Some (show_tenths (unat t))"
    and "map_of (fields_for_publish U ''F'' sd) ''temp'' = Some (show_tenths ((18 * unat t + 3205) div 10))"
    using unat16_le [of t] T
    by (simp_all add: fields_for_publish_lookup [OF d] e base_temp_lookup temp_field_def units_upper
        format_tenths format_fahrenheit)
qed

text \<open>A record without event fields publishes an event topic only if a further field has that name.\<close>

definition event_field :: "string \<Rightarrow> bool" where
  "event_field k = (k = ''cmd'' \<or> k = ''switch'' \<or> has_prefix k ''sw_'')"

lemma stripped_base_no_event:
  "(k, v) \<in> set (base_fields U unit (strip_event_fields sd)) \<Longrightarrow> \<not> event_field k"
  using temp_field_keys [of U unit "strip_event_fields sd"]
  by (auto simp: base_fields_def strip_event_fields_def switch_fields_def event_field_def has_prefix_def
      image_subset_iff split: option.splits if_splits)

lemma strip_event_fields_simps [simp]:
  "Cmd (strip_event_fields sd) = []" "Switch (strip_event_fields sd) = []"
  "Extra (strip_event_fields sd) = Extra sd" "Temperature (strip_event_fields sd) = Temperature sd"
  "Humidity (strip_event_fields sd) = Humidity sd" "Bat (strip_event_fields sd) = Bat sd"
  "Hwid (strip_event_fields sd) = Hwid sd" "Id (strip_event_fields sd) = Id sd"
  "Model (strip_event_fields sd) = Model sd" "TempRaw (strip_event_fields sd) = TempRaw sd"
  "FriendlyName (strip_event_fields sd) = FriendlyName sd"
  by (simp_all add: strip_event_fields_def)

lemma topic_id_strip [simp]: "topic_id (strip_event_fields sd) = topic_id sd"
  by (simp add: topic_id_def)

section \<open>Properties\<close>

text \<open>
  C21: A device frame is accepted exactly if its temperature and humidity values parse and the last
  \<open>ID\<close> given is not empty; no other field, known or not, can make it fail.
\<close>

theorem frame_accepted_iff:
  assumes "CHR '';'' \<notin> set sq" and "CHR '';'' \<notin> set model" and "\<forall>f \<in> set fs. field_ok f"
  shows "is_ok (sensor_data_from_message U now (sensor_line sq model fs)) \<longleftrightarrow>
    (\<forall>f \<in> set fs. field_value_ok U f) \<and> (\<exists>v. v \<noteq> [] \<and> last_value U ''ID'' fs = Some v)"
  by (rule sensor_line_accepted [OF assms])

definition sample_fields :: "(string \<times> string) list" where
  "sample_fields = [(''ID'', ''4f''), (''TEMP'', ''00d3''), (''hum'', ''46''), (''RAIN'', ''00a1''), (''Temp'', ''00dc'')]"

lemma sample_fields_ok: "\<forall>f \<in> set sample_fields. field_ok f"
  by code_simp

lemma sample_fields_facts:
  "CHR '';'' \<notin> set ''2D''" "CHR '';'' \<notin> set ''Oregon TempHygro''" "CHR ''='' \<notin> set ''2D''"
  "is_ascii ''2D''" "is_ascii ''Oregon TempHygro''"
  "last_value ascii_tables ''ID'' sample_fields = Some ''4f''"
  "last_value ascii_tables ''TEMP'' sample_fields = Some ''00dc''"
  "last_value ascii_tables ''HUM'' sample_fields = Some ''46''"
  by code_simp+

lemma sample_readings:
  "str_to_uint16 ''00d3'' 16 = Inr 211" "str_to_uint16 ''00dc'' 16 = Inr 220" "str_to_uint16 ''46'' 10 = Inr 46"
  by (simp_all add: str_to_uint16_def parse_uint_def digit_value_def)

lemma sample_keys: "map (\<lambda>f. to_upper ascii_tables (fst f)) sample_fields = [''ID'', ''TEMP'', ''HUM'', ''RAIN'', ''TEMP'']"
  by code_simp

lemma sample_values_ok: "\<forall>f \<in> set sample_fields. field_value_ok ascii_tables f"
  using sample_keys by (simp add: sample_fields_def field_value_ok_def sample_readings)

lemma frame_accepted_iff_witness:
  "is_ok (sensor_data_from_message ascii_tables ''t0'' (sensor_line ''2D'' ''Oregon TempHygro'' sample_fields)) \<and>
   \<not> is_ok (sensor_data_from_message ascii_tables ''t0'' (sensor_line ''2D'' ''Oregon TempHygro'' [(''TEMP'', ''00d3'')]))"
proof -
  have "\<forall>f \<in> set [(''TEMP'', ''00d3'')]. field_ok f" by code_simp
  moreover have "last_value ascii_tables ''ID'' [(''TEMP'', ''00d3'')] = None"
    by code_simp
  ultimately show ?thesis
    using frame_accepted_iff [OF sample_fields_facts(1,2)] sample_fields_ok sample_values_ok
      sample_fields_facts(6)
    by simp
qed

text \<open>
  C20: An accepted frame yields exactly what its fields say: each known key has the last value given
  for it whatever its case, a temperature is the tenth of its hexadecimal reading, the hardware id is
  the upper case of model and id, and a further key is kept under its lower-case name.
\<close>

theorem frame_fields_read:
  assumes "CHR '';'' \<notin> set sq" and "CHR '';'' \<notin> set model" and "\<forall>f \<in> set fs. field_ok f"
    and "sensor_data_from_message U now (sensor_line sq model fs) = Inr sd"
  shows "reads_fields U now (replace_all (trim_space model) '' '' ''_'') fs sd"
  by (rule sensor_line_reads [OF assms])

definition sample_sensor :: sensor_data where
  "sample_sensor =
     (case sensor_data_from_message ascii_tables ''t0'' (sensor_line ''2D'' ''Oregon TempHygro'' sample_fields) of
        Inr sd \<Rightarrow> sd | Inl _ \<Rightarrow> new_sensor [] [])"

lemma sample_sensor_read:
  "sensor_data_from_message ascii_tables ''t0'' (sensor_line ''2D'' ''Oregon TempHygro'' sample_fields) = Inr sample_sensor"
proof -
  have "is_ok (sensor_data_from_message ascii_tables ''t0'' (sensor_line ''2D'' ''Oregon TempHygro'' sample_fields))"
    using sensor_line_accepted [OF sample_fields_facts(1,2) sample_fields_ok] sample_values_ok
      sample_fields_facts(6) by simp
  then show ?thesis by (auto simp: is_ok_iff sample_sensor_def)
qed

lemma frame_fields_read_witness:
  "Id sample_sensor = ''4f'' \<and> TempRaw sample_sensor = ''00dc'' \<and> Humidity sample_sensor = Some 46 \<and>
   Temperature sample_sensor = Some (celsius 220)"
  using frame_fields_read [OF sample_fields_facts(1,2) sample_fields_ok sample_sensor_read]
  by (simp add: reads_fields_def sample_fields_facts sample_readings)

text \<open>
  C19: The published temperature is exact to the printed decimal for all 65536 readings, in Celsius
  and in Fahrenheit (rounded to the nearest tenth), in spite of the roundings of \<open>float32\<close> and
  \<open>float64\<close> on the way.
\<close>

theorem temperature_published_exactly:
  assumes "CHR '';'' \<notin> set sq" and "CHR '';'' \<notin> set model" and "\<forall>f \<in> set fs. field_ok f"
    and "sensor_data_from_message U now (sensor_line sq model fs) = Inr sd"
    and "last_value U ''TEMP'' fs = Some v" and "str_to_uint16 v 16 = Inr t"
  shows "map_of (fields_for_publish U ''C'' sd) ''temp'' = Some (show_tenths (unat t)) \<and>
    map_of (fields_for_publish U ''F'' sd) ''temp'' = Some (show_tenths ((18 * unat t + 3205) div 10))"
  using published_temperature [OF assms] by blast

lemma temperature_published_exactly_witness:
  "map_of (fields_for_publish ascii_tables ''C'' sample_sensor) ''temp'' = Some ''22.0'' \<and>
   map_of (fields_for_publish ascii_tables ''F'' sample_sensor) ''temp'' = Some ''71.6''"
proof -
  have u: "unat (220 :: 16 word) = 220" by simp
  have s: "show_tenths 220 = ''22.0''" "show_tenths ((18 * 220 + 3205) div 10) = ''71.6''" by code_simp+
  show ?thesis
    using temperature_published_exactly [OF sample_fields_facts(1,2) sample_fields_ok sample_sensor_read
        sample_fields_facts(7) sample_readings(2)]
    unfolding u s .
qed

text \<open>
  C22: Sensor frames and gateway replies do not mix: an ASCII frame with an \<open>ID\<close> field is never taken
  for a gateway reply, and the reply to a ping is always recognised as one.
\<close>

theorem gateway_replies_apart:
  assumes "is_ascii sq" and "is_ascii model" and "\<forall>f \<in> set fs. field_ok f" and "last_value U ''ID'' fs \<noteq> None"
    and "CHR '';'' \<notin> set sq" and "CHR ''='' \<notin> set sq"
  shows "parse_gateway_message U now (sensor_line sq model fs) = None \<and>
    (\<exists>info. parse_gateway_message U now (pong_line sq) = Some info \<and> gw_Pong info)"
  using device_not_gateway [OF assms(1-4)] pong_recognised [OF assms(1,5,6)] by blast

lemma gateway_replies_apart_witness:
  "parse_gateway_message ascii_tables ''t0'' (sensor_line ''2D'' ''Oregon TempHygro'' sample_fields) = None \<and>
   (\<exists>info. parse_gateway_message ascii_tables ''t0'' ''20;2D;PONG;'' = Some info \<and> gw_Pong info)"
proof -
  have p: "''20;2D;PONG;'' = pong_line ''2D''" by (simp add: pong_line_def)
  have l: "last_value ascii_tables ''ID'' sample_fields \<noteq> None" by (simp add: sample_fields_facts)
  show ?thesis
    unfolding p
    by (rule gateway_replies_apart [OF sample_fields_facts(4,5) sample_fields_ok l sample_fields_facts(1,3)])
qed

text \<open>
  Every accepted line, well formed or not, gives a sensor with a non-empty id, the hardware id
  made of model and id, further fields under distinct names, and a temperature that is the one its
  raw text denotes.
\<close>

lemma accepted_sensor_wf:
  assumes "sensor_data_from_message U now msg = Inr sd"
  shows "sensor_wf U sd \<and> Id sd \<noteq> [] \<and> distinct (map fst (fields_for_publish U unit sd))"
  using sensor_message_wf [OF assms] fields_for_publish_keys by blast

lemma accepted_sensor_wf_witness:
  "sensor_wf ascii_tables sample_sensor \<and> Id sample_sensor \<noteq> [] \<and>
   distinct (map fst (fields_for_publish ascii_tables ''C'' sample_sensor))"
  by (rule accepted_sensor_wf [OF sample_sensor_read])

end
