(* ===== verification/Ring.thy ===== *)
theory Ring
  imports GoBase
begin

text \<open>
  The bounded logs of the publisher (recent serial lines, recent sensor samples): a slice that grows
  up to its capacity and then drops its oldest entry. The interface \<open>bounded_log\<close> is what a reader
  of such a log relies on.
\<close>

text \<open>
  \<open>copy(xs, xs[1:])\<close> moves every entry one place to the left and leaves the last one where it is; then
  the last place is overwritten.
\<close>

definition shift_left :: "'a list \<Rightarrow> 'a list" where
  "shift_left xs = tl xs @ [last xs]"

definition ring_push :: "int \<Rightarrow> 'a \<Rightarrow> 'a list \<Rightarrow> 'a list" where
  "ring_push cap e xs =
     (if cap \<le> int (length xs) then (shift_left xs)[length xs - 1 := e] else xs @ [e])"

lemma ring_push_full:
  assumes "xs \<noteq> []" and "cap \<le> int (length xs)"
  shows "ring_push cap e xs = tl xs @ [e]"
proof -
  have "length xs - 1 = length (tl xs)" by simp
  then show ?thesis
    using assms by (simp add: ring_push_def shift_left_def del: length_tl)
qed

lemma ring_push_full_nat:
  "0 < cap \<Longrightarrow> length xs = nat cap \<Longrightarrow> ring_push cap e xs = tl xs @ [e]"
  by (intro ring_push_full) auto

lemma ring_push_room: "int (length xs) < cap \<Longrightarrow> ring_push cap e xs = xs @ [e]"
  by (simp add: ring_push_def)

text \<open>The last \<open>n\<close> elements.\<close>

definition last_n :: "nat \<Rightarrow> 'a list \<Rightarrow> 'a list" where
  "last_n n xs = drop (length xs - n) xs"

lemma last_n_short: "length xs \<le> n \<Longrightarrow> last_n n xs = xs"
  by (simp add: last_n_def)

lemma length_last_n: "length (last_n n xs) = min n (length xs)"
  by (simp add: last_n_def)

lemma last_n_snoc:
  assumes "0 < n"
  shows "last_n n (last_n n xs @ [e]) = last_n n (xs @ [e])"
proof (cases "length xs \<le> n")
  case False
  then obtain u v where uv: "xs = u @ v" "length v = n"
    by (metis append_take_drop_id diff_diff_cancel length_drop nat_le_linear)
  then show ?thesis using assms by (simp add: last_n_def)
qed (simp add: last_n_short)

locale bounded_log =
  fixes push :: "'e \<Rightarrow> 's \<Rightarrow> 's" and seen_as :: "'e \<Rightarrow> 'o" and entries :: "'s \<Rightarrow> 'o list"
    and capacity :: "'s \<Rightarrow> nat"
  assumes push_room: "length (entries s) < capacity s \<Longrightarrow> entries (push e s) = entries s @ [seen_as e]"
    and push_full: "0 < capacity s \<Longrightarrow> length (entries s) = capacity s \<Longrightarrow> entries (push e s) = tl (entries s) @ [seen_as e]"
    and push_capacity: "capacity (push e s) = capacity s"
begin

definition log_ok :: "'s \<Rightarrow> bool" where
  "log_ok s \<longleftrightarrow> 0 < capacity s \<and> length (entries s) \<le> capacity s"

lemma push_entries:
  assumes "log_ok s"
  shows "entries (push e s) = last_n (capacity s) (entries s @ [seen_as e])"
proof (cases "length (entries s) < capacity s")
  case True
  then show ?thesis by (simp add: push_room last_n_short)
next
  case False
  then have l: "length (entries s) = capacity s" "entries s \<noteq> []"
    using assms by (auto simp: log_ok_def)
  then show ?thesis
    using assms push_full [of s e] by (cases "entries s") (auto simp: log_ok_def last_n_def)
qed

lemma push_log_ok: "log_ok s \<Longrightarrow> log_ok (push e s)"
  using push_entries [of s e] by (simp add: log_ok_def push_capacity length_last_n)

lemma push_all:
  assumes "log_ok s"
  shows "log_ok (fold push es s) \<and> capacity (fold push es s) = capacity s \<and>
    entries (fold push es s) = last_n (capacity s) (entries s @ map seen_as es)"
proof (induction es rule: rev_induct)
  case Nil
  then show ?case using assms by (simp add: log_ok_def last_n_short)
next
  case (snoc e es)
  let ?s = "fold push es s"
  have w: "log_ok ?s" and c: "capacity ?s = capacity s"
    and e: "entries ?s = last_n (capacity s) (entries s @ map seen_as es)"
    using snoc.IH by auto
  have "0 < capacity s" using assms by (simp add: log_ok_def)
  then have "entries (push e ?s) = last_n (capacity s) (entries s @ map seen_as es @ [seen_as e])"
    using push_entries [OF w, of e] last_n_snoc [of "capacity s" "entries s @ map seen_as es" "seen_as e"] unfolding c e by simp
  then show ?case
    using push_log_ok [OF w] c push_capacity by simp
qed

end

end
