(* ===== verification/PubState.thy ===== *)
theory PubState
  imports SensorData Ring
begin

text \<open>
  The state of \<open>Publisher\<close> (\<open>rflink/publisher.go\<close>) and the operations that the rest of it is built
  from: publishing one MQTT message, topics, duplicate suppression, the PING watchdog, the recent
  lines and samples, and the notes that other parts leave. Every operation takes the clock it reads as
  an argument; several readings during one call give the same value. \<open>opts\<close> is an argument too, since
  the running configuration is changed in place.
\<close>

section \<open>Messages and their environment\<close>

record cmd_result =
  cr_Command :: string
  cr_Status :: string
  cr_Error :: string
  cr_ReceivedAt :: string
  cr_RateLimitRemaining :: rat
  cr_RateLimitPerSec :: int

record health_snapshot =
  hs_Version :: string
  hs_GitSHA :: string
  hs_StartedAt :: string
  hs_Status :: string
  hs_Published :: "64 word"
  hs_PublishFailed :: "64 word"
  hs_PendingFlushed :: "64 word"
  hs_PendingDropped :: "64 word"
  hs_PendingBuffered :: nat
  hs_SerialDropped :: "64 word"
  hs_DedupDropped :: "64 word"
  hs_Panics :: "64 word"
  hs_CommandsRejected :: "64 word"
  hs_CommandsLimited :: "64 word"
  hs_LastSensorAt :: string
  hs_LastSensorHWID :: string
  hs_LastSerialAt :: string
  hs_SerialStale :: bool
  hs_SerialConnected :: bool
  hs_RFLinkUnresponsive :: bool
  hs_LastPongAt :: string
  hs_PingFails :: "64 word"
  hs_UptimeSec :: int
  hs_MQTTConnected :: bool
  hs_SensorsLastSeen :: "(string \<times> string) list"

record ha_device_config =
  dev_Identifiers :: "string list"
  dev_Name :: string
  dev_Manufacturer :: string
  dev_Model :: string

record ha_discovery_payload =
  hp_Name :: string
  hp_ObjectID :: string
  hp_UniqueID :: string
  hp_StateTopic :: string
  hp_DeviceClass :: string
  hp_UnitOfMeasurement :: string
  hp_StateClass :: string
  hp_PayloadOn :: string
  hp_PayloadOff :: string
  hp_OffDelay :: "int option"
  hp_AvailabilityTopic :: string
  hp_PayloadAvailable :: string
  hp_PayloadNotAvailable :: string
  hp_JsonAttributesTopic :: string
  hp_Device :: ha_device_config

text \<open>A \<open>map[string]any\<close> that is only marshalled.\<close>

datatype jvalue = JStr string | JBool bool | JStrings "string list" | JObject "(string \<times> jvalue) list"

datatype payload =
    PText string
  | PSensor sensor_data
  | PGateway gateway_info
  | PCmdResult cmd_result
  | PHealth health_snapshot
  | PEntity ha_discovery_payload
  | PObject "(string \<times> jvalue) list"

record mqtt_msg =
  m_topic :: string
  m_qos :: "8 word"
  m_retain :: bool
  m_payload :: payload

text \<open>
  Code outside the repository, and the calls of the standard library whose values no property
  depends on, are the fields of \<open>env\<close>: the Unicode tables, the JSON encoder (which may fail), the broker
  (whether it acknowledges a message, which may depend on all messages before), the formats of a
  time stamp, and the build constants.
\<close>

record env =
  e_tab :: unicode
  e_marshal :: "payload \<Rightarrow> string option"
  e_broker :: "(mqtt_msg \<times> bool) list \<Rightarrow> mqtt_msg \<Rightarrow> bool"
  e_rfc3339 :: "instant \<Rightarrow> string"
  e_rfc3339nano :: "instant \<Rightarrow> string"
  e_version :: string
  e_git_sha :: string

text \<open>The build constants of a build without the linker's flags.\<close>

definition default_version :: string where "default_version = ''dev''"
definition default_git_sha :: string where "default_git_sha = ''unknown''"

definition status_online :: string where "status_online = ''online''"
definition status_offline :: string where "status_offline = ''offline''"

section \<open>The state\<close>

record raw_entry =
  raw_At :: string
  raw_Message :: string

record sensor_sample =
  smp_At :: string
  smp_HWID :: string
  smp_Model :: string
  smp_ID :: string
  smp_Name :: string
  smp_Fields :: "(string \<times> string) list"

record pending_sensor =
  ps_sd :: sensor_data
  ps_storedAt :: instant

datatype hook_event = HookRaw raw_entry | HookSensor string string

text \<open>
  \<open>outbox\<close> and \<open>hooked\<close> record what left the publisher: every message handed to the broker with its
  outcome, and the calls of the registered hooks. A zero \<open>time.Time\<close> is \<open>None\<close>.
\<close>

record publisher =
  cm_set :: bool
  discovered :: "string set"
  cmd_handler :: bool
  pending :: "(string \<times> pending_sensor) list"
  dedup_last :: "(string \<times> instant) list"
  sensor_seen :: "(string \<times> instant) list"
  published :: "64 word"
  publish_failed :: "64 word"
  pending_flushed :: "64 word"
  pending_dropped :: "64 word"
  serial_dropped :: "64 word"
  dedup_dropped :: "64 word"
  panics :: "64 word"
  commands_rejected :: "64 word"
  commands_limited :: "64 word"
  last_sensor_at :: "instant option"
  last_sensor_hwid :: string
  last_serial_at :: "instant option"
  started_at :: instant
  mqtt_up :: bool
  serial_up :: bool
  ping_sent_at :: "instant option"
  last_pong_at :: "instant option"
  ping_fails :: "64 word"
  rflink_unresp :: bool
  raw_lines :: "raw_entry list"
  raw_cap :: int
  samples :: "sensor_sample list"
  sample_cap :: int
  raw_hook :: bool
  sensor_hook :: bool
  outbox :: "(mqtt_msg \<times> bool) list"
  hooked :: "hook_event list"

text \<open>The record that \<open>NewPublisher\<close> builds, before the connection manager is stored in it.\<close>

definition positive_or :: "int \<Rightarrow> int \<Rightarrow> int" where
  "positive_or dflt n = (if n \<le> 0 then dflt else n)"

definition new_publisher :: "options \<Rightarrow> instant \<Rightarrow> publisher" where
  "new_publisher o' now =
     \<lparr>cm_set = False, discovered = {}, cmd_handler = False, pending = [], dedup_last = [], sensor_seen = [],
      published = 0, publish_failed = 0, pending_flushed = 0, pending_dropped = 0, serial_dropped = 0,
      dedup_dropped = 0, panics = 0, commands_rejected = 0, commands_limited = 0,
      last_sensor_at = None, last_sensor_hwid = [], last_serial_at = None, started_at = now,
      mqtt_up = False, serial_up = False, ping_sent_at = None, last_pong_at = None, ping_fails = 0,
      rflink_unresp = False, raw_lines = [], raw_cap = positive_or 100 (RawBufferSize (HTTP o')),
      samples = [], sample_cap = positive_or 50 (SensorBufferSize (HTTP o')),
      raw_hook = False, sensor_hook = False, outbox = [], hooked = []\<rparr>"

section \<open>Publishing a message\<close>

datatype pub_error = NotConnected | MarshalError | PublishError string

definition payload_data :: "env \<Rightarrow> payload \<Rightarrow> string option" where
  "payload_data E pl = (case pl of PText s \<Rightarrow> Some s | _ \<Rightarrow> e_marshal E pl)"

definition publish_raw ::
  "env \<Rightarrow> string \<Rightarrow> payload \<Rightarrow> 8 word \<Rightarrow> bool \<Rightarrow> publisher \<Rightarrow> publisher \<times> pub_error option" where
  "publish_raw E topic pl qos retain p =
     (if \<not> cm_set p then (p, Some NotConnected)
      else (case payload_data E pl of
              None \<Rightarrow> (p, Some MarshalError)
            | Some _ \<Rightarrow>
                (let m = \<lparr>m_topic = topic, m_qos = qos, m_retain = retain, m_payload = pl\<rparr>;
                     ok = e_broker E (outbox p) m
                 in (p\<lparr>outbox := outbox p @ [(m, ok)]\<rparr>, if ok then None else Some (PublishError topic)))))"

text \<open>
  \<open>sanitizeTopicSegment\<close>: letters, digits, \<open>_\<close> and \<open>-\<close> stay. The tables decide for the runes above
  ASCII; invalid bytes are read as U+FFFD.
\<close>

definition topic_rune :: "unicode \<Rightarrow> rune \<Rightarrow> bool" where
  "topic_rune U r =
     (if r < 128 then (65 \<le> r \<and> r \<le> 90) \<or> (97 \<le> r \<and> r \<le> 122) \<or> (48 \<le> r \<and> r \<le> 57) \<or> r = 95 \<or> r = 45
      else u_letter U r \<or> u_digit U r)"

definition sanitize_topic_segment :: "unicode \<Rightarrow> string \<Rightarrow> string" where
  "sanitize_topic_segment U value =
     concat (map (\<lambda>r. if topic_rune U r then encode_rune r else ''_'') (runes value))"

definition sensor_topic :: "unicode \<Rightarrow> options \<Rightarrow> string \<Rightarrow> string" where
  "sensor_topic U o' sensorID = Topic (Publish o') @ ''/'' @ sanitize_topic_segment U sensorID"

definition sensor_field_topic :: "unicode \<Rightarrow> options \<Rightarrow> string \<Rightarrow> string \<Rightarrow> string" where
  "sensor_field_topic U o' sensorID field =
     sensor_topic U o' sensorID @ ''/'' @ sanitize_topic_segment U field"

definition publish_gateway_info :: "env \<Rightarrow> options \<Rightarrow> gateway_info option \<Rightarrow> publisher \<Rightarrow> publisher \<times> pub_error option" where
  "publish_gateway_info E o' info p =
     (case info of None \<Rightarrow> (p, None)
      | Some i \<Rightarrow> publish_raw E (gateway_info_topic o') (PGateway i) (mqtt_qos o') True p)"

definition publish_cmd_result :: "env \<Rightarrow> options \<Rightarrow> instant \<Rightarrow> cmd_result \<Rightarrow> publisher \<Rightarrow> publisher" where
  "publish_cmd_result E o' now res p =
     (let res' = (if cr_ReceivedAt res = [] then res\<lparr>cr_ReceivedAt := e_rfc3339nano E now\<rparr> else res)
      in fst (publish_raw E (cmd_result_topic o') (PCmdResult res') (mqtt_qos o') False p))"

section \<open>Duplicates\<close>

definition dedup_key :: "string \<Rightarrow> string" where
  "dedup_key msg0 =
     (let msg = trim_space msg0; pieces = split_on (CHR '';'') msg in
      if 3 \<le> length pieces \<and> hd pieces = ''20'' then join '';'' (hd pieces # drop 2 pieces) else msg)"

text \<open>A new key is noted; a table of more than 500 keys loses those older than two windows.\<close>

definition note_key :: "duration \<Rightarrow> instant \<Rightarrow> string \<Rightarrow> publisher \<Rightarrow> publisher" where
  "note_key window now key p =
     (let tbl = AList.update key now (dedup_last p) in
      p\<lparr>dedup_last := if 500 < length tbl
          then filter (\<lambda>(_, t). \<not> wrap64 (window * 2) < time_sub now t) tbl else tbl\<rparr>)"

definition is_duplicate :: "options \<Rightarrow> instant \<Rightarrow> string \<Rightarrow> publisher \<Rightarrow> publisher \<times> bool" where
  "is_duplicate o' now msg p =
     (let window = dedup_window o' in
      if window \<le> 0 then (p, False)
      else (let key = dedup_key msg in
        case map_of (dedup_last p) key of
          Some t \<Rightarrow>
            if time_sub now t < window then (p\<lparr>dedup_dropped := dedup_dropped p + 1\<rparr>, True)
            else (note_key window now key p, False)
        | None \<Rightarrow> (note_key window now key p, False)))"

section \<open>Notes\<close>

definition apply_friendly_name :: "unicode \<Rightarrow> options \<Rightarrow> sensor_data \<Rightarrow> sensor_data" where
  "apply_friendly_name U o' sd =
     (if FriendlyName sd \<noteq> [] then sd
      else (let name = friendly_name_for U o' (topic_id sd) in
            if name \<noteq> [] then sd\<lparr>FriendlyName := name\<rparr>
            else sd\<lparr>FriendlyName := ''goRFLink_'' @ Model sd @ '' '' @ Id sd\<rparr>))"

definition note_sensor_seen :: "string \<Rightarrow> instant \<Rightarrow> publisher \<Rightarrow> publisher" where
  "note_sensor_seen hwid t p =
     (if hwid = [] then p else p\<lparr>sensor_seen := AList.update hwid t (sensor_seen p)\<rparr>)"

definition note_serial_activity :: "instant \<Rightarrow> publisher \<Rightarrow> publisher" where
  "note_serial_activity now p = p\<lparr>last_serial_at := Some now\<rparr>"

definition inc_serial_dropped :: "publisher \<Rightarrow> publisher" where
  "inc_serial_dropped p = p\<lparr>serial_dropped := serial_dropped p + 1\<rparr>"

definition inc_command_rejected :: "publisher \<Rightarrow> publisher" where
  "inc_command_rejected p = p\<lparr>commands_rejected := commands_rejected p + 1\<rparr>"

definition inc_command_rate_limited :: "publisher \<Rightarrow> publisher" where
  "inc_command_rate_limited p = p\<lparr>commands_limited := commands_limited p + 1\<rparr>"

definition set_serial_connected :: "env \<Rightarrow> options \<Rightarrow> instant \<Rightarrow> bool \<Rightarrow> publisher \<Rightarrow> publisher" where
  "set_serial_connected E o' now up p =
     (let p1 = p\<lparr>serial_up := up\<rparr>;
          p2 = (if up then note_serial_activity now p1 else p1);
          status = (if up then status_online else status_offline)
      in fst (publish_raw E (serial_status_topic o') (PText status) (mqtt_qos o') True p2))"

text \<open>What \<open>checkSerialWatchdog\<close> warns about, if anything.\<close>

datatype watchdog_warning = NoDataSinceStart duration | NoDataFor instant duration

definition check_serial_watchdog :: "options \<Rightarrow> instant \<Rightarrow> publisher \<Rightarrow> watchdog_warning option" where
  "check_serial_watchdog o' now p =
     (let wd = serial_watchdog o' in
      if wd \<le> 0 then None
      else (case last_serial_at p of
              None \<Rightarrow> if wd < time_sub now (started_at p)
                      then Some (NoDataSinceStart (time_sub now (started_at p))) else None
            | Some t \<Rightarrow> if wd < time_sub now t then Some (NoDataFor t (time_sub now t)) else None))"

section \<open>Pings\<close>

definition mark_ping_sent :: "instant \<Rightarrow> publisher \<Rightarrow> publisher" where
  "mark_ping_sent now p = p\<lparr>ping_sent_at := Some now\<rparr>"

definition note_pong :: "instant \<Rightarrow> publisher \<Rightarrow> publisher" where
  "note_pong now p =
     p\<lparr>last_pong_at := Some now, ping_sent_at := None, ping_fails := 0, rflink_unresp := False\<rparr>"

definition ping_outstanding :: "publisher \<Rightarrow> bool" where
  "ping_outstanding p = (ping_sent_at p \<noteq> None)"

text \<open>\<open>int(fails)\<close> reads the 64 bits as signed.\<close>

definition check_ping_timeout :: "options \<Rightarrow> instant \<Rightarrow> publisher \<Rightarrow> publisher" where
  "check_ping_timeout o' now p =
     (if serial_ping_interval o' \<le> 0 then p
      else (case ping_sent_at p of
              None \<Rightarrow> p
            | Some sent \<Rightarrow>
                if time_sub now sent < serial_ping_timeout o' then p
                else (let fails = ping_fails p + 1;
                          p' = p\<lparr>ping_sent_at := None, ping_fails := fails\<rparr>
                      in if serial_ping_fail_threshold o' \<le> sint fails
                         then p'\<lparr>rflink_unresp := True\<rparr> else p')))"

section \<open>Recent lines and samples\<close>

definition append_raw_line :: "env \<Rightarrow> instant \<Rightarrow> string \<Rightarrow> publisher \<Rightarrow> publisher" where
  "append_raw_line E now msg p =
     (let entry = \<lparr>raw_At = e_rfc3339nano E now, raw_Message = msg\<rparr>;
          p1 = (if 0 < raw_cap p then p\<lparr>raw_lines := ring_push (raw_cap p) entry (raw_lines p)\<rparr> else p)
      in if raw_hook p1 then p1\<lparr>hooked := hooked p1 @ [HookRaw entry]\<rparr> else p1)"

definition append_sensor_sample ::
  "env \<Rightarrow> instant \<Rightarrow> sensor_data \<Rightarrow> (string \<times> string) list \<Rightarrow> publisher \<Rightarrow> publisher" where
  "append_sensor_sample E now sd fs p =
     (if sample_cap p \<le> 0 then p
      else p\<lparr>samples := ring_push (sample_cap p)
               \<lparr>smp_At = e_rfc3339nano E now, smp_HWID = topic_id sd, smp_Model = Model sd,
                smp_ID = Id sd, smp_Name = FriendlyName sd, smp_Fields = fs\<rparr> (samples p)\<rparr>)"

definition recent_raw_lines :: "publisher \<Rightarrow> raw_entry list" where
  "recent_raw_lines p = raw_lines p"

definition recent_sensor_samples :: "publisher \<Rightarrow> sensor_sample list" where
  "recent_sensor_samples p = samples p"

definition sensors_last_seen :: "env \<Rightarrow> publisher \<Rightarrow> (string \<times> string) list" where
  "sensors_last_seen E p = map (\<lambda>(k, t). (k, e_rfc3339 E t)) (sensor_seen p)"

text \<open>Registering the hooks and the command handler.\<close>

definition set_raw_line_hook :: "bool \<Rightarrow> publisher \<Rightarrow> publisher" where
  "set_raw_line_hook h p = p\<lparr>raw_hook := h\<rparr>"

definition set_sensor_hook :: "bool \<Rightarrow> publisher \<Rightarrow> publisher" where
  "set_sensor_hook h p = p\<lparr>sensor_hook := h\<rparr>"

section \<open>The logs are bounded\<close>

definition raw_entry_of :: "env \<Rightarrow> instant \<times> string \<Rightarrow> raw_entry" where
  "raw_entry_of E e = \<lparr>raw_At = e_rfc3339nano E (fst e), raw_Message = snd e\<rparr>"

definition sample_of :: "env \<Rightarrow> instant \<times> sensor_data \<times> (string \<times> string) list \<Rightarrow> sensor_sample" where
  "sample_of E e = (case e of (now, sd, fs) \<Rightarrow>
     \<lparr>smp_At = e_rfc3339nano E now, smp_HWID = topic_id sd, smp_Model = Model sd,
      smp_ID = Id sd, smp_Name = FriendlyName sd, smp_Fields = fs\<rparr>)"

interpretation raw_log: bounded_log
  "\<lambda>(now, msg). append_raw_line E now msg" "raw_entry_of E" recent_raw_lines "\<lambda>p. nat (raw_cap p)" for E
  by unfold_locales
    (auto simp: append_raw_line_def recent_raw_lines_def raw_entry_of_def Let_def ring_push_room ring_push_full_nat)

interpretation sample_log: bounded_log
  "\<lambda>(now, sd, fs). append_sensor_sample E now sd fs" "sample_of E" recent_sensor_samples "\<lambda>p. nat (sample_cap p)" for E
  by unfold_locales
    (auto simp: append_sensor_sample_def recent_sensor_samples_def sample_of_def ring_push_room ring_push_full_nat)

section \<open>Topics\<close>

definition topic_byte :: "char \<Rightarrow> bool" where
  "topic_byte c = (is_alnum c \<or> c = CHR ''_'' \<or> c = CHR ''-'' \<or> 128 \<le> (byte c :: nat))"

lemma topic_rune_bytes: "topic_rune U r \<Longrightarrow> c \<in> set (encode_rune r) \<Longrightarrow> topic_byte c"
  using encode_rune_wide [of r c]
  by (cases "r < 128")
    (auto simp: topic_rune_def topic_byte_def is_alnum_def is_digit_def of_char_of intro: char_eq_byteI)

lemma sanitize_bytes:
  assumes "c \<in> set (sanitize_topic_segment U s)"
  shows "topic_byte c"
proof -
  obtain r where "c \<in> set (if topic_rune U r then encode_rune r else ''_'')"
    using assms unfolding sanitize_topic_segment_def set_concat set_map by blast
  then show ?thesis
    using topic_rune_bytes [of U r c] by (auto simp: topic_byte_def split: if_splits)
qed

lemma topic_byte_plain: "topic_byte c \<Longrightarrow> c \<noteq> CHR ''/'' \<and> c \<noteq> CHR ''+'' \<and> c \<noteq> CHR ''#'' \<and> c \<noteq> CHR 0x00"
  by (auto simp: topic_byte_def is_alnum_def is_digit_def)

lemma sanitize_not_Nil: "s \<noteq> [] \<Longrightarrow> sanitize_topic_segment U s \<noteq> []"
proof -
  assume "s \<noteq> []"
  then obtain r rs where r: "runes s = r # rs"
    by (cases s) (simp_all add: runes.simps split: prod.splits)
  have "encode_rune r \<noteq> []" by (simp add: encode_rune_def Let_def)
  then show ?thesis by (simp add: sanitize_topic_segment_def r)
qed

lemma sensor_field_topic_parts:
  "split_on (CHR ''/'') (sensor_field_topic U o' i f) =
    split_on (CHR ''/'') (Topic (Publish o')) @ [sanitize_topic_segment U i, sanitize_topic_segment U f]"
proof -
  have n: "CHR ''/'' \<notin> set (sanitize_topic_segment U s)" for s
    using sanitize_bytes topic_byte_plain by blast
  have snoc: "split_on c (s @ c # t) = split_on c s @ split_on c t" for c s t
    by (induction s) (auto split: list.splits)
  show ?thesis
    unfolding sensor_field_topic_def sensor_topic_def
    by (simp add: snoc split_on_single [OF n])
qed

section \<open>Spacing of accepted messages\<close>

text \<open>The messages, with their times, that pass the duplicate check.\<close>

fun accepted :: "options \<Rightarrow> (instant \<times> string) list \<Rightarrow> publisher \<Rightarrow> (instant \<times> string) list" where
  "accepted o' [] p = []"
| "accepted o' (e # es) p =
     (case is_duplicate o' (fst e) (snd e) p of
        (p', dup) \<Rightarrow> if dup then accepted o' es p' else e # accepted o' es p')"

definition spaced :: "duration \<Rightarrow> instant \<times> string \<Rightarrow> instant \<times> string \<Rightarrow> bool" where
  "spaced w a b = (dedup_key (snd a) = dedup_key (snd b) \<longrightarrow> w \<le> fst b - fst a)"

definition dedup_inv :: "duration \<Rightarrow> (instant \<times> string) list \<Rightarrow> instant \<Rightarrow> (string \<times> instant) list \<Rightarrow> bool" where
  "dedup_inv w acc now tbl \<longleftrightarrow>
     sorted_wrt (spaced w) acc \<and> distinct (map fst tbl) \<and> (\<forall>x \<in> set acc. fst x \<le> now) \<and>
     (\<forall>k t. map_of tbl k = Some t \<longrightarrow> (\<exists>m. (t, m) \<in> set acc \<and> dedup_key m = k)) \<and>
     (\<forall>x \<in> set acc. now - fst x < w \<longrightarrow> (\<exists>t. map_of tbl (dedup_key (snd x)) = Some t \<and> fst x \<le> t))"

lemma dedup_inv_later: "dedup_inv w acc now tbl \<Longrightarrow> now \<le> now' \<Longrightarrow> dedup_inv w acc now' tbl"
  unfolding dedup_inv_def by (fastforce intro: order_trans)

lemma map_of_filter_value:
  assumes "distinct (map fst m)"
  shows "map_of (filter (\<lambda>(k, v). P v) m) k =
    (case map_of m k of Some v \<Rightarrow> if P v then Some v else None | None \<Rightarrow> None)"
  using assms
proof (induction m)
  case (Cons e m)
  then show ?case
    by (cases e) (auto simp: map_of_eq_None_iff split: option.splits)
qed simp

lemma note_key_lookup:
  assumes "distinct (map fst (dedup_last p))" and "0 < w" and "in_int64 (w * 2)"
  shows "map_of (dedup_last (note_key w now k p)) k = Some now"
    and "map_of (dedup_last (note_key w now k p)) j = Some t \<Longrightarrow> j \<noteq> k \<Longrightarrow> map_of (dedup_last p) j = Some t"
    and "map_of (dedup_last p) j = Some t \<Longrightarrow> j \<noteq> k \<Longrightarrow> now - t < w \<Longrightarrow>
      map_of (dedup_last (note_key w now k p)) j = Some t"
    and "distinct (map fst (dedup_last (note_key w now k p)))"
proof -
  let ?tbl = "AList.update k now (dedup_last p)"
  have d: "distinct (map fst ?tbl)" by (rule distinct_update [OF assms(1)])
  have s: "\<not> w * 2 < time_sub now t" if "now - t < w" for t
    using that assms(2,3) time_sub_greater_iff [of "w * 2" now t] by auto
  show "map_of (dedup_last (note_key w now k p)) k = Some now"
    using assms s [of now] by (simp add: note_key_def Let_def map_of_filter_value [OF d] update_conv')
  show "map_of (dedup_last p) j = Some t"
    if "map_of (dedup_last (note_key w now k p)) j = Some t" "j \<noteq> k"
    using that by (auto simp: note_key_def Let_def map_of_filter_value [OF d] update_conv' split: if_splits option.splits)
  show "map_of (dedup_last (note_key w now k p)) j = Some t"
    if "map_of (dedup_last p) j = Some t" "j \<noteq> k" "now - t < w"
    using that s assms(3) by (simp add: note_key_def Let_def map_of_filter_value [OF d] update_conv')
  show "distinct (map fst (dedup_last (note_key w now k p)))"
    using d by (simp add: note_key_def Let_def distinct_map_filter)
qed

lemma dedup_window_int64: "in_int64 (dedup_window o')"
  by (simp add: dedup_window_def millis_def) (simp add: in_int64_def)

text \<open>What one check does, by cases of the outcome.\<close>

lemma is_duplicate_cases:
  obtains (off) "dedup_window o' \<le> 0" "is_duplicate o' now m p = (p, False)"
  | (dropped) t where "is_duplicate o' now m p = (p\<lparr>dedup_dropped := dedup_dropped p + 1\<rparr>, True)"
      "0 < dedup_window o'" "map_of (dedup_last p) (dedup_key m) = Some t" "now - t < dedup_window o'"
  | (passed) "is_duplicate o' now m p = (note_key (dedup_window o') now (dedup_key m) p, False)"
      "0 < dedup_window o'"
      "\<forall>t. map_of (dedup_last p) (dedup_key m) = Some t \<longrightarrow> dedup_window o' \<le> now - t"
proof (cases "0 < dedup_window o'")
  case w: True
  have lt: "time_sub now t < dedup_window o' \<longleftrightarrow> now - t < dedup_window o'" for t
    using w dedup_window_int64 by (intro time_sub_less_iff) auto
  show thesis
  proof (cases "\<exists>t. map_of (dedup_last p) (dedup_key m) = Some t \<and> now - t < dedup_window o'")
    case True
    then obtain t where "map_of (dedup_last p) (dedup_key m) = Some t" "now - t < dedup_window o'" by blast
    then show thesis
      using w by (intro dropped) (simp_all add: is_duplicate_def Let_def lt)
  next
    case False
    then show thesis
      using w by (intro passed) (auto simp: is_duplicate_def Let_def lt split: option.splits)
  qed
next
  case False
  then show thesis by (intro off) (simp_all add: is_duplicate_def Let_def)
qed

lemma dedup_inv_pass:
  assumes inv: "dedup_inv w acc now (dedup_last p)" and w: "0 < w" "in_int64 (w * 2)"
    and new: "\<forall>t. map_of (dedup_last p) (dedup_key m) = Some t \<longrightarrow> w \<le> now - t"
  shows "dedup_inv w (acc @ [(now, m)]) now (dedup_last (note_key w now (dedup_key m) p))"
proof -
  let ?q = "note_key w now (dedup_key m) p"
  have d: "distinct (map fst (dedup_last p))" using inv by (simp add: dedup_inv_def)
  note nk = note_key_lookup [OF d w, where now = now and k = "dedup_key m"]
  have sp: "spaced w x (now, m)" if x: "x \<in> set acc" for x
  proof (rule ccontr)
    assume "\<not> spaced w x (now, m)"
    then have k: "dedup_key (snd x) = dedup_key m" and lt: "now - fst x < w" by (auto simp: spaced_def)
    then obtain t where "map_of (dedup_last p) (dedup_key m) = Some t" "fst x \<le> t"
      using inv x unfolding dedup_inv_def by metis
    then show False using new lt by force
  qed
  have tbl: "\<exists>m'. (t, m') \<in> set (acc @ [(now, m)]) \<and> dedup_key m' = k"
    if "map_of (dedup_last ?q) k = Some t" for k t
  proof (cases "k = dedup_key m")
    case True
    then show ?thesis using that nk(1) by auto
  next
    case False
    then have "map_of (dedup_last p) k = Some t" using that nk(2) by blast
    then obtain m' where "(t, m') \<in> set acc" "dedup_key m' = k"
      using inv unfolding dedup_inv_def by metis
    then show ?thesis by auto
  qed
  have rec: "\<exists>t. map_of (dedup_last ?q) (dedup_key (snd x)) = Some t \<and> fst x \<le> t"
    if x: "x \<in> set acc" and lt: "now - fst x < w" for x
  proof (cases "dedup_key (snd x) = dedup_key m")
    case True
    then show ?thesis using nk(1) inv x by (auto simp: dedup_inv_def)
  next
    case False
    obtain t where "map_of (dedup_last p) (dedup_key (snd x)) = Some t" "fst x \<le> t"
      using inv x lt unfolding dedup_inv_def by metis
    then show ?thesis using nk(3) [OF _ False] lt by auto
  qed
  show ?thesis
    using inv sp tbl rec nk(1,4) unfolding dedup_inv_def by (auto simp: sorted_wrt_append)
qed

lemma accepted_spaced:
  assumes "0 < dedup_window o'" and "in_int64 (dedup_window o' * 2)"
    and "dedup_inv (dedup_window o') acc now (dedup_last p)" and "sorted (now # map fst es)"
  shows "sorted_wrt (spaced (dedup_window o')) (acc @ accepted o' es p)"
  using assms(3,4)
proof (induction es arbitrary: acc now p)
  case Nil
  then show ?case by (simp add: dedup_inv_def)
next
  case (Cons e es)
  obtain t m where e: "e = (t, m)" by (cases e)
  have le: "now \<le> t" and srt: "sorted (t # map fst es)" using Cons.prems(2) e by simp_all
  note inv = dedup_inv_later [OF Cons.prems(1) le]
  show ?case
  proof (cases rule: is_duplicate_cases [where o' = o' and now = t and m = m and p = p])
    case off
    then show ?thesis using assms(1) by simp
  next
    case (dropped u)
    then show ?thesis
      using Cons.IH [of acc t "p\<lparr>dedup_dropped := dedup_dropped p + 1\<rparr>"] inv srt by (simp add: e)
  next
    case passed
    have "dedup_inv (dedup_window o') (acc @ [(t, m)]) t (dedup_last (note_key (dedup_window o') t (dedup_key m) p))"
      using dedup_inv_pass [OF inv assms(1,2)] passed(3) by blast
    then show ?thesis
      using Cons.IH [of "acc @ [(t, m)]" t] srt passed(1) by (simp add: e)
  qed
qed

text \<open>Retransmissions differ in the second field only; so do the replies to two pings.\<close>

lemma dedup_key_retransmission:
  assumes "CHR '';'' \<notin> set s1" and "CHR '';'' \<notin> set s2" and "trimmed (''20;'' @ s1 @ CHR '';'' # r)"
    and "trimmed (''20;'' @ s2 @ CHR '';'' # r)"
  shows "dedup_key (''20;'' @ s1 @ CHR '';'' # r) = dedup_key (''20;'' @ s2 @ CHR '';'' # r)"
proof -
  have s: "split_on (CHR '';'') (''20;'' @ s @ CHR '';'' # r) = ''20'' # s # split_on (CHR '';'') r"
    if "CHR '';'' \<notin> set s" for s
    using split_on_append [OF that, of r] by simp
  show ?thesis
    using s [OF assms(1)] s [OF assms(2)] assms(3,4) by (cases "split_on (CHR '';'') r") (simp_all add: dedup_key_def Let_def)
qed

section \<open>The ping watchdog\<close>

text \<open>
  The runs of the watchdog, with the number of timeouts since the last reply: a ping is only marked
  while none is outstanding, a reply may come at any time, and so may a check.
\<close>

inductive ping_run :: "options \<Rightarrow> nat \<Rightarrow> publisher \<Rightarrow> bool" for o' where
  ping_start: "ping_sent_at p = None \<Longrightarrow> ping_fails p = 0 \<Longrightarrow> \<not> rflink_unresp p \<Longrightarrow> ping_run o' 0 p"
| ping_mark: "ping_run o' n p \<Longrightarrow> \<not> ping_outstanding p \<Longrightarrow> ping_run o' n (mark_ping_sent now p)"
| ping_reply: "ping_run o' n p \<Longrightarrow> ping_run o' 0 (note_pong now p)"
| ping_check: "ping_run o' n p \<Longrightarrow>
    ping_run o' (if ping_sent_at (check_ping_timeout o' now p) = ping_sent_at p then n else Suc n)
      (check_ping_timeout o' now p)"

inductive_cases ping_runE: "ping_run o' n p"

lemma sint_of_nat64: "n < 2 ^ 63 \<Longrightarrow> sint (of_nat n :: 64 word) = int n"
  by (simp add: signed_of_nat signed_take_bit_int_eq_self)

lemma check_ping_cases:
  obtains (idle) "check_ping_timeout o' now p = p"
  | (timeout) sent where "ping_sent_at p = Some sent"
      "ping_sent_at (check_ping_timeout o' now p) = None"
      "ping_fails (check_ping_timeout o' now p) = ping_fails p + 1"
      "rflink_unresp (check_ping_timeout o' now p) \<longleftrightarrow>
         rflink_unresp p \<or> serial_ping_fail_threshold o' \<le> sint (ping_fails p + 1)"
proof (cases "check_ping_timeout o' now p = p")
  case False
  then obtain sent where "ping_sent_at p = Some sent" "\<not> serial_ping_interval o' \<le> 0"
    "\<not> time_sub now sent < serial_ping_timeout o'"
    by (auto simp: check_ping_timeout_def split: option.splits if_splits)
  then show thesis
    by (intro timeout [of sent]) (simp_all add: check_ping_timeout_def Let_def)
qed (rule idle)

lemma ping_run_inv:
  assumes "ping_run o' n p" and "n < 2 ^ 63"
  shows "ping_fails p = of_nat n \<and> (rflink_unresp p \<longleftrightarrow> serial_ping_fail_threshold o' \<le> int n)"
  using assms
proof (induction rule: ping_run.induct)
  case (ping_start p)
  then show ?case by (simp add: serial_ping_fail_threshold_def)
next
  case (ping_mark n p now)
  then show ?case by (simp add: mark_ping_sent_def)
next
  case (ping_reply n p now)
  then show ?case by (simp add: note_pong_def serial_ping_fail_threshold_def)
next
  case (ping_check n p now)
  show ?case
  proof (cases rule: check_ping_cases [of o' now p])
    case idle
    then show ?thesis using ping_check by simp
  next
    case (timeout sent)
    then have n: "Suc n < 2 ^ 63" using ping_check.prems by simp
    have f: "ping_fails p + 1 = of_nat (Suc n)" using ping_check.IH n by (simp add: add.commute)
    then show ?thesis
      using timeout ping_check.IH n sint_of_nat64 [OF n] by (auto simp: f)
  qed
qed

section \<open>A reference definition of duplicate suppression\<close>

text \<open>
  The reference keeps the whole history instead of a table: a message is kept unless a message kept
  before it has the same key and is less than the window \<open>w\<close> older.
\<close>

fun dedup_spec :: "duration \<Rightarrow> (instant \<times> string) list \<Rightarrow> (instant \<times> string) list \<Rightarrow> (instant \<times> string) list" where
  "dedup_spec w kept [] = kept"
| "dedup_spec w kept (e # es) =
     (if list_ex (\<lambda>a. dedup_key (snd a) = dedup_key (snd e) \<and> fst e - fst a < w) kept
      then dedup_spec w kept es else dedup_spec w (kept @ [e]) es)"

lemma dedup_inv_found:
  assumes "dedup_inv w acc now tbl"
  shows "list_ex (\<lambda>a. dedup_key (snd a) = k \<and> now - fst a < w) acc \<longleftrightarrow>
    (\<exists>t. map_of tbl k = Some t \<and> now - t < w)"
proof
  assume "list_ex (\<lambda>a. dedup_key (snd a) = k \<and> now - fst a < w) acc"
  then obtain a where a: "a \<in> set acc" "dedup_key (snd a) = k" "now - fst a < w"
    by (auto simp: list_ex_iff)
  then obtain t where "map_of tbl k = Some t" "fst a \<le> t"
    using assms unfolding dedup_inv_def by metis
  then show "\<exists>t. map_of tbl k = Some t \<and> now - t < w" using a(3) by force
next
  assume "\<exists>t. map_of tbl k = Some t \<and> now - t < w"
  then obtain t m where "(t, m) \<in> set acc" "dedup_key m = k" "now - t < w"
    using assms unfolding dedup_inv_def by metis
  then show "list_ex (\<lambda>a. dedup_key (snd a) = k \<and> now - fst a < w) acc"
    by (force simp: list_ex_iff)
qed

lemma accepted_is_spec:
  assumes "0 < dedup_window o'" and "in_int64 (dedup_window o' * 2)"
    and "dedup_inv (dedup_window o') acc now (dedup_last p)" and "sorted (now # map fst es)"
  shows "acc @ accepted o' es p = dedup_spec (dedup_window o') acc es"
  using assms(3,4)
proof (induction es arbitrary: acc now p)
  case (Cons e es)
  obtain t m where e: "e = (t, m)" by (cases e)
  have le: "now \<le> t" and srt: "sorted (t # map fst es)" using Cons.prems(2) e by simp_all
  note inv = dedup_inv_later [OF Cons.prems(1) le]
  note found = dedup_inv_found [OF inv, of "dedup_key m"]
  show ?case
  proof (cases rule: is_duplicate_cases [where o' = o' and now = t and m = m and p = p])
    case off
    then show ?thesis using assms(1) by simp
  next
    case (dropped u)
    then show ?thesis
      using Cons.IH [of acc t "p\<lparr>dedup_dropped := dedup_dropped p + 1\<rparr>"] inv srt found by (simp add: e)
  next
    case passed
    have "dedup_inv (dedup_window o') (acc @ [(t, m)]) t (dedup_last (note_key (dedup_window o') t (dedup_key m) p))"
      using dedup_inv_pass [OF inv assms(1,2)] passed(3) by blast
    moreover have "\<not> list_ex (\<lambda>a. dedup_key (snd a) = dedup_key m \<and> t - fst a < dedup_window o') acc"
      unfolding found using passed(3) by force
    ultimately show ?thesis
      using Cons.IH [of "acc @ [(t, m)]" t] srt passed(1) by (simp add: e)
  qed
qed simp

lemma dedup_inv_empty: "dedup_inv w [] now []"
  by (simp add: dedup_inv_def)

section \<open>Properties\<close>

definition sample_config :: options where
  "sample_config = sample_options\<lparr>Publish := sample_publish
     \<lparr>KeepAlive := 30, CmdTopic := ''rflink/send'', TemperatureUnit := ''C'', CommandMaxLen := 64,
      ConnectRetryInterval := 5\<rparr>\<rparr>"

definition sample_env :: env where
  "sample_env = \<lparr>e_tab = ascii_tables, e_marshal = (\<lambda>_. Some ''{}''), e_broker = (\<lambda>_ _. True),
     e_rfc3339 = (\<lambda>_. ''t''), e_rfc3339nano = (\<lambda>_. ''t''), e_version = default_version, e_git_sha = default_git_sha\<rparr>"

lemma sample_window: "dedup_window sample_config = 500000000"
  by code_simp

text \<open>
  C24: Duplicate suppression equals its reference on every sequence of lines with non-decreasing
  times: a line passes exactly if no line that passed before it has the same key and is younger than
  the window, in spite of the table being pruned.
\<close>

theorem dedup_equals_reference:
  assumes "0 < dedup_window o'" and "in_int64 (dedup_window o' * 2)" and "sorted (map fst es)"
    and "dedup_last p = []"
  shows "accepted o' es p = dedup_spec (dedup_window o') [] es"
proof (cases es)
  case (Cons e es')
  then have "sorted (fst e # map fst es)" using assms(3) by auto
  from accepted_is_spec [OF assms(1,2) _ this, of "[]"] show ?thesis
    by (simp add: assms(4) dedup_inv_empty)
qed simp

lemma dedup_equals_reference_witness:
  "accepted sample_config [(0, ''20;01;EV1527;ID=1;''), (9, ''20;02;EV1527;ID=1;''), (500000000, ''20;03;EV1527;ID=1;'')]
     (new_publisher sample_config 0) =
   [(0, ''20;01;EV1527;ID=1;''), (500000000, ''20;03;EV1527;ID=1;'')]"
proof -
  let ?es = "[(0, ''20;01;EV1527;ID=1;''), (9, ''20;02;EV1527;ID=1;''), (500000000 :: int, ''20;03;EV1527;ID=1;'')]"
  have "accepted sample_config ?es (new_publisher sample_config 0) = dedup_spec (dedup_window sample_config) [] ?es"
    by (rule dedup_equals_reference) (simp_all add: sample_window in_int64_def new_publisher_def)
  also have "\<dots> = [(0, ''20;01;EV1527;ID=1;''), (500000000, ''20;03;EV1527;ID=1;'')]"
    unfolding sample_window by code_simp
  finally show ?thesis .
qed

text \<open>
  C29: In every run of marks, replies and timeout checks the receiver is reported unresponsive exactly
  if as many pings in a row as the threshold have timed out since the last reply.
\<close>

theorem unresponsive_iff_threshold:
  assumes "ping_run o' n p" and "n < 2 ^ 63"
  shows "rflink_unresp p \<longleftrightarrow> serial_ping_fail_threshold o' \<le> int n"
  using ping_run_inv [OF assms] by blast

lemma unresponsive_iff_threshold_witness:
  "rflink_unresp (note_pong 9 (mark_ping_sent 5 (new_publisher sample_config 0))) \<longleftrightarrow>
     serial_ping_fail_threshold sample_config \<le> int 0"
proof (rule unresponsive_iff_threshold)
  show "ping_run sample_config 0 (note_pong 9 (mark_ping_sent 5 (new_publisher sample_config 0)))"
    by (rule ping_reply [OF ping_mark [OF ping_start]]) (simp_all add: new_publisher_def ping_outstanding_def)
qed simp

text \<open>
  C30: The topic of a field is the base topic and two more levels, whatever the sensor's id and the
  field's name are: neither adds a level, a wildcard or a NUL, and neither becomes empty.
\<close>

theorem field_topic_levels:
  "split_on (CHR ''/'') (sensor_field_topic U o' i f) =
     split_on (CHR ''/'') (Topic (Publish o')) @ [sanitize_topic_segment U i, sanitize_topic_segment U f] \<and>
   \<not> contains_any (sanitize_topic_segment U s) [CHR ''/'', CHR ''+'', CHR ''#'', CHR 0x00] \<and>
   (sanitize_topic_segment U s = [] \<longleftrightarrow> s = [])"
proof -
  have "\<not> contains_any (sanitize_topic_segment U s) [CHR ''/'', CHR ''+'', CHR ''#'', CHR 0x00]"
    using sanitize_bytes topic_byte_plain by (auto simp: contains_any_iff)
  moreover have "sanitize_topic_segment U [] = []"
    by (simp add: sanitize_topic_segment_def runes.simps)
  ultimately show ?thesis
    using sensor_field_topic_parts sanitize_not_Nil by metis
qed

text \<open>
  After any lines, the buffer that the API shows is the last \<open>raw_cap\<close> of them, oldest first,
  with what it held before in front.
\<close>

lemma raw_lines_are_last:
  assumes "0 < raw_cap p" and "int (length (recent_raw_lines p)) \<le> raw_cap p"
  shows "recent_raw_lines (fold (\<lambda>(now, msg). append_raw_line E now msg) es p) =
    last_n (nat (raw_cap p)) (recent_raw_lines p @ map (raw_entry_of E) es)"
proof -
  have "raw_log.log_ok p" using assms by (simp add: raw_log.log_ok_def)
  then show ?thesis using raw_log.push_all [of p E es] by simp
qed

lemma raw_lines_are_last_witness:
  "recent_raw_lines (fold (\<lambda>(now, msg). append_raw_line sample_env now msg) [(1, ''a''), (2, ''b''), (3, ''c'')]
     (new_publisher sample_config 0\<lparr>raw_cap := 2\<rparr>)) =
   [\<lparr>raw_At = ''t'', raw_Message = ''b''\<rparr>, \<lparr>raw_At = ''t'', raw_Message = ''c''\<rparr>]"
  by (subst raw_lines_are_last)
    (simp_all add: new_publisher_def recent_raw_lines_def last_n_def raw_entry_of_def sample_env_def)

text \<open>
  A reply that is handled between the write of a ping and its mark leaves the ping marked as
  outstanding, and the next check after the timeout counts a failure although the receiver answered.
\<close>

lemma early_reply_counts_as_timeout:
  assumes "0 < serial_ping_interval o'" and "serial_ping_timeout o' \<le> time_sub t marked"
  shows "ping_fails (check_ping_timeout o' t (mark_ping_sent marked (note_pong replied p))) = 1"
  using assms by (simp add: check_ping_timeout_def mark_ping_sent_def note_pong_def Let_def)

lemma early_reply_counts_as_timeout_witness:
  "ping_fails (check_ping_timeout sample_config 6000000000 (mark_ping_sent 2 (note_pong 1 (new_publisher sample_config 0)))) = 1"
  by (rule early_reply_counts_as_timeout) code_simp+

end
