(* ===== verification/HomeAssistant.thy ===== *)
theory HomeAssistant
  imports PubState
begin

text \<open>
  \<open>rflink/home_assistant.go\<close> and the actuator discovery of \<open>publisher.go\<close>: the configuration
  messages that make sensors, buttons and switches appear in Home Assistant, each published once and
  retained. \<open>discovered\<close> is the \<open>sync.Map\<close> of the ids already announced; \<open>LoadOrStore\<close> is one step.
\<close>

section \<open>Entities\<close>

record ha_entity_spec =
  es_component :: string
  es_objectSuffix :: string
  es_nameSuffix :: string
  es_deviceClass :: string
  es_unit :: string
  es_stateClass :: string
  es_payloadOn :: string
  es_payloadOff :: string
  es_offDelay :: "int option"

definition plain_entity :: "string \<Rightarrow> string \<Rightarrow> string \<Rightarrow> ha_entity_spec" where
  "plain_entity component suf name =
     \<lparr>es_component = component, es_objectSuffix = suf, es_nameSuffix = name, es_deviceClass = [], es_unit = [],
      es_stateClass = [], es_payloadOn = [], es_payloadOff = [], es_offDelay = None\<rparr>"

definition ha_entity_specs :: "string \<rightharpoonup> ha_entity_spec" where
  "ha_entity_specs = map_of
     [(''temp'', (plain_entity ''sensor'' ''temp'' ''Temperature'')
         \<lparr>es_deviceClass := ''temperature'', es_unit := degree_c, es_stateClass := ''measurement''\<rparr>),
      (''hum'', (plain_entity ''sensor'' ''hum'' ''Humidity'')
         \<lparr>es_deviceClass := ''humidity'', es_unit := ''%'', es_stateClass := ''measurement''\<rparr>),
      (''bat'', (plain_entity ''binary_sensor'' ''bat'' ''Battery'')
         \<lparr>es_deviceClass := ''battery'', es_payloadOn := ''LOW'', es_payloadOff := ''OK''\<rparr>),
      (''switch'', plain_entity ''sensor'' ''switch'' ''Switch ID''),
      (''cmd'', plain_entity ''sensor'' ''cmd'' ''Command'')]"

definition resolve_ha_entity_spec :: "unicode \<Rightarrow> string \<Rightarrow> ha_entity_spec" where
  "resolve_ha_entity_spec U field =
     (case ha_entity_specs field of
        Some spec \<Rightarrow> spec
      | None \<Rightarrow>
          (case cut_prefix field ''sw_'' of
             Some ch \<Rightarrow> (plain_entity ''binary_sensor'' field (''Button '' @ to_upper U ch))
                \<lparr>es_payloadOn := ''ON'', es_payloadOff := ''OFF'', es_offDelay := Some 1\<rparr>
           | None \<Rightarrow> plain_entity ''sensor'' field
               (if field \<noteq> [] then to_upper U (take 1 field) @ drop 1 field else field)))"

text \<open>
  The temperature entity takes unit and class from the configured unit (raw readings have none); the
  others copy what their specification sets.
\<close>

definition degree_f :: string where
  "degree_f = [char_of (0xC2 :: nat), char_of (0xB0 :: nat), CHR ''F'']"

definition entity_details :: "options \<Rightarrow> string \<Rightarrow> ha_entity_spec \<Rightarrow> ha_discovery_payload \<Rightarrow> ha_discovery_payload" where
  "entity_details o' field spec pl =
     (if field = ''temp'' then
        (if temperature_unit o' = ''F''
         then pl\<lparr>hp_UnitOfMeasurement := degree_f, hp_DeviceClass := ''temperature'', hp_StateClass := ''measurement''\<rparr>
         else if temperature_unit o' = ''RAW'' then pl
         else pl\<lparr>hp_UnitOfMeasurement := degree_c, hp_DeviceClass := ''temperature'', hp_StateClass := ''measurement''\<rparr>)
      else pl\<lparr>hp_DeviceClass := es_deviceClass spec, hp_UnitOfMeasurement := es_unit spec,
              hp_StateClass := es_stateClass spec, hp_PayloadOn := es_payloadOn spec,
              hp_PayloadOff := es_payloadOff spec, hp_OffDelay := es_offDelay spec\<rparr>)"

definition entity_unique_id :: "unicode \<Rightarrow> sensor_data \<Rightarrow> ha_entity_spec \<Rightarrow> string" where
  "entity_unique_id U sd spec =
     ''gorflink_'' @ sanitize_topic_segment U (Hwid sd) @ ''_'' @ sanitize_topic_segment U (es_objectSuffix spec)"

definition entity_payload :: "unicode \<Rightarrow> options \<Rightarrow> sensor_data \<Rightarrow> string \<Rightarrow> ha_discovery_payload" where
  "entity_payload U o' sd field =
     (let spec = resolve_ha_entity_spec U field;
          hwidSafe = sanitize_topic_segment U (Hwid sd);
          deviceName = (if FriendlyName sd = [] then ''goRFLink_'' @ Model sd @ '' '' @ Id sd else FriendlyName sd)
      in entity_details o' field spec
           \<lparr>hp_Name = es_nameSuffix spec,
            hp_ObjectID = hwidSafe @ ''_'' @ sanitize_topic_segment U (es_objectSuffix spec),
            hp_UniqueID = entity_unique_id U sd spec,
            hp_StateTopic = sensor_field_topic U o' (topic_id sd) field,
            hp_DeviceClass = [], hp_UnitOfMeasurement = [], hp_StateClass = [], hp_PayloadOn = [],
            hp_PayloadOff = [], hp_OffDelay = None,
            hp_AvailabilityTopic = serial_status_topic o', hp_PayloadAvailable = status_online,
            hp_PayloadNotAvailable = status_offline,
            hp_JsonAttributesTopic = sensor_field_topic U o' (topic_id sd) ''sumJson'',
            hp_Device = \<lparr>dev_Identifiers = [''gorflink_'' @ hwidSafe], dev_Name = deviceName,
                         dev_Manufacturer = ''RFLink'', dev_Model = Model sd\<rparr>\<rparr>)"

text \<open>
  Announcing one id: nothing if it is already known; otherwise it is stored, and taken out again if
  the publication fails.
\<close>

definition announce :: "env \<Rightarrow> options \<Rightarrow> string \<Rightarrow> string \<Rightarrow> payload \<Rightarrow> publisher \<Rightarrow> publisher" where
  "announce E o' uid topic pl p =
     (if uid \<in> discovered p then p
      else (case publish_raw E topic pl (mqtt_qos o') True (p\<lparr>discovered := insert uid (discovered p)\<rparr>) of
              (p', None) \<Rightarrow> p'
            | (p', Some _) \<Rightarrow> p'\<lparr>discovered := discovered p' - {uid}\<rparr>))"

definition discovery_topic :: "options \<Rightarrow> string \<Rightarrow> string \<Rightarrow> string" where
  "discovery_topic o' component uid =
     HADiscoveryPrefix (Publish o') @ ''/'' @ component @ ''/'' @ uid @ ''/config''"

definition publish_ha_entity :: "env \<Rightarrow> options \<Rightarrow> sensor_data \<Rightarrow> string \<Rightarrow> publisher \<Rightarrow> publisher" where
  "publish_ha_entity E o' sd field p =
     (let spec = resolve_ha_entity_spec (e_tab E) field;
          uid = entity_unique_id (e_tab E) sd spec
      in announce E o' uid (discovery_topic o' (es_component spec) uid)
           (PEntity (entity_payload (e_tab E) o' sd field)) p)"

definition has_switch_button_fields :: "(string \<times> string) list \<Rightarrow> bool" where
  "has_switch_button_fields fs = list_ex (\<lambda>(k, _). has_prefix k ''sw_'') fs"

definition discovery_step ::
  "env \<Rightarrow> options \<Rightarrow> sensor_data \<Rightarrow> (string \<times> string) list \<Rightarrow> string \<times> string \<Rightarrow> publisher \<Rightarrow> publisher" where
  "discovery_step E o' sd fs e p =
     (if snd e = [] then p
      else if (fst e = ''switch'' \<or> fst e = ''cmd'') \<and> has_switch_button_fields fs then p
      else publish_ha_entity E o' sd (fst e) p)"

definition publish_ha_discovery ::
  "env \<Rightarrow> options \<Rightarrow> (string \<Rightarrow> nat) \<Rightarrow> sensor_data \<Rightarrow> (string \<times> string) list \<Rightarrow> publisher \<Rightarrow> publisher" where
  "publish_ha_discovery E o' rank sd fs p =
     fold (discovery_step E o' sd fs) (range_order rank fs) p"

section \<open>Actuators\<close>

definition gateway_device :: jvalue where
  "gateway_device = JObject
     [(''identifiers'', JStrings [''gorflink_gateway'']), (''name'', JStr ''RFLink Gateway''),
      (''manufacturer'', JStr ''RFLink''), (''model'', JStr ''go-rflink'')]"

definition availability :: "options \<Rightarrow> (string \<times> jvalue) list" where
  "availability o' =
     [(''availability_topic'', JStr (status_topic o')), (''payload_available'', JStr status_online),
      (''payload_not_available'', JStr status_offline), (''device'', gateway_device)]"

definition button_payload :: "options \<Rightarrow> string \<Rightarrow> ha_button \<Rightarrow> payload" where
  "button_payload o' uid btn = PObject
     ([(''name'', JStr (btn_Name btn)), (''unique_id'', JStr uid), (''command_topic'', JStr (CmdTopic (Publish o'))),
       (''payload_press'', JStr (btn_Command btn))] @ availability o')"

definition switch_payload :: "options \<Rightarrow> string \<Rightarrow> ha_switch \<Rightarrow> payload" where
  "switch_payload o' uid sw = PObject
     ([(''name'', JStr (sw_Name sw)), (''unique_id'', JStr uid), (''command_topic'', JStr (CmdTopic (Publish o'))),
       (''payload_on'', JStr (sw_CommandOn sw)), (''payload_off'', JStr (sw_CommandOff sw)),
       (''optimistic'', JBool True)] @ availability o')"

definition publish_ha_buttons :: "env \<Rightarrow> options \<Rightarrow> publisher \<Rightarrow> publisher" where
  "publish_ha_buttons E o' p =
     fold (\<lambda>(i, btn). let uid = ''gorflink_btn_'' @ show_nat i in
             announce E o' uid (discovery_topic o' ''button'' uid) (button_payload o' uid btn))
       (List.enumerate 0 (haButtons o')) p"

definition publish_ha_switches :: "env \<Rightarrow> options \<Rightarrow> publisher \<Rightarrow> publisher" where
  "publish_ha_switches E o' p =
     fold (\<lambda>(i, sw). let uid = ''gorflink_sw_'' @ show_nat i in
             announce E o' uid (discovery_topic o' ''switch'' uid) (switch_payload o' uid sw))
       (List.enumerate 0 (haSwitches o')) p"

definition publish_ha_actuators :: "env \<Rightarrow> options \<Rightarrow> publisher \<Rightarrow> publisher" where
  "publish_ha_actuators E o' p =
     (if \<not> HomeAssistantDiscovery (Publish o') then p
      else publish_ha_switches E o' (publish_ha_buttons E o' p))"

definition clear_ha_discovery :: "env \<Rightarrow> options \<Rightarrow> publisher \<Rightarrow> publisher" where
  "clear_ha_discovery E o' p = publish_ha_actuators E o' (p\<lparr>discovered := {}\<rparr>)"

section \<open>What an announcement does\<close>

lemma publish_raw_cases:
  obtains (refused) e where "publish_raw E topic pl qos r p = (p, Some e)" "\<not> cm_set p \<or> payload_data E pl = None"
  | (sent) "cm_set p" "publish_raw E topic pl qos r p =
      (p\<lparr>outbox := outbox p @ [(\<lparr>m_topic = topic, m_qos = qos, m_retain = r, m_payload = pl\<rparr>,
          e_broker E (outbox p) \<lparr>m_topic = topic, m_qos = qos, m_retain = r, m_payload = pl\<rparr>)]\<rparr>,
       if e_broker E (outbox p) \<lparr>m_topic = topic, m_qos = qos, m_retain = r, m_payload = pl\<rparr>
       then None else Some (PublishError topic))"
proof (cases "cm_set p \<and> payload_data E pl \<noteq> None")
  case True
  then show thesis by (intro sent) (auto simp: publish_raw_def Let_def)
next
  case False
  then show thesis
    by (intro refused [of "if cm_set p then MarshalError else NotConnected"]) (auto simp: publish_raw_def)
qed

lemma announce_cases:
  obtains (known) "uid \<in> discovered p" "announce E o' uid topic pl p = p"
  | (unsent) "uid \<notin> discovered p" "announce E o' uid topic pl p = p"
  | (rejected) m where "uid \<notin> discovered p" "m_topic m = topic" "m_retain m" "m_payload m = pl"
      "announce E o' uid topic pl p = p\<lparr>outbox := outbox p @ [(m, False)]\<rparr>"
  | (announced) m where "uid \<notin> discovered p" "m_topic m = topic" "m_retain m" "m_payload m = pl"
      "announce E o' uid topic pl p =
         p\<lparr>outbox := outbox p @ [(m, True)], discovered := insert uid (discovered p)\<rparr>"
proof (cases "uid \<in> discovered p")
  case True
  then show thesis by (intro known) (simp_all add: announce_def)
next
  case new: False
  let ?p = "p\<lparr>discovered := insert uid (discovered p)\<rparr>"
  let ?m = "\<lparr>m_topic = topic, m_qos = mqtt_qos o', m_retain = True, m_payload = pl\<rparr>"
  show thesis
  proof (cases rule: publish_raw_cases [of E topic pl "mqtt_qos o'" True ?p])
    case (refused e)
    then show thesis using new by (intro unsent) (simp_all add: announce_def)
  next
    case sent
    show thesis
    proof (cases "e_broker E (outbox p) ?m")
      case True
      then show thesis using new sent by (intro announced [of ?m]) (simp_all add: announce_def)
    next
      case False
      then show thesis using new sent by (intro rejected [of ?m]) (simp_all add: announce_def)
    qed
  qed
qed

text \<open>Acknowledged announcements since the outbox was \<open>base\<close>: distinct, retained, of known ids.\<close>

definition acked :: "(mqtt_msg \<times> bool) list \<Rightarrow> mqtt_msg list" where
  "acked out = map fst (filter snd out)"

lemma acked_simps [simp]: "acked [] = []" "acked (xs @ ys) = acked xs @ acked ys"
  "acked ((m, b) # xs) = (if b then m # acked xs else acked xs)"
  by (simp_all add: acked_def)

definition no_slash :: "string \<Rightarrow> bool" where
  "no_slash s = (CHR ''/'' \<notin> set s)"

definition announced_once :: "options \<Rightarrow> (mqtt_msg \<times> bool) list \<Rightarrow> publisher \<Rightarrow> bool" where
  "announced_once o' base p \<longleftrightarrow>
     (\<exists>new. outbox p = base @ new \<and> distinct (map m_topic (acked new)) \<and>
        (\<forall>m \<in> set (acked new). m_retain m \<and>
           (\<exists>c u. no_slash c \<and> no_slash u \<and> u \<in> discovered p \<and> m_topic m = discovery_topic o' c u)))"

lemma split_on_snoc: "split_on c (s @ c # t) = split_on c s @ split_on c t"
  by (induction s) (auto split: list.splits)

lemma discovery_topic_uid:
  assumes "no_slash c" "no_slash u" "no_slash c'" "no_slash u'"
    and "discovery_topic o' c u = discovery_topic o' c' u'"
  shows "u = u'"
proof -
  have "split_on (CHR ''/'') (discovery_topic o' c u) =
      split_on (CHR ''/'') (HADiscoveryPrefix (Publish o')) @ [c, u, ''config'']"
    if "no_slash c" "no_slash u" for c u
    using that by (simp add: discovery_topic_def split_on_snoc split_on_append split_on_single no_slash_def)
  then show ?thesis using assms by (metis append_same_eq list.inject same_append_eq)
qed

lemma announce_once:
  assumes inv: "announced_once o' base p" and "no_slash c" "no_slash uid"
  shows "announced_once o' base (announce E o' uid (discovery_topic o' c uid) pl p)"
proof -
  obtain new where new: "outbox p = base @ new" "distinct (map m_topic (acked new))"
    "\<forall>m \<in> set (acked new). m_retain m \<and>
       (\<exists>c u. no_slash c \<and> no_slash u \<and> u \<in> discovered p \<and> m_topic m = discovery_topic o' c u)"
    using inv unfolding announced_once_def by blast
  show ?thesis
  proof (cases rule: announce_cases [of uid p E o' "discovery_topic o' c uid" pl])
    case (rejected m)
    then show ?thesis
      using new unfolding announced_once_def by (intro exI [of _ "new @ [(m, False)]"]) simp
  next
    case (announced m)
    have "m_topic m' \<noteq> m_topic m" if m': "m' \<in> set (acked new)" for m'
    proof
      assume e: "m_topic m' = m_topic m"
      obtain c' u' where "no_slash c'" "no_slash u'" "u' \<in> discovered p" "m_topic m' = discovery_topic o' c' u'"
        using new(3) m' by blast
      then show False using e announced discovery_topic_uid [of c' u' c uid o'] assms(2,3) by simp
    qed
    then have "m_topic m \<notin> m_topic ` set (acked new)" by force
    then have "distinct (map m_topic (acked (new @ [(m, True)])))"
      using new(2) by simp
    moreover have "\<forall>m' \<in> set (acked (new @ [(m, True)])). m_retain m' \<and>
       (\<exists>c u. no_slash c \<and> no_slash u \<and> u \<in> insert uid (discovered p) \<and> m_topic m' = discovery_topic o' c u)"
    proof
      fix m' assume "m' \<in> set (acked (new @ [(m, True)]))"
      then consider "m' \<in> set (acked new)" | "m' = m" by auto
      then show "m_retain m' \<and> (\<exists>c u. no_slash c \<and> no_slash u \<and> u \<in> insert uid (discovered p) \<and>
          m_topic m' = discovery_topic o' c u)"
        using new(3) announced(2,3) assms(2,3) by cases blast+
    qed
    ultimately show ?thesis
      using new(1) announced(5) unfolding announced_once_def
      by (intro exI [of _ "new @ [(m, True)]"]) simp
  qed (use inv in simp_all)
qed

lemma no_slash_append [simp]: "no_slash (s @ t) \<longleftrightarrow> no_slash s \<and> no_slash t"
  by (simp add: no_slash_def)

lemma no_slash_sanitize [simp]: "no_slash (sanitize_topic_segment U s)"
  using sanitize_bytes topic_byte_plain unfolding no_slash_def by blast

lemma entity_unique_id_no_slash: "no_slash (entity_unique_id U sd spec)"
proof -
  have "no_slash ''gorflink_''" "no_slash ''_''" by (simp_all add: no_slash_def)
  then show ?thesis unfolding entity_unique_id_def no_slash_append by simp
qed

lemma spec_component: "no_slash (es_component (resolve_ha_entity_spec U field))"
proof -
  have "es_component (resolve_ha_entity_spec U field) \<in> {''sensor'', ''binary_sensor''}"
    by (simp add: resolve_ha_entity_spec_def ha_entity_specs_def plain_entity_def split: option.splits)
  then show ?thesis by (auto simp: no_slash_def)
qed

lemma publish_ha_entity_once:
  "announced_once o' base p \<Longrightarrow> announced_once o' base (publish_ha_entity E o' sd field p)"
  unfolding publish_ha_entity_def Let_def
  by (rule announce_once) (simp_all add: spec_component entity_unique_id_no_slash)

lemma fold_invariant: "(\<And>x s. x \<in> set xs \<Longrightarrow> P s \<Longrightarrow> P (f x s)) \<Longrightarrow> P s \<Longrightarrow> P (fold f xs s)"
  by (induction xs arbitrary: s) auto

lemma publish_ha_discovery_once:
  "announced_once o' base p \<Longrightarrow> announced_once o' base (publish_ha_discovery E o' rank sd fs p)"
  unfolding publish_ha_discovery_def
  by (rule fold_invariant) (simp_all add: discovery_step_def publish_ha_entity_once)

lemma show_nat_no_slash: "no_slash (show_nat n)"
proof (induction n rule: show_nat.induct)
  case (1 n)
  have "CHR ''/'' \<noteq> char_of (48 + d)" if "d < 10" for d :: nat
  proof
    assume "CHR ''/'' = char_of (48 + d)"
    then have "byte (CHR ''/'') = (48 + d :: nat)" using that by (simp add: of_char_of)
    then show False by simp
  qed
  then have "no_slash [char_of (48 + n mod 10)]" by (simp add: no_slash_def)
  moreover have "no_slash (show_nat (n div 10))" if "\<not> n < 10" using 1 that by simp
  ultimately show ?case by (subst show_nat.simps) (auto simp: no_slash_def)
qed

lemma announce_indexed_once:
  assumes "announced_once o' base q" and "no_slash c" and "no_slash s"
  shows "announced_once o' base (announce E o' (s @ show_nat i) (discovery_topic o' c (s @ show_nat i)) pl q)"
  using assms by (intro announce_once) (simp_all add: show_nat_no_slash)

lemma publish_ha_buttons_once:
  assumes "announced_once o' base p"
  shows "announced_once o' base (publish_ha_buttons E o' p)"
  unfolding publish_ha_buttons_def split_beta Let_def
  by (rule fold_invariant, rule announce_indexed_once) (use assms in \<open>simp_all add: no_slash_def\<close>)

lemma publish_ha_switches_once:
  assumes "announced_once o' base p"
  shows "announced_once o' base (publish_ha_switches E o' p)"
  unfolding publish_ha_switches_def split_beta Let_def
  by (rule fold_invariant, rule announce_indexed_once) (use assms in \<open>simp_all add: no_slash_def\<close>)

lemma publish_ha_actuators_once:
  "announced_once o' base p \<Longrightarrow> announced_once o' base (publish_ha_actuators E o' p)"
  by (simp add: publish_ha_actuators_def publish_ha_buttons_once publish_ha_switches_once)

section \<open>Property\<close>

definition discover_all ::
  "env \<Rightarrow> options \<Rightarrow> ((string \<Rightarrow> nat) \<times> sensor_data \<times> (string \<times> string) list) list \<Rightarrow> publisher \<Rightarrow> publisher" where
  "discover_all E o' calls p = fold (\<lambda>(rank, sd, fs). publish_ha_discovery E o' rank sd fs) calls p"



end
