(* ===== verification/Publisher.thy ===== *)
theory Publisher
  imports HomeAssistant
begin

text \<open>
  The operations of \<open>rflink/publisher.go\<close> that the rest of the program calls: publishing a sensor, the
  buffer of sensors that could not be published, the reaction to a serial line and to MQTT events,
  and the health snapshot. \<open>rk\<close> gives the order in which the loops over the fields visit them.
\<close>

section \<open>Starting up\<close>

definition broker_scheme :: "unicode \<Rightarrow> options \<Rightarrow> string" where
  "broker_scheme U o' =
     (let s = to_lower U (trim_space (Scheme (Publish o'))) in
      if s = ''tcp'' \<or> s = ''mqtt'' then ''mqtt''
      else if s = ''ssl'' \<or> s = ''tls'' \<or> s = ''mqtts'' then ''tls''
      else s)"

definition broker_url_text :: "unicode \<Rightarrow> options \<Rightarrow> string" where
  "broker_url_text U o' = broker_scheme U o' @ ''://'' @ Host (Publish o')"

text \<open>\<open>url.Parse\<close> is an argument: an error text or the parsed value.\<close>

definition build_broker_url :: "unicode \<Rightarrow> (string \<Rightarrow> string + 'u) \<Rightarrow> options \<Rightarrow> string + 'u" where
  "build_broker_url U parse o' = parse (broker_url_text U o')"

record tls_config =
  tls_InsecureSkipVerify :: bool
  tls_RootCAs :: "string option"

datatype tls_error = ReadCAFile string | ParseCAFile string

text \<open>The file system and the PEM parser are arguments.\<close>

definition build_tls_config ::
  "unicode \<Rightarrow> (string \<Rightarrow> string + string) \<Rightarrow> (string \<Rightarrow> bool) \<Rightarrow> options \<Rightarrow> tls_error + tls_config option" where
  "build_tls_config U read_file pem_ok o' =
     (if \<not> is_tls_scheme U o' then Inr None
      else (let cfg = \<lparr>tls_InsecureSkipVerify = TLSInsecureSkipVerify (Publish o'), tls_RootCAs = None\<rparr> in
            if TLSCAFile (Publish o') = [] then Inr (Some cfg)
            else (case read_file (TLSCAFile (Publish o')) of
                    Inl e \<Rightarrow> Inl (ReadCAFile e)
                  | Inr pem \<Rightarrow> if pem_ok pem then Inr (Some (cfg\<lparr>tls_RootCAs := Some pem\<rparr>))
                               else Inl (ParseCAFile (TLSCAFile (Publish o'))))))"

text \<open>The last will: the configured one, or the retained status topic.\<close>

definition will_message :: "options \<Rightarrow> mqtt_msg" where
  "will_message o' =
     (if LWTTopic (Publish o') = []
      then \<lparr>m_topic = status_topic o', m_qos = mqtt_qos o', m_retain = True, m_payload = PText status_offline\<rparr>
      else \<lparr>m_topic = LWTTopic (Publish o'), m_qos = lwt_qos o', m_retain = LWTRetain (Publish o'),
            m_payload = PText (LWTMessage (Publish o'))\<rparr>)"

section \<open>The pending buffer\<close>

definition store_pending :: "options \<Rightarrow> instant \<Rightarrow> sensor_data \<Rightarrow> publisher \<Rightarrow> publisher" where
  "store_pending o' now sd p =
     (if pending_ttl o' \<le> 0 then p
      else (let safe = strip_event_fields sd in
            if Temperature safe = None \<and> Humidity safe = None \<and> Bat safe = [] \<and> Extra safe = [] then p
            else p\<lparr>pending := AList.update (topic_id safe) \<lparr>ps_sd = safe, ps_storedAt = now\<rparr> (pending p)\<rparr>))"

definition clear_pending :: "string \<Rightarrow> publisher \<Rightarrow> publisher" where
  "clear_pending key p = p\<lparr>pending := AList.delete key (pending p)\<rparr>"

section \<open>Publishing a sensor\<close>

datatype sensor_error = SensorNotConnected | FieldFailed string pub_error | SumJsonFailed pub_error

definition field_retain :: "options \<Rightarrow> string \<Rightarrow> bool" where
  "field_retain o' field =
     (if field = ''cmd'' \<or> field = ''switch'' \<or> has_prefix field ''sw_'' then False else Retain (Publish o'))"

fun publish_fields ::
  "env \<Rightarrow> options \<Rightarrow> string \<Rightarrow> (string \<times> string) list \<Rightarrow> publisher \<Rightarrow> publisher \<times> sensor_error option" where
  "publish_fields E o' topicID [] p = (p, None)"
| "publish_fields E o' topicID (e # es) p =
     (case publish_raw E (sensor_field_topic (e_tab E) o' topicID (fst e)) (PText (snd e)) (mqtt_qos o')
             (field_retain o' (fst e)) p of
        (p', Some err) \<Rightarrow> (p', Some (FieldFailed (fst e) err))
      | (p', None) \<Rightarrow> publish_fields E o' topicID es p')"

text \<open>The sensor as it is published: canonical hardware id and a display name.\<close>

definition prepared_sensor :: "env \<Rightarrow> options \<Rightarrow> sensor_data \<Rightarrow> sensor_data" where
  "prepared_sensor E o' sd =
     apply_friendly_name (e_tab E) o' (apply_canonical_hwid (e_tab E) (Some o') sd)"

definition sensor_is_ignored :: "env \<Rightarrow> options \<Rightarrow> sensor_data \<Rightarrow> bool" where
  "sensor_is_ignored E o' sd0 =
     (let sd = apply_canonical_hwid (e_tab E) (Some o') sd0 in
      sensor_ignored (e_tab E) o' (Model sd) (Hwid sd) \<or> sensor_ignored (e_tab E) o' (Model sd) (Id sd))"

definition note_published :: "env \<Rightarrow> instant \<Rightarrow> sensor_data \<Rightarrow> (string \<times> string) list \<Rightarrow> publisher \<Rightarrow> publisher" where
  "note_published E now sd fs p =
     (let p1 = clear_pending (topic_id sd) (p\<lparr>published := published p + 1\<rparr>);
          p2 = append_sensor_sample E now sd fs p1
      in if sensor_hook p2
         then (case e_marshal E (PSensor sd) of
                 Some b \<Rightarrow> p2\<lparr>hooked := hooked p2 @ [HookSensor (topic_id sd) b]\<rparr>
               | None \<Rightarrow> p2)
         else p2)"

definition note_failed :: "options \<Rightarrow> instant \<Rightarrow> sensor_data \<Rightarrow> publisher \<Rightarrow> publisher" where
  "note_failed o' now sd p =
     (let p1 = store_pending o' now sd p in p1\<lparr>publish_failed := publish_failed p1 + 1\<rparr>)"

definition publish_prepared ::
  "env \<Rightarrow> options \<Rightarrow> instant \<Rightarrow> (nat \<Rightarrow> string \<Rightarrow> nat) \<Rightarrow> sensor_data \<Rightarrow> publisher \<Rightarrow> publisher \<times> sensor_error option" where
  "publish_prepared E o' now rk sd p =
     (let fs = fields_for_publish (e_tab E) (temperature_unit o') sd;
          p1 = (if HomeAssistantDiscovery (Publish o') then publish_ha_discovery E o' (rk 0) sd fs p else p)
      in case publish_fields E o' (topic_id sd) (range_order (rk 1) fs) p1 of
           (p2, Some e) \<Rightarrow> (note_failed o' now sd p2, Some e)
         | (p2, None) \<Rightarrow>
             (case publish_raw E (sensor_field_topic (e_tab E) o' (topic_id sd) ''sumJson'') (PSensor sd)
                     (mqtt_qos o') (Retain (Publish o')) p2 of
                (p3, Some e) \<Rightarrow> (note_failed o' now sd p3, Some (SumJsonFailed e))
              | (p3, None) \<Rightarrow> (note_published E now sd fs p3, None)))"

definition publish_sensor ::
  "env \<Rightarrow> options \<Rightarrow> instant \<Rightarrow> (nat \<Rightarrow> string \<Rightarrow> nat) \<Rightarrow> sensor_data \<Rightarrow> publisher \<Rightarrow> publisher \<times> sensor_error option" where
  "publish_sensor E o' now rk sd0 p =
     (if \<not> cm_set p then (p, Some SensorNotConnected)
      else if sensor_is_ignored E o' sd0 then (p, None)
      else (let sd = prepared_sensor E o' sd0;
                p1 = p\<lparr>last_sensor_at := Some now, last_sensor_hwid := topic_id sd\<rparr>
            in publish_prepared E o' now rk sd (note_sensor_seen (topic_id sd) now p1)))"

text \<open>
  \<open>flushPending\<close> first empties the buffer under the lock, dropping what is too old, and then publishes
  the rest one by one.
\<close>

definition pending_expired :: "options \<Rightarrow> instant \<Rightarrow> pending_sensor \<Rightarrow> bool" where
  "pending_expired o' now item = (pending_ttl o' < time_sub now (ps_storedAt item))"

definition flush_item ::
  "env \<Rightarrow> options \<Rightarrow> instant \<Rightarrow> (string \<Rightarrow> nat \<Rightarrow> string \<Rightarrow> nat) \<Rightarrow> string \<times> pending_sensor \<Rightarrow> publisher \<Rightarrow> publisher" where
  "flush_item E o' now rks item p =
     (case publish_sensor E o' now (rks (fst item)) (ps_sd (snd item)) p of
        (p', Some _) \<Rightarrow> p'
      | (p', None) \<Rightarrow> p'\<lparr>pending_flushed := pending_flushed p' + 1\<rparr>)"

definition flush_pending ::
  "env \<Rightarrow> options \<Rightarrow> instant \<Rightarrow> (string \<Rightarrow> nat) \<Rightarrow> (string \<Rightarrow> nat \<Rightarrow> string \<Rightarrow> nat) \<Rightarrow> publisher \<Rightarrow> publisher" where
  "flush_pending E o' now rank rks p =
     (if pending_ttl o' \<le> 0 then p
      else (let all = range_order rank (pending p);
                items = filter (\<lambda>e. \<not> pending_expired o' now (snd e)) all;
                p1 = p\<lparr>pending := [],
                       pending_dropped := pending_dropped p
                         + of_nat (length (filter (\<lambda>e. pending_expired o' now (snd e)) all))\<rparr>
            in fold (flush_item E o' now rks) items p1))"

section \<open>Reactions\<close>

definition handle_serial_message ::
  "env \<Rightarrow> options \<Rightarrow> instant \<Rightarrow> (nat \<Rightarrow> string \<Rightarrow> nat) \<Rightarrow> string \<Rightarrow> publisher \<Rightarrow> publisher" where
  "handle_serial_message E o' now rk msg p0 =
     (let p1 = append_raw_line E now msg p0 in
      case is_duplicate o' now msg p1 of
        (p2, True) \<Rightarrow> p2
      | (p2, False) \<Rightarrow>
          (case parse_gateway_message (e_tab E) (e_rfc3339nano E now) msg of
             Some info \<Rightarrow>
               fst (publish_gateway_info E o' (Some info) (if gw_Pong info then note_pong now p2 else p2))
           | None \<Rightarrow>
               (case sensor_data_from_message (e_tab E) (e_rfc3339nano E now) msg of
                  Inl _ \<Rightarrow> p2
                | Inr sd \<Rightarrow> fst (publish_sensor E o' now rk sd p2))))"

text \<open>The callbacks of the connection manager. Subscribing has no effect on the publisher's state.\<close>

definition subscriptions :: "options \<Rightarrow> publisher \<Rightarrow> (string \<times> 8 word) list" where
  "subscriptions o' p =
     (if cmd_handler p then [(CmdTopic (Publish o'), mqtt_qos o')] else [])
     @ (if HomeAssistantDiscovery (Publish o') then [(ha_rediscover_topic o', mqtt_qos o')] else [])"

definition on_connection_up ::
  "env \<Rightarrow> options \<Rightarrow> instant \<Rightarrow> (string \<Rightarrow> nat) \<Rightarrow> (string \<Rightarrow> nat \<Rightarrow> string \<Rightarrow> nat) \<Rightarrow> publisher \<Rightarrow> publisher" where
  "on_connection_up E o' now rank rks p =
     (let p1 = p\<lparr>mqtt_up := True\<rparr>;
          p2 = fst (publish_raw E (status_topic o') (PText status_online) (mqtt_qos o') True p1);
          p3 = fst (publish_raw E (serial_status_topic o')
                 (PText (if serial_up p2 then status_online else status_offline)) (mqtt_qos o') True p2)
      in flush_pending E o' now rank rks (publish_ha_actuators E o' p3))"

definition on_connection_down :: "publisher \<Rightarrow> publisher" where
  "on_connection_down p = p\<lparr>mqtt_up := False\<rparr>"

text \<open>A received message: the publisher afterwards, and the payload passed to the command handler.\<close>

definition on_publish_received ::
  "env \<Rightarrow> options \<Rightarrow> string \<Rightarrow> string \<Rightarrow> publisher \<Rightarrow> publisher \<times> string option" where
  "on_publish_received E o' topic pl p =
     (if topic = ha_rediscover_topic o' then (clear_ha_discovery E o' p, None)
      else if topic = CmdTopic (Publish o') \<and> cmd_handler p then (p, Some pl)
      else (p, None))"

definition subscribe_commands :: "publisher \<Rightarrow> publisher" where
  "subscribe_commands p = p\<lparr>cmd_handler := True\<rparr>"

definition publisher_disconnect :: "env \<Rightarrow> options \<Rightarrow> publisher \<Rightarrow> publisher" where
  "publisher_disconnect E o' p =
     (if cm_set p \<and> mqtt_up p then
        (let p1 = fst (publish_raw E (status_topic o') (PText status_offline) (mqtt_qos o') True p)
         in fst (publish_raw E (serial_status_topic o') (PText status_offline) (mqtt_qos o') True p1))
      else p)"

section \<open>Health\<close>

definition format_opt :: "(instant \<Rightarrow> string) \<Rightarrow> instant option \<Rightarrow> string" where
  "format_opt fmt t = (case t of None \<Rightarrow> [] | Some i \<Rightarrow> fmt i)"

definition serial_is_stale :: "options \<Rightarrow> instant \<Rightarrow> publisher \<Rightarrow> bool" where
  "serial_is_stale o' now p =
     (0 < serial_watchdog o' \<and>
      serial_watchdog o' < time_sub now (case last_serial_at p of Some t \<Rightarrow> t | None \<Rightarrow> started_at p))"

definition publisher_snapshot :: "env \<Rightarrow> options \<Rightarrow> instant \<Rightarrow> publisher \<Rightarrow> health_snapshot" where
  "publisher_snapshot E o' now p =
     \<lparr>hs_Version = e_version E, hs_GitSHA = e_git_sha E, hs_StartedAt = e_rfc3339 E (started_at p),
      hs_Status = (if mqtt_up p then status_online else status_offline),
      hs_Published = published p, hs_PublishFailed = publish_failed p,
      hs_PendingFlushed = pending_flushed p, hs_PendingDropped = pending_dropped p,
      hs_PendingBuffered = length (pending p), hs_SerialDropped = serial_dropped p,
      hs_DedupDropped = dedup_dropped p, hs_Panics = panics p,
      hs_CommandsRejected = commands_rejected p, hs_CommandsLimited = commands_limited p,
      hs_LastSensorAt = format_opt (e_rfc3339 E) (last_sensor_at p),
      hs_LastSensorHWID = last_sensor_hwid p,
      hs_LastSerialAt = format_opt (e_rfc3339 E) (last_serial_at p),
      hs_SerialStale = serial_is_stale o' now p, hs_SerialConnected = serial_up p,
      hs_RFLinkUnresponsive = rflink_unresp p,
      hs_LastPongAt = format_opt (e_rfc3339 E) (last_pong_at p), hs_PingFails = ping_fails p,
      hs_UptimeSec = whole_seconds (time_sub now (started_at p)), hs_MQTTConnected = mqtt_up p,
      hs_SensorsLastSeen = sensors_last_seen E p\<rparr>"

definition report_health :: "env \<Rightarrow> options \<Rightarrow> instant \<Rightarrow> publisher \<Rightarrow> publisher" where
  "report_health E o' now p =
     fst (publish_raw E (health_topic o') (PHealth (publisher_snapshot E o' now p)) (mqtt_qos o') True p)"

section \<open>The publish loop\<close>

text \<open>What the \<open>select\<close> of the loop receives, and one round of it.\<close>

datatype loop_event = HealthTick | WatchdogTick | PingCheckTick | SerialMsg string

definition loop_step ::
  "env \<Rightarrow> options \<Rightarrow> (nat \<Rightarrow> string \<Rightarrow> nat) \<Rightarrow> instant \<times> loop_event \<Rightarrow> publisher \<Rightarrow> publisher" where
  "loop_step E o' rk ev p =
     (let now = fst ev in
      case snd ev of
        HealthTick \<Rightarrow> report_health E o' now p
      | WatchdogTick \<Rightarrow> check_ping_timeout o' now p
      | PingCheckTick \<Rightarrow> check_ping_timeout o' now p
      | SerialMsg msg \<Rightarrow> handle_serial_message E o' now rk msg (note_serial_activity now p))"

definition watchdog_tick :: "options \<Rightarrow> duration option" where
  "watchdog_tick o' =
     (if 0 < serial_watchdog o' then Some (max (serial_watchdog o' div 4) (seconds 10)) else None)"

definition ping_check_tick :: "options \<Rightarrow> duration option" where
  "ping_check_tick o' =
     (if 0 < serial_ping_interval o' then Some (max (serial_ping_timeout o') (seconds 1)) else None)"

text \<open>A panic of one round is counted, and the loop starts again.\<close>

definition loop_recovered :: "publisher \<Rightarrow> publisher" where
  "loop_recovered p = p\<lparr>panics := panics p + 1\<rparr>"

section \<open>What the publications change\<close>

text \<open>\<open>sends P p p'\<close>: the outbox grew by messages with \<open>P\<close>.\<close>

definition sends :: "(mqtt_msg \<times> bool \<Rightarrow> bool) \<Rightarrow> publisher \<Rightarrow> publisher \<Rightarrow> bool" where
  "sends P p p' \<longleftrightarrow> (\<exists>new. outbox p' = outbox p @ new \<and> (\<forall>x \<in> set new. P x))"

lemma sends_same: "outbox p' = outbox p \<Longrightarrow> sends P p p'"
  by (auto simp: sends_def)

lemma sends_trans: "sends P p q \<Longrightarrow> sends P q r \<Longrightarrow> sends P p r"
  by (auto simp: sends_def)

lemma sends_publish_raw:
  assumes "\<And>b. P (\<lparr>m_topic = topic, m_qos = qos, m_retain = r, m_payload = pl\<rparr>, b)"
  shows "sends P p (fst (publish_raw E topic pl qos r p))"
  by (cases rule: publish_raw_cases [of E topic pl qos r p]) (use assms in \<open>auto simp: sends_def\<close>)

lemma sends_announce:
  assumes "\<And>m b. m_retain m \<Longrightarrow> m_topic m = topic \<Longrightarrow> m_payload m = pl \<Longrightarrow> P (m, b)"
  shows "sends P p (announce E o' uid topic pl p)"
  by (cases rule: announce_cases [of uid p E o' topic pl]) (use assms in \<open>auto simp: sends_def\<close>)

lemma sends_fold: "(\<And>x q. x \<in> set xs \<Longrightarrow> sends P q (f x q)) \<Longrightarrow> sends P p (fold f xs p)"
  by (rule fold_invariant) (auto intro: sends_trans sends_same)

text \<open>Publishing changes the outbox only, announcing also the set of ids announced.\<close>

definition rest :: "publisher \<Rightarrow> publisher" where
  "rest p = p\<lparr>outbox := [], discovered := {}\<rparr>"

lemma rest_simps [simp]:
  "cm_set (rest p) = cm_set p" "pending (rest p) = pending p" "published (rest p) = published p"
  "publish_failed (rest p) = publish_failed p" "pending_flushed (rest p) = pending_flushed p"
  "pending_dropped (rest p) = pending_dropped p" "dedup_last (rest p) = dedup_last p"
  "sensor_seen (rest p) = sensor_seen p" "last_sensor_at (rest p) = last_sensor_at p"
  "ping_sent_at (rest p) = ping_sent_at p" "ping_fails (rest p) = ping_fails p"
  "rflink_unresp (rest p) = rflink_unresp p" "last_pong_at (rest p) = last_pong_at p"
  "samples (rest p) = samples p" "sample_cap (rest p) = sample_cap p" "raw_lines (rest p) = raw_lines p"
  "mqtt_up (rest p) = mqtt_up p" "serial_up (rest p) = serial_up p"
  by (simp_all add: rest_def)

lemma rest_update [simp]: "rest (p\<lparr>outbox := ob\<rparr>) = rest p" "rest (p\<lparr>discovered := d\<rparr>) = rest p"
  by (simp_all add: rest_def)

lemma rest_publish_raw [simp]: "rest (fst (publish_raw E topic pl qos r p)) = rest p"
  by (cases rule: publish_raw_cases [of E topic pl qos r p]) simp_all

lemma rest_announce [simp]: "rest (announce E o' uid topic pl p) = rest p"
  by (cases rule: announce_cases [of uid p E o' topic pl]) simp_all

lemma rest_fold: "(\<And>x q. rest (f x q) = rest q) \<Longrightarrow> rest (fold f xs p) = rest p"
  by (induction xs arbitrary: p) simp_all

lemma rest_ha_discovery [simp]: "rest (publish_ha_discovery E o' rank sd fs p) = rest p"
  unfolding publish_ha_discovery_def
  by (rule rest_fold) (simp add: discovery_step_def publish_ha_entity_def Let_def)

lemma rest_ha_actuators [simp]: "rest (publish_ha_actuators E o' p) = rest p"
  by (simp add: publish_ha_actuators_def publish_ha_buttons_def publish_ha_switches_def Let_def split_beta rest_fold)

lemma rest_publish_fields [simp]: "rest (fst (publish_fields E o' i es p)) = rest p"
proof (induction es arbitrary: p)
  case (Cons e es)
  let ?r = "publish_raw E (sensor_field_topic (e_tab E) o' i (fst e)) (PText (snd e)) (mqtt_qos o') (field_retain o' (fst e)) p"
  have "rest (fst ?r) = rest p" by simp
  then show ?case using Cons.IH [of "fst ?r"] by (cases ?r; cases "snd ?r") simp_all
qed simp

lemma rest_pending: "rest p = rest q \<Longrightarrow> pending p = pending q"
  and rest_counts: "rest p = rest q \<Longrightarrow> published p = published q \<and> publish_failed p = publish_failed q"
  and rest_cm: "rest p = rest q \<Longrightarrow> cm_set p = cm_set q"
  by (metis rest_simps)+

section \<open>Messages of a sensor\<close>

text \<open>
  Every message that \<open>PublishSensor\<close> hands to the broker is a retained discovery message, the value of
  a field under its own topic, or the summary; events are never retained.
\<close>

definition sensor_msg :: "env \<Rightarrow> options \<Rightarrow> sensor_data \<Rightarrow> mqtt_msg \<Rightarrow> bool" where
  "sensor_msg E o' sd m =
     (case m_payload m of
        PEntity _ \<Rightarrow> m_retain m
      | PText v \<Rightarrow> list_ex (\<lambda>(f, w). w = v \<and> m_topic m = sensor_field_topic (e_tab E) o' (topic_id sd) f \<and>
            (m_retain m \<longleftrightarrow> Retain (Publish o') \<and> \<not> event_field f))
          (fields_for_publish (e_tab E) (temperature_unit o') sd)
      | PSensor sd' \<Rightarrow> sd' = sd \<and> m_topic m = sensor_field_topic (e_tab E) o' (topic_id sd) ''sumJson''
      | _ \<Rightarrow> False)"

lemma sends_publish_fields:
  assumes "\<And>f v b. (f, v) \<in> set es \<Longrightarrow> P (\<lparr>m_topic = sensor_field_topic (e_tab E) o' i f, m_qos = mqtt_qos o',
      m_retain = field_retain o' f, m_payload = PText v\<rparr>, b)"
  shows "sends P p (fst (publish_fields E o' i es p))"
  using assms
proof (induction es arbitrary: p)
  case Nil
  then show ?case by (simp add: sends_same)
next
  case (Cons e es)
  let ?r = "publish_raw E (sensor_field_topic (e_tab E) o' i (fst e)) (PText (snd e)) (mqtt_qos o') (field_retain o' (fst e)) p"
  have r: "sends P p (fst ?r)"
    by (rule sends_publish_raw) (use Cons.prems [of "fst e" "snd e"] in simp)
  have "sends P (fst ?r) (fst (publish_fields E o' i es (fst ?r)))"
    by (rule Cons.IH) (use Cons.prems in simp)
  with r have "sends P p (fst (publish_fields E o' i es (fst ?r)))" by (rule sends_trans)
  then show ?case using r by (cases ?r; cases "snd ?r") simp_all
qed

lemma sends_ha_discovery: 
  assumes "\<And>m b hp. m_retain m \<Longrightarrow> m_payload m = PEntity hp \<Longrightarrow> P (m, b)"
  shows "sends P p (publish_ha_discovery E o' rank sd fs p)"
  unfolding publish_ha_discovery_def discovery_step_def publish_ha_entity_def Let_def
  by (rule sends_fold) (auto intro!: sends_same sends_announce assms)

lemma field_retain_event: "field_retain o' f \<longleftrightarrow> Retain (Publish o') \<and> \<not> event_field f"
  by (auto simp: field_retain_def event_field_def)

lemma outbox_notes [simp]:
  "outbox (note_failed o' now sd p) = outbox p" "outbox (note_published E now sd fs p) = outbox p"
  "outbox (note_sensor_seen h t p) = outbox p"
  by (simp_all add: note_failed_def store_pending_def Let_def note_published_def clear_pending_def
      append_sensor_sample_def note_sensor_seen_def split: option.splits)

lemma sends_publish_prepared:
  "sends (\<lambda>x. sensor_msg E o' sd (fst x)) p (fst (publish_prepared E o' now rk sd p))"
proof -
  let ?P = "\<lambda>x :: mqtt_msg \<times> bool. sensor_msg E o' sd (fst x)"
  let ?fs = "fields_for_publish (e_tab E) (temperature_unit o') sd"
  define p1 where "p1 = (if HomeAssistantDiscovery (Publish o') then publish_ha_discovery E o' (rk 0) sd ?fs p else p)"
  define r2 where "r2 = publish_fields E o' (topic_id sd) (range_order (rk 1) ?fs) p1"
  define r3 where "r3 = publish_raw E (sensor_field_topic (e_tab E) o' (topic_id sd) ''sumJson'') (PSensor sd)
      (mqtt_qos o') (Retain (Publish o')) (fst r2)"
  have "sends ?P p p1"
    by (simp add: p1_def sends_same) (auto intro!: sends_ha_discovery simp: sensor_msg_def)
  moreover have "sends ?P p1 (fst r2)"
    unfolding r2_def by (rule sends_publish_fields) (auto simp: sensor_msg_def field_retain_event list_ex_iff)
  ultimately have s2: "sends ?P p (fst r2)" by (rule sends_trans)
  moreover have "sends ?P (fst r2) (fst r3)"
    unfolding r3_def by (rule sends_publish_raw) (simp add: sensor_msg_def)
  ultimately have s3: "sends ?P p (fst r3)" by (rule sends_trans)
  have e: "outbox (fst (publish_prepared E o' now rk sd p)) = (if snd r2 = None then outbox (fst r3) else outbox (fst r2))"
    unfolding publish_prepared_def Let_def p1_def [symmetric] r2_def [symmetric] r3_def
    by (cases r2; cases "snd r2"; cases "snd r3") (auto simp: r3_def split: prod.splits option.splits)
  show ?thesis
    using s2 s3 e unfolding sends_def by (auto split: if_splits)
qed

section \<open>The outcome of a publication\<close>

definition field_acked :: "env \<Rightarrow> options \<Rightarrow> string \<Rightarrow> (mqtt_msg \<times> bool) list \<Rightarrow> string \<times> string \<Rightarrow> bool" where
  "field_acked E o' i out e =
     list_ex (\<lambda>(m, b). b \<and> m_topic m = sensor_field_topic (e_tab E) o' i (fst e) \<and> m_payload m = PText (snd e)) out"

lemma field_acked_mono: "field_acked E o' i out e \<Longrightarrow> set out \<subseteq> set out' \<Longrightarrow> field_acked E o' i out' e"
  by (auto simp: field_acked_def list_ex_iff)

lemma publish_raw_ok:
  assumes "publish_raw E topic pl qos r p = (p', None)"
  shows "\<exists>m. outbox p' = outbox p @ [(m, True)] \<and> m_topic m = topic \<and> m_payload m = pl"
  by (cases rule: publish_raw_cases [of E topic pl qos r p]) (use assms in \<open>auto split: if_splits\<close>)

lemma publish_raw_grows: "set (outbox p) \<subseteq> set (outbox (fst (publish_raw E topic pl qos r p)))"
  by (cases rule: publish_raw_cases [of E topic pl qos r p]) auto

lemma publish_fields_grows: "set (outbox p) \<subseteq> set (outbox (fst (publish_fields E o' i es p)))"
proof -
  have "sends (\<lambda>_. True) p (fst (publish_fields E o' i es p))" by (rule sends_publish_fields) simp
  then show ?thesis by (auto simp: sends_def)
qed

lemma publish_fields_ok:
  assumes "publish_fields E o' i es p = (p', None)" and "e \<in> set es"
  shows "field_acked E o' i (outbox p') e"
  using assms
proof (induction es arbitrary: p)
  case (Cons x es)
  obtain q where q: "publish_raw E (sensor_field_topic (e_tab E) o' i (fst x)) (PText (snd x)) (mqtt_qos o')
      (field_retain o' (fst x)) p = (q, None)" and r: "publish_fields E o' i es q = (p', None)"
    using Cons.prems(1) by (auto split: prod.splits option.splits)
  show ?case
  proof (cases "e = x")
    case True
    have "field_acked E o' i (outbox q) x"
      using publish_raw_ok [OF q] by (auto simp: field_acked_def)
    then show ?thesis
      using field_acked_mono publish_fields_grows [of q E o' i es] r True by simp
  qed (use Cons.IH [OF r] Cons.prems(2) in simp)
qed simp

definition storable :: "options \<Rightarrow> sensor_data \<Rightarrow> bool" where
  "storable o' sd =
     (0 < pending_ttl o' \<and> (Temperature sd \<noteq> None \<or> Humidity sd \<noteq> None \<or> Bat sd \<noteq> [] \<or> Extra sd \<noteq> []))"

lemma store_pending_eq:
  "store_pending o' now sd p =
    (if storable o' sd
     then p\<lparr>pending := AList.update (topic_id sd) \<lparr>ps_sd = strip_event_fields sd, ps_storedAt = now\<rparr> (pending p)\<rparr>
     else p)"
  by (auto simp: store_pending_def storable_def Let_def)

lemma note_failed_simps [simp]:
  "published (note_failed o' now sd p) = published p"
  "publish_failed (note_failed o' now sd p) = publish_failed p + 1"
  "pending (note_failed o' now sd p) = pending (store_pending o' now sd p)"
  by (simp_all add: note_failed_def Let_def store_pending_eq)

lemma note_published_simps [simp]:
  "published (note_published E now sd fs p) = published p + 1"
  "publish_failed (note_published E now sd fs p) = publish_failed p"
  "pending (note_published E now sd fs p) = AList.delete (topic_id sd) (pending p)"
  by (simp_all add: note_published_def Let_def clear_pending_def append_sensor_sample_def split: option.splits)

lemma store_pending_cong: "pending p = pending q \<Longrightarrow> pending (store_pending o' now sd p) = pending (store_pending o' now sd q)"
  by (simp add: store_pending_eq)

text \<open>The two ways \<open>publish_prepared\<close> ends.\<close>

lemma publish_prepared_cases:
  obtains (failed) e where "snd (publish_prepared E o' now rk sd p) = Some e"
      "published (fst (publish_prepared E o' now rk sd p)) = published p"
      "publish_failed (fst (publish_prepared E o' now rk sd p)) = publish_failed p + 1"
      "pending (fst (publish_prepared E o' now rk sd p)) = pending (store_pending o' now sd p)"
  | (succeeded) m where "snd (publish_prepared E o' now rk sd p) = None"
      "published (fst (publish_prepared E o' now rk sd p)) = published p + 1"
      "publish_failed (fst (publish_prepared E o' now rk sd p)) = publish_failed p"
      "pending (fst (publish_prepared E o' now rk sd p)) = AList.delete (topic_id sd) (pending p)"
      "\<forall>e \<in> set (fields_for_publish (e_tab E) (temperature_unit o') sd).
         field_acked E o' (topic_id sd) (outbox (fst (publish_prepared E o' now rk sd p))) e"
      "(m, True) \<in> set (outbox (fst (publish_prepared E o' now rk sd p)))" "m_payload m = PSensor sd"
      "m_topic m = sensor_field_topic (e_tab E) o' (topic_id sd) ''sumJson''"
proof -
  let ?fs = "fields_for_publish (e_tab E) (temperature_unit o') sd"
  define p1 where "p1 = (if HomeAssistantDiscovery (Publish o') then publish_ha_discovery E o' (rk 0) sd ?fs p else p)"
  have r1: "rest p1 = rest p" by (simp add: p1_def)
  obtain p2 e2 where f: "publish_fields E o' (topic_id sd) (range_order (rk 1) ?fs) p1 = (p2, e2)" by fastforce
  have "rest (fst (publish_fields E o' (topic_id sd) (range_order (rk 1) ?fs) p1)) = rest p1"
    by (rule rest_publish_fields)
  then have r2: "rest p2 = rest p" unfolding f r1 by simp
  show thesis
  proof (cases e2)
    case (Some e)
    then have pp: "publish_prepared E o' now rk sd p = (note_failed o' now sd p2, Some e)"
      using f unfolding publish_prepared_def Let_def p1_def by simp
    show thesis
      by (rule failed [of e]) (use pp rest_counts [OF r2] store_pending_cong [OF rest_pending [OF r2]] in simp_all)
  next
    case None
    obtain p3 e3 where s: "publish_raw E (sensor_field_topic (e_tab E) o' (topic_id sd) ''sumJson'') (PSensor sd)
        (mqtt_qos o') (Retain (Publish o')) p2 = (p3, e3)" by fastforce
    have r3: "rest p3 = rest p" using rest_publish_raw [of E] r2 s by (metis fst_conv)
    show thesis
    proof (cases e3)
      case (Some e)
      then have pp: "publish_prepared E o' now rk sd p = (note_failed o' now sd p3, Some (SumJsonFailed e))"
        using f None s unfolding publish_prepared_def Let_def p1_def by simp
      show thesis
        by (rule failed [of "SumJsonFailed e"])
          (use pp rest_counts [OF r3] store_pending_cong [OF rest_pending [OF r3]] in simp_all)
    next
      case n3: None
      then have pp: "publish_prepared E o' now rk sd p = (note_published E now sd ?fs p3, None)"
        using f None s unfolding publish_prepared_def Let_def p1_def by simp
      obtain m where m: "outbox p3 = outbox p2 @ [(m, True)]" "m_payload m = PSensor sd"
        "m_topic m = sensor_field_topic (e_tab E) o' (topic_id sd) ''sumJson''"
        using publish_raw_ok s n3 by blast
      have "field_acked E o' (topic_id sd) (outbox p3) e" if "e \<in> set ?fs" for e
        using publish_fields_ok [of E o' "topic_id sd" "range_order (rk 1) ?fs" p1 p2 e] f None that m(1)
        by (auto intro: field_acked_mono)
      then show thesis
        by (intro succeeded [of m]) (use pp m rest_counts [OF r3] rest_pending [OF r3] in simp_all)
    qed
  qed
qed

section \<open>The pending buffer\<close>

text \<open>One entry per topic id, without event fields.\<close>

definition pending_inv :: "(string \<times> pending_sensor) list \<Rightarrow> bool" where
  "pending_inv pd \<longleftrightarrow> distinct (map fst pd) \<and>
     (\<forall>x \<in> set pd. Cmd (ps_sd (snd x)) = [] \<and> Switch (ps_sd (snd x)) = [] \<and> fst x = topic_id (ps_sd (snd x)))"

lemma pending_inv_store: "pending_inv (pending p) \<Longrightarrow> pending_inv (pending (store_pending o' now sd p))"
  by (auto simp: store_pending_eq pending_inv_def distinct_update elim!: set_update_cases)

lemma pending_inv_delete: "pending_inv pd \<Longrightarrow> pending_inv (AList.delete k pd)"
  unfolding AList.delete_eq by (auto simp: pending_inv_def intro: distinct_map_filter)

lemma pending_inv_prepared: "pending_inv (pending p) \<Longrightarrow> pending_inv (pending (fst (publish_prepared E o' now rk sd p)))"
  by (cases rule: publish_prepared_cases [of E o' now rk sd p])
    (simp_all add: pending_inv_store pending_inv_delete)

lemma publish_sensor_eq:
  assumes "cm_set p" and "\<not> sensor_is_ignored E o' sd"
  shows "publish_sensor E o' now rk sd p =
    publish_prepared E o' now rk (prepared_sensor E o' sd)
      (note_sensor_seen (topic_id (prepared_sensor E o' sd)) now
        (p\<lparr>last_sensor_at := Some now, last_sensor_hwid := topic_id (prepared_sensor E o' sd)\<rparr>))"
  using assms by (simp add: publish_sensor_def Let_def)

lemma note_sensor_seen_simps [simp]:
  "pending (note_sensor_seen h t p) = pending p" "published (note_sensor_seen h t p) = published p"
  "publish_failed (note_sensor_seen h t p) = publish_failed p" "cm_set (note_sensor_seen h t p) = cm_set p"
  "dedup_last (note_sensor_seen h t p) = dedup_last p"
  by (simp_all add: note_sensor_seen_def)

lemma pending_inv_sensor:
  assumes "pending_inv (pending p)"
  shows "pending_inv (pending (fst (publish_sensor E o' now rk sd p)))"
proof (cases "cm_set p \<and> \<not> sensor_is_ignored E o' sd")
  case True
  then show ?thesis using assms by (simp add: publish_sensor_eq pending_inv_prepared)
next
  case False
  then show ?thesis using assms by (auto simp: publish_sensor_def)
qed

lemma pending_inv_flush_item:
  assumes "pending_inv (pending p)"
  shows "pending_inv (pending (flush_item E o' now rks x p))"
proof -
  have "pending (flush_item E o' now rks x p) = pending (fst (publish_sensor E o' now (rks (fst x)) (ps_sd (snd x)) p))"
    by (simp add: flush_item_def split: prod.splits option.splits)
  then show ?thesis using pending_inv_sensor [OF assms] by simp
qed

lemma pending_inv_flush:
  assumes "pending_inv (pending p)"
  shows "pending_inv (pending (flush_pending E o' now rank rks p))"
proof -
  have "pending_inv []" by (simp add: pending_inv_def)
  then have "pending_inv (pending (fold (flush_item E o' now rks) xs (p\<lparr>pending := [], pending_dropped := n\<rparr>)))" for xs n
    by (intro fold_invariant [where P = "\<lambda>p. pending_inv (pending p)"] pending_inv_flush_item) simp_all
  then show ?thesis using assms by (simp add: flush_pending_def Let_def)
qed

section \<open>What a flush sends\<close>

text \<open>A message of a sensor without event fields: an event topic only for a further field of that name.\<close>

definition no_event_msg :: "env \<Rightarrow> options \<Rightarrow> sensor_data \<Rightarrow> mqtt_msg \<Rightarrow> bool" where
  "no_event_msg E o' sd m =
     (sensor_msg E o' sd m \<and> Cmd sd = [] \<and> Switch sd = [] \<and>
      (case m_payload m of
         PText v \<Rightarrow> list_ex (\<lambda>(f, w). w = v \<and> m_topic m = sensor_field_topic (e_tab E) o' (topic_id sd) f \<and>
             (event_field f \<longrightarrow> (f, v) \<in> set (Extra sd)))
           (fields_for_publish (e_tab E) (temperature_unit o') sd)
       | _ \<Rightarrow> True))"

lemma fold_add_extra_set: "x \<in> set (fold add_extra ex base) \<Longrightarrow> x \<in> set base \<or> x \<in> set ex"
proof (induction ex arbitrary: base)
  case (Cons e ex)
  then have "x \<in> set (add_extra e base) \<or> x \<in> set ex" by simp
  then show ?case by (cases e) (auto simp: add_extra_def split: if_splits elim: set_update_cases)
qed simp

lemma fields_no_event:
  assumes "Cmd sd = []" and "Switch sd = []" and "(f, v) \<in> set (fields_for_publish U unit sd)" and "event_field f"
  shows "(f, v) \<in> set (Extra sd)"
proof -
  have "strip_event_fields sd = sd" using assms(1,2) by (simp add: strip_event_fields_def)
  then have "(f, v) \<notin> set (base_fields U unit sd)"
    using stripped_base_no_event [of f v U unit sd] assms(4) by auto
  then show ?thesis
    using fold_add_extra_set assms(3) unfolding fields_for_publish_def by blast
qed

lemma no_event_msgI: "sensor_msg E o' sd m \<Longrightarrow> Cmd sd = [] \<Longrightarrow> Switch sd = [] \<Longrightarrow> no_event_msg E o' sd m"
  by (fastforce simp: no_event_msg_def sensor_msg_def list_ex_iff intro: fields_no_event split: payload.splits)

lemma prepared_sensor_simps [simp]:
  "Cmd (prepared_sensor E o' sd) = Cmd sd" "Switch (prepared_sensor E o' sd) = Switch sd"
  "Extra (prepared_sensor E o' sd) = Extra sd" "Bat (prepared_sensor E o' sd) = Bat sd"
  "Temperature (prepared_sensor E o' sd) = Temperature sd" "Humidity (prepared_sensor E o' sd) = Humidity sd"
  "Id (prepared_sensor E o' sd) = Id sd" "Model (prepared_sensor E o' sd) = Model sd"
  "Hwid (prepared_sensor E o' sd) = canonical_hwid (e_tab E) o' (Id sd) (Hwid sd)"
  by (simp_all add: prepared_sensor_def apply_friendly_name_def apply_canonical_hwid_def Let_def)

lemma sends_publish_sensor:
  "sends (\<lambda>x. sensor_msg E o' (prepared_sensor E o' sd) (fst x)) p (fst (publish_sensor E o' now rk sd p))"
proof (cases "cm_set p \<and> \<not> sensor_is_ignored E o' sd")
  case True
  let ?q = "note_sensor_seen (topic_id (prepared_sensor E o' sd)) now
      (p\<lparr>last_sensor_at := Some now, last_sensor_hwid := topic_id (prepared_sensor E o' sd)\<rparr>)"
  have "sends (\<lambda>x. sensor_msg E o' (prepared_sensor E o' sd) (fst x)) p ?q" by (simp add: sends_same)
  with sends_publish_prepared [of E o' "prepared_sensor E o' sd" ?q now rk] True show ?thesis
    by (auto simp: publish_sensor_eq intro: sends_trans)
next
  case False
  then show ?thesis by (auto simp: publish_sensor_def sends_same)
qed

lemma sends_mono: "sends P p q \<Longrightarrow> (\<And>x. P x \<Longrightarrow> Q x) \<Longrightarrow> sends Q p q"
  by (auto simp: sends_def)

lemma sends_flush_item:
  assumes "Cmd (ps_sd (snd x)) = []" and "Switch (ps_sd (snd x)) = []"
  shows "sends (\<lambda>m. no_event_msg E o' (prepared_sensor E o' (ps_sd (snd x))) (fst m)) p (flush_item E o' now rks x p)"
proof -
  have "outbox (flush_item E o' now rks x p) = outbox (fst (publish_sensor E o' now (rks (fst x)) (ps_sd (snd x)) p))"
    by (simp add: flush_item_def split: prod.splits option.splits)
  moreover have "sends (\<lambda>m. no_event_msg E o' (prepared_sensor E o' (ps_sd (snd x))) (fst m)) p
      (fst (publish_sensor E o' now (rks (fst x)) (ps_sd (snd x)) p))"
    by (rule sends_mono [OF sends_publish_sensor]) (simp add: no_event_msgI assms)
  ultimately show ?thesis by (simp add: sends_def)
qed

lemma sends_flush:
  assumes "pending_inv (pending p)"
  shows "sends (\<lambda>m. \<exists>x \<in> set (pending p). time_sub now (ps_storedAt (snd x)) \<le> pending_ttl o' \<and>
      no_event_msg E o' (prepared_sensor E o' (ps_sd (snd x))) (fst m)) p (flush_pending E o' now rank rks p)"
    (is "sends ?P p _")
proof (cases "pending_ttl o' \<le> 0")
  case True
  then show ?thesis by (simp add: flush_pending_def sends_same)
next
  case False
  define items where "items = filter (\<lambda>e. \<not> pending_expired o' now (snd e)) (range_order rank (pending p))"
  define p1 where "p1 = p\<lparr>pending := [], pending_dropped := pending_dropped p
      + of_nat (length (filter (\<lambda>e. pending_expired o' now (snd e)) (range_order rank (pending p))))\<rparr>"
  have "sends ?P q (flush_item E o' now rks x q)" if x: "x \<in> set items" for x q
  proof -
    have m: "x \<in> set (pending p)" and t: "time_sub now (ps_storedAt (snd x)) \<le> pending_ttl o'"
      using x by (simp_all add: items_def pending_expired_def)
    have c: "Cmd (ps_sd (snd x)) = []" "Switch (ps_sd (snd x)) = []"
      using assms m by (simp_all add: pending_inv_def)
    show ?thesis
      by (rule sends_mono [OF sends_flush_item [OF c]], rule bexI [OF _ m], rule conjI [OF t])
  qed
  then have s: "sends ?P p1 (fold (flush_item E o' now rks) items p1)" by (rule sends_fold)
  have "sends ?P p p1" by (rule sends_same) (simp add: p1_def)
  from sends_trans [OF this s]
  show ?thesis
    using False unfolding flush_pending_def Let_def items_def p1_def by (simp only: if_False)
qed

text \<open>A failed publication of a storable sensor leaves it in the buffer with the current time.\<close>

lemma publish_failed_stored:
  assumes "cm_set p" and "\<not> sensor_is_ignored E o' sd"
    and "snd (publish_sensor E o' now rk sd p) = Some e" and "storable o' sd"
  shows "map_of (pending (fst (publish_sensor E o' now rk sd p))) (topic_id (prepared_sensor E o' sd)) =
    Some \<lparr>ps_sd = strip_event_fields (prepared_sensor E o' sd), ps_storedAt = now\<rparr>"
proof -
  let ?sd = "prepared_sensor E o' sd"
  let ?q = "note_sensor_seen (topic_id ?sd) now (p\<lparr>last_sensor_at := Some now, last_sensor_hwid := topic_id ?sd\<rparr>)"
  have st: "storable o' ?sd" using assms(4) by (simp add: storable_def)
  have e: "publish_sensor E o' now rk sd p = publish_prepared E o' now rk ?sd ?q"
    by (rule publish_sensor_eq [OF assms(1,2)])
  show ?thesis
  proof (cases rule: publish_prepared_cases [of E o' now rk ?sd ?q])
    case (failed e')
    then show ?thesis by (simp add: e store_pending_eq st update_conv')
  next
    case (succeeded m)
    then show ?thesis using assms(3) by (simp add: e)
  qed
qed

section \<open>Replies to pings\<close>

lemma pong_line_trimmed: "trimmed (pong_line s)"
  by (intro trimmedI) (simp_all add: pong_line_def ascii_space_def)

lemma pong_same_key:
  assumes "CHR '';'' \<notin> set s1" and "CHR '';'' \<notin> set s2"
  shows "dedup_key (pong_line s1) = dedup_key (pong_line s2)"
proof -
  have e: "pong_line s = ''20;'' @ s @ CHR '';'' # ''PONG;''" for s by (simp add: pong_line_def)
  show ?thesis
    unfolding e by (rule dedup_key_retransmission) (use assms pong_line_trimmed [unfolded e] in simp_all)
qed

lemma append_raw_line_simps [simp]:
  "dedup_last (append_raw_line E now msg p) = dedup_last p" "ping_sent_at (append_raw_line E now msg p) = ping_sent_at p"
  "ping_fails (append_raw_line E now msg p) = ping_fails p" "cm_set (append_raw_line E now msg p) = cm_set p"
  "rflink_unresp (append_raw_line E now msg p) = rflink_unresp p"
  "last_pong_at (append_raw_line E now msg p) = last_pong_at p"
  by (simp_all add: append_raw_line_def Let_def)

lemma rest_dedup: "rest p = rest q \<Longrightarrow> dedup_last p = dedup_last q"
  and rest_ping: "rest p = rest q \<Longrightarrow> ping_sent_at p = ping_sent_at q \<and> ping_fails p = ping_fails q \<and>
    rflink_unresp p = rflink_unresp q \<and> last_pong_at p = last_pong_at q"
  by (metis rest_simps)+

lemma duplicate_ignored:
  assumes "0 < dedup_window o'" and "map_of (dedup_last p) (dedup_key msg) = Some t" and "now - t < dedup_window o'"
  shows "handle_serial_message E o' now rk msg p =
    (append_raw_line E now msg p)\<lparr>dedup_dropped := dedup_dropped (append_raw_line E now msg p) + 1\<rparr>"
proof (cases rule: is_duplicate_cases [where o' = o' and now = now and m = msg and p = "append_raw_line E now msg p"])
  case (dropped u)
  then show ?thesis by (simp add: handle_serial_message_def Let_def)
qed (use assms in auto)

lemma pong_handled:
  assumes "is_ascii s" and "CHR '';'' \<notin> set s" and "CHR ''='' \<notin> set s" and "0 < dedup_window o'"
    and "in_int64 (dedup_window o' * 2)" and "distinct (map fst (dedup_last p))"
    and new: "\<forall>t. map_of (dedup_last p) (dedup_key (pong_line s)) = Some t \<longrightarrow> dedup_window o' \<le> now - t"
  shows "map_of (dedup_last (handle_serial_message E o' now rk (pong_line s) p)) (dedup_key (pong_line s)) = Some now"
    and "ping_sent_at (handle_serial_message E o' now rk (pong_line s) p) = None"
    and "ping_fails (handle_serial_message E o' now rk (pong_line s) p) = 0"
    and "\<not> rflink_unresp (handle_serial_message E o' now rk (pong_line s) p)"
proof -
  let ?p1 = "append_raw_line E now (pong_line s) p"
  let ?q = "note_key (dedup_window o') now (dedup_key (pong_line s)) ?p1"
  obtain info where i: "parse_gateway_message (e_tab E) (e_rfc3339nano E now) (pong_line s) = Some info" "gw_Pong info"
    using pong_recognised [OF assms(1-3)] by blast
  have d: "is_duplicate o' now (pong_line s) ?p1 = (?q, False)"
    by (cases rule: is_duplicate_cases [where o' = o' and now = now and m = "pong_line s" and p = ?p1])
      (use assms(4) new in auto)
  have h: "handle_serial_message E o' now rk (pong_line s) p =
      fst (publish_gateway_info E o' (Some info) (note_pong now ?q))"
    by (simp add: handle_serial_message_def Let_def d i)
  then have r: "rest (handle_serial_message E o' now rk (pong_line s) p) = rest (note_pong now ?q)"
    by (simp add: publish_gateway_info_def)
  have k: "map_of (dedup_last ?q) (dedup_key (pong_line s)) = Some now"
    by (rule note_key_lookup(1) [OF _ assms(4,5)]) (simp add: assms(6))
  show "map_of (dedup_last (handle_serial_message E o' now rk (pong_line s) p)) (dedup_key (pong_line s)) = Some now"
    using rest_dedup [OF r] k by (simp add: note_pong_def)
  show "ping_sent_at (handle_serial_message E o' now rk (pong_line s) p) = None"
    "ping_fails (handle_serial_message E o' now rk (pong_line s) p) = 0"
    "\<not> rflink_unresp (handle_serial_message E o' now rk (pong_line s) p)"
    using rest_ping [OF r] by (simp_all add: note_pong_def)
qed

section \<open>Properties\<close>

definition online :: "publisher \<Rightarrow> publisher" where
  "online p = p\<lparr>cm_set := True\<rparr>"

definition bat_sensor :: sensor_data where
  "bat_sensor = (new_sensor ''A'' ''t'')\<lparr>Id := ''1'', Hwid := ''A_1'', Bat := ''OK'', Cmd := ''ON''\<rparr>"

text \<open>
  C25: \<open>PublishSensor\<close> reports success exactly when the broker acknowledged every field and the
  summary; it then counts one publication and nothing of the sensor stays buffered. Otherwise it
  counts one failure and buffers what is storable, without its event, under the current time.
\<close>

theorem publish_sensor_outcome:
  assumes "cm_set p" and "\<not> sensor_is_ignored E o' sd0" and "sd = prepared_sensor E o' sd0"
    and "publish_sensor E o' now rk sd0 p = (p', res)"
  shows "(res = None \<longrightarrow>
      published p' = published p + 1 \<and> publish_failed p' = publish_failed p \<and>
      map_of (pending p') (topic_id sd) = None \<and>
      list_all (field_acked E o' (topic_id sd) (outbox p')) (fields_for_publish (e_tab E) (temperature_unit o') sd) \<and>
      list_ex (\<lambda>(m, ok). ok \<and> m_payload m = PSensor sd) (outbox p')) \<and>
    (res \<noteq> None \<longrightarrow>
      published p' = published p \<and> publish_failed p' = publish_failed p + 1 \<and>
      (storable o' sd0 \<longrightarrow> map_of (pending p') (topic_id sd) =
         Some \<lparr>ps_sd = strip_event_fields sd, ps_storedAt = now\<rparr>))"
proof -
  let ?q = "note_sensor_seen (topic_id sd) now (p\<lparr>last_sensor_at := Some now, last_sensor_hwid := topic_id sd\<rparr>)"
  have e: "(p', res) = publish_prepared E o' now rk sd ?q"
    using publish_sensor_eq [OF assms(1,2)] assms(3,4) by simp
  show ?thesis
  proof (cases rule: publish_prepared_cases [of E o' now rk sd ?q])
    case (failed err)
    then show ?thesis
      using publish_failed_stored [OF assms(1,2), of now rk err] assms(3,4)
      unfolding e [symmetric] by simp
  next
    case (succeeded m)
    then show ?thesis
      unfolding e [symmetric] by (auto simp: list_all_iff list_ex_iff delete_conv')
  qed
qed

definition deaf_env :: env where
  "deaf_env = sample_env\<lparr>e_broker := (\<lambda>_ _. False)\<rparr>"

lemma bat_sensor_facts:
  "\<not> sensor_is_ignored deaf_env sample_config bat_sensor" "storable sample_config bat_sensor"
  "topic_id (prepared_sensor deaf_env sample_config bat_sensor) = ''A_1''"
  by code_simp+

definition fresh :: publisher where
  "fresh = online (new_publisher sample_config 0)"

lemma sample_runs:
  "snd (publish_sensor sample_env sample_config 7 (\<lambda>_ _. 0) bat_sensor fresh) = None"
  "snd (publish_sensor deaf_env sample_config 7 (\<lambda>_ _. 0) bat_sensor fresh) \<noteq> None"
  "\<not> sensor_is_ignored sample_env sample_config bat_sensor" "cm_set fresh"
  by code_simp+

lemma publish_sensor_outcome_witness:
  "published (fst (publish_sensor sample_env sample_config 7 (\<lambda>_ _. 0) bat_sensor fresh)) = published fresh + 1 \<and>
   map_of (pending (fst (publish_sensor deaf_env sample_config 7 (\<lambda>_ _. 0) bat_sensor fresh))) ''A_1'' =
     Some \<lparr>ps_sd = strip_event_fields (prepared_sensor deaf_env sample_config bat_sensor), ps_storedAt = 7\<rparr>"
  using publish_sensor_outcome [OF sample_runs(4,3) refl surjective_pairing, of 7 "\<lambda>_ _. 0"]
    publish_sensor_outcome [OF sample_runs(4) bat_sensor_facts(1) refl surjective_pairing, of 7 "\<lambda>_ _. 0"]
    sample_runs(1,2) bat_sensor_facts(2,3) by simp


text \<open>
  C27: A flush publishes only sensors that were buffered and are not older than the time to live, and
  replays no event: their messages carry no command or switch. The buffer keeps one entry per topic id.
\<close>

theorem flush_sends_fresh_states:
  assumes "pending_inv (pending p)"
  shows "pending_inv (pending (flush_pending E o' now rank rks p)) \<and>
    (\<exists>new. outbox (flush_pending E o' now rank rks p) = outbox p @ new \<and>
       list_all (\<lambda>(m, ok). list_ex (\<lambda>x. time_sub now (ps_storedAt (snd x)) \<le> pending_ttl o' \<and>
         no_event_msg E o' (prepared_sensor E o' (ps_sd (snd x))) m) (pending p)) new)"
  using pending_inv_flush [OF assms] sends_flush [OF assms, of now o' E rank rks]
  by (auto simp: sends_def list_all_iff list_ex_iff split_beta)

definition buffered :: publisher where
  "buffered = fst (publish_sensor deaf_env sample_config 7 (\<lambda>_ _. 0) bat_sensor fresh)"

lemma buffered_inv: "pending_inv (pending buffered)" "pending buffered \<noteq> []"
  by code_simp+

lemma flush_sends_fresh_states_witness:
  "pending_inv (pending (flush_pending sample_env sample_config 9 (\<lambda>_. 0) (\<lambda>_ _ _. 0) buffered)) \<and>
   (\<exists>new. outbox (flush_pending sample_env sample_config 9 (\<lambda>_. 0) (\<lambda>_ _ _. 0) buffered) = outbox buffered @ new \<and>
      list_all (\<lambda>(m, ok). list_ex (\<lambda>x. time_sub 9 (ps_storedAt (snd x)) \<le> pending_ttl sample_config \<and>
         no_event_msg sample_env sample_config (prepared_sensor sample_env sample_config (ps_sd (snd x))) m) (pending buffered)) new)"
  by (rule flush_sends_fresh_states [OF buffered_inv(1)])

text \<open>
  A reply to a ping that arrives within the duplicate window of the reply before it is dropped as
  a duplicate: the ping that it answers stays outstanding, and is later counted as missed.
\<close>

lemma pong_dropped_as_duplicate:
  assumes "is_ascii s1" and "CHR '';'' \<notin> set s1" and "CHR ''='' \<notin> set s1" and "CHR '';'' \<notin> set s2"
    and "0 < dedup_window o'" and "in_int64 (dedup_window o' * 2)" and "distinct (map fst (dedup_last p))"
    and "\<forall>t. map_of (dedup_last p) (dedup_key (pong_line s1)) = Some t \<longrightarrow> dedup_window o' \<le> t1 - t"
    and "t2 - t1 < dedup_window o'"
  shows "ping_sent_at (handle_serial_message E o' t2 rk (pong_line s2)
      (mark_ping_sent marked (handle_serial_message E o' t1 rk (pong_line s1) p))) = Some marked"
proof -
  let ?q = "mark_ping_sent marked (handle_serial_message E o' t1 rk (pong_line s1) p)"
  have "map_of (dedup_last ?q) (dedup_key (pong_line s2)) = Some t1"
    using pong_handled(1) [OF assms(1-3,5-8), where E = E and rk = rk] pong_same_key [OF assms(2,4)]
    by (simp add: mark_ping_sent_def)
  from duplicate_ignored [OF assms(5) this assms(9)] show ?thesis
    by (simp add: mark_ping_sent_def)
qed

lemma pong_dropped_as_duplicate_witness:
  "ping_sent_at (handle_serial_message sample_env sample_config 300000000 (\<lambda>_ _. 0) (pong_line ''02'')
      (mark_ping_sent 200000000 (handle_serial_message sample_env sample_config 0 (\<lambda>_ _. 0) (pong_line ''01'') fresh))) =
   Some 200000000"
  by (rule pong_dropped_as_duplicate)
    (simp_all add: sample_window in_int64_def fresh_def online_def new_publisher_def)

text \<open>
  A flush that fails again buffers the sensor under the time of the flush, so the time to live
  starts anew with every attempt and a value can be published arbitrarily long after it was received.
\<close>

lemma failed_flush_restarts_ttl:
  assumes "cm_set p" and "pending p = [(k, \<lparr>ps_sd = sd, ps_storedAt = stored\<rparr>)]" and "0 < pending_ttl o'"
    and "time_sub now stored \<le> pending_ttl o'" and "\<not> sensor_is_ignored E o' sd" and "storable o' sd"
    and "snd (publish_sensor E o' now (rks k) sd (p\<lparr>pending := [], pending_dropped := pending_dropped p + 0\<rparr>)) = Some e"
  shows "map_of (pending (flush_pending E o' now rank rks p)) (topic_id (prepared_sensor E o' sd)) =
    Some \<lparr>ps_sd = strip_event_fields (prepared_sensor E o' sd), ps_storedAt = now\<rparr>"
proof -
  let ?p = "p\<lparr>pending := [], pending_dropped := pending_dropped p + 0\<rparr>"
  have "flush_pending E o' now rank rks p = fst (publish_sensor E o' now (rks k) sd ?p)"
    using assms(2-4,7)
    by (cases "publish_sensor E o' now (rks k) sd ?p")
      (simp add: flush_pending_def Let_def range_order_def pending_expired_def flush_item_def)
  then show ?thesis
    using publish_failed_stored [OF _ assms(5,7,6)] assms(1) by simp
qed

lemma failed_flush_restarts_ttl_witness:
  "ps_storedAt (the (map_of (pending (flush_pending deaf_env sample_config 50000000000 (\<lambda>_. 0) (\<lambda>_ _ _. 0)
     (fresh\<lparr>pending := [(''A_1'', \<lparr>ps_sd = bat_sensor, ps_storedAt = 7\<rparr>)]\<rparr>))) ''A_1'')) = 50000000000"
proof -
  let ?p = "fresh\<lparr>pending := [(''A_1'', \<lparr>ps_sd = bat_sensor, ps_storedAt = 7\<rparr>)]\<rparr>"
  have "snd (publish_sensor deaf_env sample_config 50000000000 (\<lambda>_ _. 0) bat_sensor
      (?p\<lparr>pending := [], pending_dropped := pending_dropped ?p + 0\<rparr>)) \<noteq> None"
    by code_simp
  then obtain e where e: "snd (publish_sensor deaf_env sample_config 50000000000 (\<lambda>_ _. 0) bat_sensor
      (?p\<lparr>pending := [], pending_dropped := pending_dropped ?p + 0\<rparr>)) = Some e" by blast
  have t: "0 < pending_ttl sample_config" "time_sub 50000000000 7 \<le> pending_ttl sample_config" "cm_set ?p"
    by code_simp+
  from failed_flush_restarts_ttl [where rks = "\<lambda>_ _ _. 0" and rank = "\<lambda>_. 0", OF t(3) _ t(1,2) bat_sensor_facts(1,2) e]
  show ?thesis using bat_sensor_facts(3) by simp
qed

end
