(* ===== verification/App.thy ===== *)
theory App
  imports Serial Publisher
begin

text \<open>
  \<open>rflink/app.go\<close>: the command path with its token bucket, the serial session with its reconnects,
  the ping loop, start and stop. The goroutines share the publisher, the serial reader and the
  channel; each definition is what one of them does between two blocking operations, and the step
  relation \<open>app_step\<close> interleaves them.
\<close>

section \<open>State\<close>

text \<open>Where the goroutine of \<open>runSerialLoop\<close> is; \<open>Reading\<close> carries the scanner of \<open>ReadLines\<close>.\<close>

datatype session_phase = Starting | Reading scanner | Sleeping | Stopped

record app =
  ap_pub :: publisher
  ap_serial :: serial_reader
  ap_ch :: "string list"
  ap_tokens :: rat
  ap_last_fill :: instant
  ap_phase :: session_phase
  ap_delay :: duration

section \<open>Texts of errors\<close>

text \<open>\<open>%q\<close> of a string and of a rune is \<open>strconv.Quote\<close>, which depends on the Unicode tables.\<close>

record quoting =
  q_string :: "string \<Rightarrow> string"
  q_rune :: "rune \<Rightarrow> string"

definition show_int :: "int \<Rightarrow> string" where
  "show_int n = (if n < 0 then ''-'' @ show_nat (nat (- n)) else show_nat (nat n))"

definition en_dash :: string where
  "en_dash = [CHR 0xE2, CHR 0x80, CHR 0x93]"

fun cmd_error_text :: "quoting \<Rightarrow> cmd_error \<Rightarrow> string" where
  "cmd_error_text Q EmptyCommand = ''empty command''"
| "cmd_error_text Q NoTrailingSemicolon = ''command must end with '' @ [CHR 0x27] @ '';'' @ [CHR 0x27]"
| "cmd_error_text Q ControlCharacters = ''command contains control characters''"
| "cmd_error_text Q (NonPrintable r) = ''command contains non-printable character '' @ q_rune Q r"
| "cmd_error_text Q (TooFewFields cmd) =
     ''invalid RFLink command: need at least node and one field (got '' @ q_string Q cmd @ '')''"
| "cmd_error_text Q (InvalidNode n) =
     ''invalid RFLink node '' @ q_string Q n @ '' (want 1'' @ en_dash @ ''2 digits, e.g. 10/11/20)''"
| "cmd_error_text Q (EmptyField i) = ''invalid RFLink command: empty field at position '' @ show_nat i"
| "cmd_error_text Q (FieldTooLong i) = ''invalid RFLink command: field '' @ show_nat i @ '' too long''"
| "cmd_error_text Q (CommandTooLong n mx) =
     ''command too long ('' @ show_nat n @ '' > '' @ show_int mx @ '')''"

fun scan_err_text :: "scan_err \<Rightarrow> string" where
  "scan_err_text ScanEOF = ''EOF''"
| "scan_err_text (ScanRead e) = e"
| "scan_err_text ScanTooLong = ''bufio.Scanner: token too long''"
| "scan_err_text ScanNoProgress = ''multiple Read calls return no data or error''"

fun serial_error_text :: "serial_error \<Rightarrow> string" where
  "serial_error_text SerialNotConnected = ''serial port not connected''"
| "serial_error_text StreamClosed = ''serial stream closed''"
| "serial_error_text (PortError e) = e"
| "serial_error_text EmptyRFLinkCommand = ''empty rflink command''"
| "serial_error_text (ScanFailed e) = scan_err_text e"
| "serial_error_text ContextDone = ''context canceled''"

section \<open>The token bucket\<close>

text \<open>\<open>d.Seconds()\<close>: whole seconds and the rest are converted and added as \<open>float64\<close>.\<close>

definition float_seconds :: "duration \<Rightarrow> rat" where
  "float_seconds d =
     f64 (of_int (whole_seconds d)
       + f64 (of_int (d - whole_seconds d * nanos_per_second) / of_int nanos_per_second))"

definition refill_cmd_tokens :: "instant \<Rightarrow> int \<Rightarrow> app \<Rightarrow> app" where
  "refill_cmd_tokens now limit a =
     (let elapsed = float_seconds (time_sub now (ap_last_fill a));
          t = f64 (ap_tokens a + f64 (elapsed * f64 (of_int limit)))
      in a\<lparr>ap_last_fill := now,
           ap_tokens := (if f64 (of_int limit) < t then f64 (of_int limit) else t)\<rparr>)"

definition allow_command :: "options \<Rightarrow> instant \<Rightarrow> app \<Rightarrow> app \<times> bool" where
  "allow_command o' now a =
     (let limit = CommandRateLimit (Publish o') in
      if limit \<le> 0 then (a, True)
      else (let a1 = refill_cmd_tokens now limit a in
            if ap_tokens a1 < 1 then (a1, False)
            else (a1\<lparr>ap_tokens := f64 (ap_tokens a1 - 1)\<rparr>, True)))"

definition command_rate_status :: "options \<Rightarrow> instant \<Rightarrow> app \<Rightarrow> app \<times> (int \<times> rat \<times> bool)" where
  "command_rate_status o' now a =
     (let limit = CommandRateLimit (Publish o') in
      if limit \<le> 0 then (a, (0, 0, True))
      else (let a1 = refill_cmd_tokens now limit a in (a1, (limit, ap_tokens a1, False))))"

section \<open>Commands\<close>

definition cmd_res :: "string \<Rightarrow> string \<Rightarrow> string \<Rightarrow> string \<Rightarrow> cmd_result" where
  "cmd_res cmd status err received =
     \<lparr>cr_Command = cmd, cr_Status = status, cr_Error = err, cr_ReceivedAt = received,
      cr_RateLimitRemaining = 0, cr_RateLimitPerSec = 0\<rparr>"

definition with_pub :: "(publisher \<Rightarrow> publisher) \<Rightarrow> app \<Rightarrow> app" where
  "with_pub f a = a\<lparr>ap_pub := f (ap_pub a)\<rparr>"

definition finish_command :: "env \<Rightarrow> options \<Rightarrow> instant \<Rightarrow> cmd_result \<Rightarrow> app \<Rightarrow> app \<times> cmd_result" where
  "finish_command E o' now res a = (with_pub (publish_cmd_result E o' now res) a, res)"

definition with_rate :: "int \<times> rat \<times> bool \<Rightarrow> cmd_result \<Rightarrow> cmd_result" where
  "with_rate st res = res\<lparr>cr_RateLimitRemaining := fst (snd st), cr_RateLimitPerSec := fst st\<rparr>"

definition execute_command ::
  "env \<Rightarrow> driver \<Rightarrow> quoting \<Rightarrow> options \<Rightarrow> instant \<Rightarrow> string \<Rightarrow> app \<Rightarrow> app \<times> cmd_result" where
  "execute_command E D Q o' now payload a =
     (let received = e_rfc3339nano E now in
      case normalize_command o' payload of
        Inl err \<Rightarrow>
          finish_command E o' now (cmd_res payload ''rejected'' (cmd_error_text Q err) received)
            (with_pub inc_command_rejected a)
      | Inr cmd \<Rightarrow>
          if \<not> command_allowed o' cmd
          then finish_command E o' now (cmd_res cmd ''rejected'' [] received) (with_pub inc_command_rejected a)
          else (case allow_command o' now a of
                  (a1, False) \<Rightarrow>
                    (case command_rate_status o' now (with_pub inc_command_rate_limited a1) of
                       (a2, st) \<Rightarrow> finish_command E o' now (with_rate st (cmd_res cmd ''rate_limited'' [] received)) a2)
                | (a1, True) \<Rightarrow>
                    (case write_command D cmd (ap_serial a1) of
                       (sr, Some err) \<Rightarrow>
                         finish_command E o' now
                           (cmd_res cmd (if err = SerialNotConnected then ''serial_down'' else ''error'')
                             (serial_error_text err) received) (a1\<lparr>ap_serial := sr\<rparr>)
                     | (sr, None) \<Rightarrow>
                         (case command_rate_status o' now (a1\<lparr>ap_serial := sr\<rparr>) of
                            (a2, st) \<Rightarrow> finish_command E o' now (with_rate st (cmd_res cmd ''ok'' [] received)) a2))))"

definition handle_command ::
  "env \<Rightarrow> driver \<Rightarrow> quoting \<Rightarrow> options \<Rightarrow> instant \<Rightarrow> string \<Rightarrow> app \<Rightarrow> app" where
  "handle_command E D Q o' now payload a = fst (execute_command E D Q o' now payload a)"

section \<open>The serial session\<close>

definition version_command :: string where "version_command = ''10;version;''"
definition ping_command :: string where "ping_command = ''10;PING;''"

text \<open>The end of \<open>runSerialSession\<close> after \<open>ReadLines\<close> has returned.\<close>

definition session_end :: "env \<Rightarrow> driver \<Rightarrow> options \<Rightarrow> instant \<Rightarrow> bool \<Rightarrow> app \<Rightarrow> app" where
  "session_end E D o' now cancelled a =
     (if cancelled then a\<lparr>ap_phase := Stopped\<rparr>
      else with_pub (set_serial_connected E o' now False)
             (a\<lparr>ap_serial := disconnect D (ap_serial a), ap_phase := Sleeping\<rparr>))"

text \<open>The port is open: report it, ask for the version, and begin \<open>ReadLines\<close>.\<close>

definition session_online :: "env \<Rightarrow> driver \<Rightarrow> options \<Rightarrow> instant \<Rightarrow> app \<Rightarrow> app" where
  "session_online E D o' now a =
     (let a1 = with_pub (set_serial_connected E o' now True) a
      in a1\<lparr>ap_serial := fst (write_command D version_command (ap_serial a1)), ap_phase := Reading new_scanner\<rparr>)"

text \<open>From the head of the loop of \<open>runSerialLoop\<close> to \<open>ReadLines\<close>, or to the sleep after a failure.\<close>

definition session_start :: "env \<Rightarrow> driver \<Rightarrow> options \<Rightarrow> instant \<Rightarrow> bool \<Rightarrow> app \<Rightarrow> app" where
  "session_start E D o' now cancelled a =
     (if cancelled then a\<lparr>ap_phase := Stopped\<rparr>
      else if serial_connected (ap_serial a) then session_online E D o' now a
      else (case reconnect D o' (ap_serial a) of
              (sr, Some err) \<Rightarrow>
                with_pub (set_serial_connected E o' now False) (a\<lparr>ap_serial := sr, ap_phase := Sleeping\<rparr>)
            | (sr, None) \<Rightarrow>
                session_online E D o' now (a\<lparr>ap_serial := sr, ap_delay := serial_reconnect_min_delay o'\<rparr>)))"

text \<open>
  The callback of \<open>ReadLines\<close>. Its \<open>select\<close> takes the end of the context, when that is ready and is
  picked or the channel is full; it sends when there is room, and else drops the line.
\<close>

definition handle_line :: "instant \<Rightarrow> bool \<Rightarrow> bool \<Rightarrow> string \<Rightarrow> app \<Rightarrow> app \<times> serial_error option" where
  "handle_line now cancelled pick_done line a =
     (let a1 = with_pub (note_serial_activity now) a;
          room = length (ap_ch a1) < serial_channel_buffer
      in if cancelled \<and> (pick_done \<or> \<not> room) then (a1, Some ContextDone)
         else if room then (a1\<lparr>ap_ch := ap_ch a1 @ [line]\<rparr>, None)
         else (with_pub inc_serial_dropped a1, None))"

text \<open>One round of \<open>ReadLines\<close>; the context may end between its check and the callback.\<close>

definition session_round ::
  "env \<Rightarrow> driver \<Rightarrow> options \<Rightarrow> instant \<Rightarrow> bool \<Rightarrow> bool \<Rightarrow> bool \<Rightarrow> scanner \<Rightarrow> app \<Rightarrow> app" where
  "session_round E D o' now cancelled cancelled' pick_done sc a =
     (case read_next cancelled sc of
        (sc', HandleLine line) \<Rightarrow>
          (case handle_line now cancelled' pick_done line (a\<lparr>ap_phase := Reading sc'\<rparr>) of
             (a1, None) \<Rightarrow> a1
           | (a1, Some err) \<Rightarrow> session_end E D o' now cancelled' a1)
      | (sc', ReadMore) \<Rightarrow> a\<lparr>ap_phase := Reading sc'\<rparr>
      | (sc', Returns err) \<Rightarrow> session_end E D o' now cancelled' a)"

text \<open>\<open>port.Read\<close> returns inside the scanner.\<close>

definition session_read :: "read_event \<Rightarrow> scanner \<Rightarrow> app \<Rightarrow> app" where
  "session_read ev sc a = a\<lparr>ap_phase := Reading (scan_read ev sc)\<rparr>"

text \<open>After the sleep.\<close>

definition session_wake :: "options \<Rightarrow> bool \<Rightarrow> bool \<Rightarrow> app \<Rightarrow> app" where
  "session_wake o' cancelled done_first a =
     (if sleep_context cancelled done_first (ap_delay a)
      then a\<lparr>ap_delay := next_backoff (ap_delay a) (serial_reconnect_min_delay o') (serial_reconnect_max_delay o'),
             ap_phase := Starting\<rparr>
      else a\<lparr>ap_phase := Stopped\<rparr>)"

text \<open>The deferred function, when the session panicked: the loop goes on without a sleep.\<close>

definition session_recovered :: "env \<Rightarrow> driver \<Rightarrow> options \<Rightarrow> instant \<Rightarrow> app \<Rightarrow> app" where
  "session_recovered E D o' now a =
     with_pub (\<lambda>p. set_serial_connected E o' now False (p\<lparr>panics := panics p + 1\<rparr>))
       (a\<lparr>ap_serial := disconnect D (ap_serial a), ap_phase := Starting\<rparr>)"

section \<open>Pings\<close>

text \<open>The delay before the first ping; none when pings are off.\<close>

definition first_ping_delay :: "options \<Rightarrow> duration option" where
  "first_ping_delay o' =
     (let interval = serial_ping_interval o' in
      if interval \<le> 0 then None else Some (min (max (interval div 4) (seconds 5)) interval))"

definition send_ping :: "driver \<Rightarrow> instant \<Rightarrow> app \<Rightarrow> app" where
  "send_ping D now a =
     (if \<not> serial_connected (ap_serial a) then a
      else if ping_outstanding (ap_pub a) then a
      else (case write_command D ping_command (ap_serial a) of
              (sr, Some err) \<Rightarrow> a\<lparr>ap_serial := sr\<rparr>
            | (sr, None) \<Rightarrow> with_pub (mark_ping_sent now) (a\<lparr>ap_serial := sr\<rparr>)))"

section \<open>The publish loop, start and stop\<close>

text \<open>One round of \<open>RunPublishLoop\<close>; a message is first received from the channel.\<close>

definition receive_line ::
  "env \<Rightarrow> options \<Rightarrow> (nat \<Rightarrow> string \<Rightarrow> nat) \<Rightarrow> instant \<Rightarrow> app \<Rightarrow> app" where
  "receive_line E o' rk now a =
     (case ap_ch a of
        [] \<Rightarrow> a
      | msg # rest_ch \<Rightarrow> with_pub (loop_step E o' rk (now, SerialMsg msg)) (a\<lparr>ap_ch := rest_ch\<rparr>))"

definition init_app :: "driver \<Rightarrow> options \<Rightarrow> instant \<Rightarrow> publisher \<Rightarrow> app" where
  "init_app D o' now p =
     \<lparr>ap_pub = set_sensor_hook True (set_raw_line_hook True (subscribe_commands p)),
      ap_serial = new_serial_reader D o', ap_ch = new_serial_channel,
      ap_tokens = f64 (of_int (CommandRateLimit (Publish o'))), ap_last_fill = now,
      ap_phase = Starting, ap_delay = serial_reconnect_min_delay o'\<rparr>"

text \<open>\<open>Stop\<close>, once the workers have returned: the publisher says goodbye, the port is closed.\<close>

definition app_stop :: "env \<Rightarrow> driver \<Rightarrow> options \<Rightarrow> app \<Rightarrow> app" where
  "app_stop E D o' a =
     (let a1 = with_pub (publisher_disconnect E o') (a\<lparr>ap_phase := Stopped\<rparr>)
      in a1\<lparr>ap_serial := fst (close_port D (ap_serial a1))\<rparr>)"

end
