(* ===== verification/Observe.thy ===== *)
theory Observe
  imports Publisher
begin

text \<open>
  What can be seen of the publisher while messages go through it. An observation that neither the broker nor the
  bookkeeping of \<open>rflink/publisher.go\<close> affects is only changed by the serial line itself; the status of the
  serial link and the calls of the hook for raw lines are such observations.
\<close>

section \<open>Observations\<close>

locale observation =
  fixes obs :: "publisher \<Rightarrow> 'a"
  assumes sent: "rest p = rest q \<Longrightarrow> obs p = obs q"
    and failed [simp]: "obs (note_failed o' now sd p) = obs p"
    and published [simp]: "obs (note_published E now sd fs p) = obs p"
    and sensor_seen [simp]: "obs (note_sensor_seen h t p) = obs p"
    and activity [simp]: "obs (note_serial_activity now p) = obs p"
    and pong [simp]: "obs (note_pong now p) = obs p"
    and pinged [simp]: "obs (mark_ping_sent now p) = obs p"
    and ping_checked [simp]: "obs (check_ping_timeout o' now p) = obs p"
    and rejected [simp]: "obs (inc_command_rejected p) = obs p"
    and limited [simp]: "obs (inc_command_rate_limited p) = obs p"
    and duplicate [simp]: "obs (fst (is_duplicate o' now msg p)) = obs p"
    and broker [simp]: "obs (p\<lparr>mqtt_up := b\<rparr>) = obs p"
    and panicked [simp]: "obs (p\<lparr>panics := n\<rparr>) = obs p"
    and flushed [simp]: "obs (p\<lparr>pending_flushed := n\<rparr>) = obs p"
    and emptied [simp]: "obs (p\<lparr>pending := xs, pending_dropped := n\<rparr>) = obs p"
    and last_sensor [simp]: "obs (p\<lparr>last_sensor_at := at_last, last_sensor_hwid := by_last\<rparr>) = obs p"
begin

lemma raw_sent [simp]: "obs (fst (publish_raw E topic pl qos r p)) = obs p"
  by (rule sent) simp

lemma raw_sent_pair: "publish_raw E topic pl qos r p = (q, e) \<Longrightarrow> obs q = obs p"
  using raw_sent [of E topic pl qos r p] by simp

lemma down [simp]: "obs (on_connection_down p) = obs p"
  by (simp add: on_connection_down_def)

lemma again [simp]: "obs (loop_recovered p) = obs p"
  by (simp add: loop_recovered_def)

lemma cmd_result [simp]: "obs (publish_cmd_result E o' now res p) = obs p"
  by (simp add: publish_cmd_result_def Let_def)

lemma actuators [simp]: "obs (publish_ha_actuators E o' p) = obs p"
  by (rule sent) simp

lemma rediscovery [simp]: "obs (clear_ha_discovery E o' p) = obs p"
proof (rule sent)
  have "rest (p\<lparr>discovered := {}\<rparr>) = rest p" by (simp add: rest_def)
  then show "rest (clear_ha_discovery E o' p) = rest p" by (simp add: clear_ha_discovery_def)
qed

lemma prepared [simp]: "obs (fst (publish_prepared E o' now rk sd p)) = obs p"
proof -
  let ?fs = "fields_for_publish (e_tab E) (temperature_unit o') sd"
  define p1 where "p1 = (if HomeAssistantDiscovery (Publish o') then publish_ha_discovery E o' (rk 0) sd ?fs p else p)"
  define r2 where "r2 = publish_fields E o' (topic_id sd) (range_order (rk 1) ?fs) p1"
  have "rest p1 = rest p" by (simp add: p1_def)
  then have "rest (fst r2) = rest p" by (simp add: r2_def)
  then have r2: "obs (fst r2) = obs p" by (rule sent)
  show ?thesis
    unfolding publish_prepared_def Let_def p1_def [symmetric] r2_def [symmetric]
    using r2 by (cases r2) (auto dest: raw_sent_pair split: prod.splits option.splits)
qed

lemma sensor [simp]: "obs (fst (publish_sensor E o' now rk sd p)) = obs p"
proof (cases "cm_set p \<and> \<not> sensor_is_ignored E o' sd")
  case True
  then show ?thesis by (simp add: publish_sensor_eq)
next
  case False
  then show ?thesis by (auto simp: publish_sensor_def)
qed

lemma message: "obs (handle_serial_message E o' now rk msg p) = obs (append_raw_line E now msg p)"
proof -
  obtain q d where q: "is_duplicate o' now msg (append_raw_line E now msg p) = (q, d)" by fastforce
  have "obs q = obs (append_raw_line E now msg p)"
    using duplicate [of o' now msg "append_raw_line E now msg p"] by (simp add: q)
  then show ?thesis
    by (auto simp: handle_serial_message_def Let_def q publish_gateway_info_def split: bool.splits option.splits sum.splits)
qed

lemma tick [simp]: "snd ev \<in> {HealthTick, WatchdogTick, PingCheckTick} \<Longrightarrow> obs (loop_step E o' rk ev p) = obs p"
  by (auto simp: loop_step_def Let_def report_health_def)

lemma flush [simp]: "obs (flush_pending E o' now rank rks p) = obs p"
proof -
  have item: "obs (flush_item E o' now rks x q) = obs q" for x q
    using sensor [of E o' now "rks (fst x)" "ps_sd (snd x)" q]
    by (cases "publish_sensor E o' now (rks (fst x)) (ps_sd (snd x)) q") (auto simp: flush_item_def split: option.splits)
  have "obs (fold (flush_item E o' now rks) xs q) = obs q" for xs q
    by (induction xs arbitrary: q) (simp_all add: item)
  then show ?thesis by (simp add: flush_pending_def Let_def)
qed

lemma up [simp]: "obs (on_connection_up E o' now rank rks p) = obs p"
  by (simp add: on_connection_up_def Let_def)

lemma disconnected [simp]: "obs (publisher_disconnect E o' p) = obs p"
  by (simp add: publisher_disconnect_def Let_def)

end

section \<open>The serial link\<close>

definition link :: "publisher \<Rightarrow> bool \<times> 64 word" where
  "link p = (serial_up p, serial_dropped p)"

lemmas bookkeeping = note_failed_def store_pending_def Let_def note_published_def clear_pending_def
  append_sensor_sample_def note_sensor_seen_def note_serial_activity_def note_pong_def mark_ping_sent_def
  check_ping_timeout_def inc_command_rejected_def inc_command_rate_limited_def is_duplicate_def note_key_def

interpretation lnk: observation link
proof
  show "rest p = rest q \<Longrightarrow> link p = link q" for p q
    by (drule arg_cong [where f = link]) (simp add: link_def rest_def)
qed (simp_all add: link_def bookkeeping split: option.splits)

lemma link_append_raw_line [simp]: "link (append_raw_line E now msg p) = link p"
  by (simp add: link_def append_raw_line_def Let_def)

lemma link_set_serial [simp]:
  "link (set_serial_connected E o' now up p) = (up, serial_dropped p)"
  by (simp add: set_serial_connected_def Let_def) (simp add: link_def note_serial_activity_def)

lemma link_loop_step [simp]: "link (loop_step E o' rk ev p) = link p"
  by (cases "snd ev") (simp_all add: loop_step_def Let_def report_health_def lnk.message)

section \<open>The hook for raw lines\<close>

text \<open>Whether it is registered, and the lines for which it has been called.\<close>

definition raw_calls :: "publisher \<Rightarrow> raw_entry list" where
  "raw_calls p = List.map_filter (\<lambda>h. case h of HookRaw e \<Rightarrow> Some e | _ \<Rightarrow> None) (hooked p)"

definition raws :: "publisher \<Rightarrow> bool \<times> raw_entry list" where
  "raws p = (raw_hook p, raw_calls p)"

interpretation rws: observation raws
proof
  show "rest p = rest q \<Longrightarrow> raws p = raws q" for p q
    by (drule arg_cong [where f = raws]) (simp add: raws_def raw_calls_def rest_def)
qed (simp_all add: raws_def raw_calls_def bookkeeping List.map_filter_def split: option.splits)

lemma raws_set_serial [simp]: "raws (set_serial_connected E o' now up p) = raws p"
  by (simp add: set_serial_connected_def Let_def) (simp add: raws_def raw_calls_def note_serial_activity_def)

text \<open>A line that is taken from the channel is reported once; the ticks of the loop report nothing.\<close>

lemma raws_line: "raws (loop_step E o' rk (now, SerialMsg msg) p) =
    (raw_hook p, raw_calls p @ (if raw_hook p then [raw_entry_of E (now, msg)] else []))"
  by (simp add: loop_step_def rws.message)
    (simp add: raws_def raw_calls_def append_raw_line_def note_serial_activity_def raw_entry_of_def Let_def List.map_filter_def)

end
