(* ===== verification/AppRun.thy ===== *)
theory AppRun
  imports App Observe
begin

text \<open>
  Runs of the application: the steps of its goroutines and of the callbacks, in any order, and what holds
  in every state that is reached: what has been written to the port, how the session, the port and the
  published status agree, and where the lines that were read have gone.
\<close>

section \<open>What is written to the port\<close>

definition wrote :: "serial_reader \<Rightarrow> string list" where
  "wrote sr = List.map_filter (\<lambda>(c, _). case c of Wrote s \<Rightarrow> Some s | _ \<Rightarrow> None) (port_log sr)"

lemma wrote_port_do [simp]:
  "wrote (fst (port_do D c sr)) = wrote sr @ (case c of Wrote s \<Rightarrow> [s] | _ \<Rightarrow> [])"
  "port_open (fst (port_do D c sr)) = port_open sr"
  by (simp_all add: wrote_def port_do_def Let_def List.map_filter_def split: port_call.splits)

lemma wrote_update [simp]: "wrote (sr\<lparr>port_open := b\<rparr>) = wrote sr"
  by (simp add: wrote_def)

lemma port_do_pair:
  assumes "port_do D c sr = (sr', e)"
  shows "wrote sr' = wrote sr @ (case c of Wrote s \<Rightarrow> [s] | _ \<Rightarrow> []) \<and> port_open sr' = port_open sr"
  using wrote_port_do [of D c sr] assms by simp_all

lemma wrote_disconnect [simp]: "wrote (disconnect D sr) = wrote sr" "\<not> port_open (disconnect D sr)"
  by (simp_all add: disconnect_def)

lemma connect_port_cases:
  obtains e where "snd (connect_port D o' sr) = Some e" "\<not> port_open (fst (connect_port D o' sr))"
      "wrote (fst (connect_port D o' sr)) = wrote sr"
  | "snd (connect_port D o' sr) = None" "port_open (fst (connect_port D o' sr))"
      "wrote (fst (connect_port D o' sr)) = wrote sr"
  by (atomize_elim, cases "port_do D (Opened (Device (Serial o')) (Baud (Serial o'))) (disconnect D sr)")
    (auto simp: connect_port_def Let_def dest!: port_do_pair split: prod.splits option.splits)

lemma wrote_connect [simp]: "wrote (fst (connect_port D o' sr)) = wrote sr"
  by (cases rule: connect_port_cases [of D o' sr]) auto

lemma port_open_connect: "port_open (fst (connect_port D o' sr)) \<longleftrightarrow> snd (connect_port D o' sr) = None"
  by (cases rule: connect_port_cases [of D o' sr]) auto

lemma wrote_reconnect [simp]: "wrote (fst (reconnect D o' sr)) = wrote sr"
  and port_open_reconnect: "port_open (fst (reconnect D o' sr)) \<longleftrightarrow> snd (reconnect D o' sr) = None"
  by (simp_all add: reconnect_def port_open_connect)

lemma wrote_close [simp]: "wrote (fst (close_port D sr)) = wrote sr" "\<not> port_open (fst (close_port D sr))"
  by (cases "port_do D Closed sr", auto simp: close_port_def dest!: port_do_pair)+

lemma wrote_new [simp]: "wrote (new_serial_reader D o') = []"
  by (simp add: new_serial_reader_def) (simp add: wrote_def List.map_filter_def)

lemma frame_not_cr_lf: "rflink_frame c \<Longrightarrow> trim_right c cr_lf = c"
  using rflink_frame_not_Nil [of c] rflink_frame_last [of c]
  by (intro trim_right_idle) (auto simp: cr_lf_def dest: arg_cong [where f = byte])

lemma write_frame:
  assumes "rflink_frame c"
  shows "write_command D c sr =
    (if port_open sr then
       (fst (port_do D (Wrote (c @ cr_lf)) sr), map_option PortError (snd (port_do D (Wrote (c @ cr_lf)) sr)))
     else (sr, Some SerialNotConnected))"
  using rflink_frame_not_Nil [OF assms]
  by (auto simp: write_command_def frame_not_cr_lf [OF assms] split: prod.splits option.splits)

lemma wrote_frame [simp]:
  assumes "rflink_frame c"
  shows "wrote (fst (write_command D c sr)) = wrote sr @ (if port_open sr then [c @ cr_lf] else [])"
    and "port_open (fst (write_command D c sr)) = port_open sr"
  by (simp_all add: write_frame [OF assms])

lemma write_frame_error:
  "rflink_frame c \<Longrightarrow> snd (write_command D c sr) =
    (if port_open sr then map_option PortError (dr_call D (port_log sr) (Wrote (c @ cr_lf))) else Some SerialNotConnected)"
  by (simp add: write_frame port_do_def Let_def)

lemma service_frames [simp]: "rflink_frame version_command" "rflink_frame ping_command"
proof -
  have "validate_rflink_command version_command = Inr ()" "validate_rflink_command ping_command = Inr ()"
    by code_simp+
  moreover have "trim_space version_command = version_command" "trim_space ping_command = ping_command"
    by code_simp+
  ultimately show "rflink_frame version_command" "rflink_frame ping_command"
    by (simp_all add: validate_rflink_command_iff)
qed

section \<open>Steps\<close>

text \<open>What a step is about: a line is offered to the channel or taken from it, a command is executed, the state of
  the token bucket is asked for.\<close>

datatype line_label = Offered string | Taken string | Commanded instant string | Queried instant | Quiet

inductive app_step ::
  "env \<Rightarrow> driver \<Rightarrow> quoting \<Rightarrow> options \<Rightarrow> app \<Rightarrow> line_label \<Rightarrow> app \<Rightarrow> bool" for E D Q o' where
  command: "app_step E D Q o' a (Commanded now payload) (handle_command E D Q o' now payload a)"
| rate: "app_step E D Q o' a (Queried now) (fst (command_rate_status o' now a))"
| rediscover: "app_step E D Q o' a Quiet (with_pub (clear_ha_discovery E o') a)"
| loop_again: "app_step E D Q o' a Quiet (with_pub loop_recovered a)"
| ping: "app_step E D Q o' a Quiet (send_ping D now a)"
| tick: "snd ev \<in> {HealthTick, WatchdogTick, PingCheckTick} \<Longrightarrow>
    app_step E D Q o' a Quiet (with_pub (loop_step E o' rk ev) a)"
| mqtt_up: "app_step E D Q o' a Quiet (with_pub (on_connection_up E o' now rank rks) a)"
| mqtt_down: "app_step E D Q o' a Quiet (with_pub on_connection_down a)"
| receive: "ap_ch a = msg # ms \<Longrightarrow> app_step E D Q o' a (Taken msg) (receive_line E o' rk now a)"
| start: "ap_phase a = Starting \<Longrightarrow> app_step E D Q o' a Quiet (session_start E D o' now c a)"
| line: "ap_phase a = Reading sc \<Longrightarrow> read_next c sc = (sc', HandleLine l) \<Longrightarrow>
    handle_line now c' pick l (a\<lparr>ap_phase := Reading sc'\<rparr>) = (a', None) \<Longrightarrow>
    app_step E D Q o' a (Offered l) (session_round E D o' now c c' pick sc a)"
| abort: "ap_phase a = Reading sc \<Longrightarrow> read_next c sc = (sc', HandleLine l) \<Longrightarrow>
    handle_line now c' pick l (a\<lparr>ap_phase := Reading sc'\<rparr>) = (a', Some err) \<Longrightarrow>
    app_step E D Q o' a Quiet (session_round E D o' now c c' pick sc a)"
| returned: "ap_phase a = Reading sc \<Longrightarrow> read_next c sc = (sc', Returns err) \<Longrightarrow>
    app_step E D Q o' a Quiet (session_round E D o' now c c' pick sc a)"
| read: "ap_phase a = Reading sc \<Longrightarrow> read_next c sc = (sc', ReadMore) \<Longrightarrow>
    app_step E D Q o' a Quiet (session_read ev sc (session_round E D o' now c c' pick sc a))"
| wake: "ap_phase a = Sleeping \<Longrightarrow> app_step E D Q o' a Quiet (session_wake o' c first a)"
| recovered: "ap_phase a \<in> {Starting, Reading sc} \<Longrightarrow> app_step E D Q o' a Quiet (session_recovered E D o' now a)"
| stop: "app_step E D Q o' a Quiet (app_stop E D o' a)"

inductive app_run ::
  "env \<Rightarrow> driver \<Rightarrow> quoting \<Rightarrow> options \<Rightarrow> app \<Rightarrow> line_label list \<Rightarrow> app \<Rightarrow> bool" for E D Q o' a where
  begun: "app_run E D Q o' a [] a"
| step: "app_run E D Q o' a ls b \<Longrightarrow> app_step E D Q o' b l c \<Longrightarrow> app_run E D Q o' a (ls @ [l]) c"

inductive_cases app_stepE: "app_step E D Q o' a l b"

section \<open>One command\<close>

lemma with_pub_simps [simp]:
  "ap_pub (with_pub f a) = f (ap_pub a)" "ap_serial (with_pub f a) = ap_serial a" "ap_ch (with_pub f a) = ap_ch a"
  "ap_phase (with_pub f a) = ap_phase a" "ap_delay (with_pub f a) = ap_delay a"
  "ap_tokens (with_pub f a) = ap_tokens a" "ap_last_fill (with_pub f a) = ap_last_fill a"
  by (simp_all add: with_pub_def)

lemma bucket_frame [simp]:
  "ap_pub (refill_cmd_tokens now n a) = ap_pub a" "ap_serial (refill_cmd_tokens now n a) = ap_serial a"
  "ap_ch (refill_cmd_tokens now n a) = ap_ch a" "ap_phase (refill_cmd_tokens now n a) = ap_phase a"
  "ap_delay (refill_cmd_tokens now n a) = ap_delay a"
  by (simp_all add: refill_cmd_tokens_def Let_def)

lemma allow_frame [simp]:
  "ap_pub (fst (allow_command o' now a)) = ap_pub a" "ap_serial (fst (allow_command o' now a)) = ap_serial a"
  "ap_ch (fst (allow_command o' now a)) = ap_ch a" "ap_phase (fst (allow_command o' now a)) = ap_phase a"
  "ap_delay (fst (allow_command o' now a)) = ap_delay a"
  by (simp_all add: allow_command_def Let_def)

lemma status_frame [simp]:
  "ap_pub (fst (command_rate_status o' now a)) = ap_pub a" "ap_serial (fst (command_rate_status o' now a)) = ap_serial a"
  "ap_ch (fst (command_rate_status o' now a)) = ap_ch a" "ap_phase (fst (command_rate_status o' now a)) = ap_phase a"
  "ap_delay (fst (command_rate_status o' now a)) = ap_delay a"
  by (simp_all add: command_rate_status_def Let_def)

text \<open>A command reaches the port under these conditions.\<close>

definition granted :: "options \<Rightarrow> instant \<Rightarrow> string \<Rightarrow> app \<Rightarrow> string option" where
  "granted o' now payload a =
     (case normalize_command o' payload of
        Inl _ \<Rightarrow> None
      | Inr c \<Rightarrow> if command_allowed o' c \<and> snd (allow_command o' now a) then Some c else None)"

text \<open>The outcomes of a command, with the state in which its result is published.\<close>

lemma execute_command_cases:
  obtains (rejected) res where "granted o' now payload a = None" "cr_Status res = ''rejected''"
      "execute_command E D Q o' now payload a = finish_command E o' now res (with_pub inc_command_rejected a)"
      "cr_ReceivedAt res = e_rfc3339nano E now"
  | (limited) res b where "granted o' now payload a = None" "cr_Status res = ''rate_limited''"
      "execute_command E D Q o' now payload a = finish_command E o' now res b"
      "ap_pub b = inc_command_rate_limited (ap_pub a)" "ap_serial b = ap_serial a" "ap_ch b = ap_ch a"
      "ap_phase b = ap_phase a" "ap_delay b = ap_delay a" "cr_ReceivedAt res = e_rfc3339nano E now"
  | (written) c res b where "granted o' now payload a = Some c"
      "cr_Status res = (case snd (write_command D c (ap_serial a)) of
         None \<Rightarrow> ''ok'' | Some e \<Rightarrow> if e = SerialNotConnected then ''serial_down'' else ''error'')"
      "execute_command E D Q o' now payload a = finish_command E o' now res b"
      "ap_pub b = ap_pub a" "ap_serial b = fst (write_command D c (ap_serial a))" "ap_ch b = ap_ch a"
      "ap_phase b = ap_phase a" "ap_delay b = ap_delay a" "cr_ReceivedAt res = e_rfc3339nano E now"
proof (cases "normalize_command o' payload")
  case (Inl e)
  then show thesis
    by (intro rejected) (auto simp: granted_def execute_command_def Let_def cmd_res_def)
next
  case c: (Inr c)
  show thesis
  proof (cases "command_allowed o' c")
    case False
    then show thesis
      using c by (intro rejected) (auto simp: granted_def execute_command_def Let_def cmd_res_def)
  next
    case True
    obtain a1 g where g: "allow_command o' now a = (a1, g)" by fastforce
    have a1: "ap_pub a1 = ap_pub a" "ap_serial a1 = ap_serial a" "ap_ch a1 = ap_ch a" "ap_phase a1 = ap_phase a"
      "ap_delay a1 = ap_delay a"
      using allow_frame [of o' now a] by (simp_all add: g)
    show thesis
    proof (cases g)
      case False
      let ?s = "command_rate_status o' now (with_pub inc_command_rate_limited a1)"
      have ex: "execute_command E D Q o' now payload a =
          finish_command E o' now (with_rate (snd ?s) (cmd_res c ''rate_limited'' [] (e_rfc3339nano E now))) (fst ?s)"
        using c True False by (simp add: execute_command_def Let_def g split: prod.splits)
      show thesis
        using c True False by (intro limited [OF _ _ ex]) (simp_all add: granted_def g a1 with_rate_def cmd_res_def)
    next
      case granted: True
      obtain sr e where w: "write_command D c (ap_serial a) = (sr, e)" by fastforce
      show thesis
      proof (cases e)
        case None
        let ?s = "command_rate_status o' now (a1\<lparr>ap_serial := sr\<rparr>)"
        have ex: "execute_command E D Q o' now payload a =
            finish_command E o' now (with_rate (snd ?s) (cmd_res c ''ok'' [] (e_rfc3339nano E now))) (fst ?s)"
          using c True granted None w by (simp add: execute_command_def Let_def g a1 split: prod.splits)
        show thesis
          using c True granted None w
          by (intro written [OF _ _ ex, of c]) (simp_all add: granted_def g a1 with_rate_def cmd_res_def)
      next
        case (Some err)
        have ex: "execute_command E D Q o' now payload a =
            finish_command E o' now
              (cmd_res c (if err = SerialNotConnected then ''serial_down'' else ''error'')
                (serial_error_text err) (e_rfc3339nano E now)) (a1\<lparr>ap_serial := sr\<rparr>)"
          using c True granted Some w by (simp add: execute_command_def Let_def g a1)
        show thesis
          using c True granted Some w
          by (intro written [OF _ _ ex, of c]) (simp_all add: granted_def g a1 cmd_res_def)
      qed
    qed
  qed
qed

lemma finish_command_simps [simp]:
  "snd (finish_command E o' now res a) = res" "ap_serial (fst (finish_command E o' now res a)) = ap_serial a"
  "ap_ch (fst (finish_command E o' now res a)) = ap_ch a" "ap_phase (fst (finish_command E o' now res a)) = ap_phase a"
  "ap_delay (fst (finish_command E o' now res a)) = ap_delay a"
  "ap_pub (fst (finish_command E o' now res a)) = publish_cmd_result E o' now res (ap_pub a)"
  by (simp_all add: finish_command_def)

lemma granted_frame: "granted o' now payload a = Some c \<Longrightarrow>
    rflink_frame c \<and> command_allowed o' c \<and> int (length c) \<le> max_command_len o'"
  using normalize_command_sound [of o' payload c] by (auto simp: granted_def split: sum.splits if_splits)

lemma execute_wrote:
  "wrote (ap_serial (fst (execute_command E D Q o' now payload a))) = wrote (ap_serial a) @
     (case granted o' now payload a of Some c \<Rightarrow> if port_open (ap_serial a) then [c @ cr_lf] else [] | None \<Rightarrow> [])"
  by (cases rule: execute_command_cases [of o' now payload a E D Q]) (auto dest: granted_frame)

lemma execute_frame [simp]:
  "ap_ch (fst (execute_command E D Q o' now payload a)) = ap_ch a"
  "ap_phase (fst (execute_command E D Q o' now payload a)) = ap_phase a"
  "ap_delay (fst (execute_command E D Q o' now payload a)) = ap_delay a"
  "port_open (ap_serial (fst (execute_command E D Q o' now payload a))) = port_open (ap_serial a)"
  "link (ap_pub (fst (execute_command E D Q o' now payload a))) = link (ap_pub a)"
  by (cases rule: execute_command_cases [of o' now payload a E D Q]; simp add: granted_frame)+

lemma cmd_result_counts [simp]:
  "commands_rejected (publish_cmd_result E o' now res p) = commands_rejected p"
  "commands_limited (publish_cmd_result E o' now res p) = commands_limited p"
  unfolding publish_cmd_result_def Let_def
  by (cases rule: publish_raw_cases [of E "cmd_result_topic o'"
        "PCmdResult (if cr_ReceivedAt res = [] then res\<lparr>cr_ReceivedAt := e_rfc3339nano E now\<rparr> else res)"
        "mqtt_qos o'" False p]; simp)+

lemma cmd_result_sent:
  assumes "cr_ReceivedAt res = e_rfc3339nano E now"
  shows "sends (\<lambda>x. fst x = \<lparr>m_topic = cmd_result_topic o', m_qos = mqtt_qos o', m_retain = False,
      m_payload = PCmdResult res\<rparr>) p (publish_cmd_result E o' now res p)"
proof -
  have "(if cr_ReceivedAt res = [] then res\<lparr>cr_ReceivedAt := e_rfc3339nano E now\<rparr> else res) = res"
    using assms by (metis (no_types, lifting) cmd_result.surjective cmd_result.update_convs(4))
  then show ?thesis
    unfolding publish_cmd_result_def Let_def by (simp add: sends_publish_raw)
qed

lemma sends_result_from:
  assumes "sends P p q" and "outbox p' = outbox p"
  shows "sends P p' q"
  using assms by (simp add: sends_def)

lemma counter_outbox [simp]:
  "outbox (inc_command_rejected p) = outbox p" "outbox (inc_command_rate_limited p) = outbox p"
  "commands_rejected (inc_command_rejected p) = commands_rejected p + 1"
  "commands_limited (inc_command_rejected p) = commands_limited p"
  "commands_rejected (inc_command_rate_limited p) = commands_rejected p"
  "commands_limited (inc_command_rate_limited p) = commands_limited p + 1"
  by (simp_all add: inc_command_rejected_def inc_command_rate_limited_def)


section \<open>Frames of the steps\<close>

text \<open>What the steps see of the application: the port, the published status, the phase and the channel.\<close>

definition view :: "app \<Rightarrow> bool \<times> (bool \<times> 64 word) \<times> session_phase \<times> string list" where
  "view a = (port_open (ap_serial a), link (ap_pub a), ap_phase a, ap_ch a)"

lemma view_pub: "link (f (ap_pub a)) = link (ap_pub a) \<Longrightarrow> view (with_pub f a) = view a"
  by (simp add: view_def)

lemma send_ping_cases:
  obtains (idle) "send_ping D now a = a"
  | (refused) "port_open (ap_serial a)"
      "send_ping D now a = a\<lparr>ap_serial := fst (write_command D ping_command (ap_serial a))\<rparr>"
  | (sent) "port_open (ap_serial a)"
      "\<not> ping_outstanding (ap_pub a)"
      "send_ping D now a =
        with_pub (mark_ping_sent now) (a\<lparr>ap_serial := fst (write_command D ping_command (ap_serial a))\<rparr>)"
  by (atomize_elim, cases "write_command D ping_command (ap_serial a)")
    (auto simp: send_ping_def serial_connected_def split: option.splits)

lemma view_quiet [simp]:
  "view (handle_command E D Q o' now payload a) = view a"
  "view (fst (command_rate_status o' now a)) = view a"
  "view (send_ping D now a) = view a"
  "view (with_pub (loop_step E o' rk ev) a) = view a"
  "view (with_pub (on_connection_up E o' now rank rks) a) = view a"
  "view (with_pub on_connection_down a) = view a"
  "view (with_pub (clear_ha_discovery E o') a) = view a" "view (with_pub loop_recovered a) = view a"
proof -
  show "view (handle_command E D Q o' now payload a) = view a"
    by (simp add: view_def handle_command_def)
  show "view (send_ping D now a) = view a"
    by (cases rule: send_ping_cases [of D now a]) (simp_all add: view_def)
qed (simp_all add: view_def)

lemma receive_simps:
  assumes "ap_ch a = msg # ms"
  shows "view (receive_line E o' rk now a) = (port_open (ap_serial a), link (ap_pub a), ap_phase a, ms)"
    and "ap_serial (receive_line E o' rk now a) = ap_serial a" and "ap_delay (receive_line E o' rk now a) = ap_delay a"
  using assms by (simp_all add: receive_line_def view_def)

lemma link_pair: "link p = (serial_up p, serial_dropped p)"
  by (simp add: link_def)

lemma view_session_end:
  "view (session_end E D o' now c a) =
    (if c then (port_open (ap_serial a), link (ap_pub a), Stopped, ap_ch a)
     else (False, (False, serial_dropped (ap_pub a)), Sleeping, ap_ch a))"
  by (simp add: view_def session_end_def)

lemma view_session_online:
  "view (session_online E D o' now a) =
    (port_open (ap_serial a), (True, serial_dropped (ap_pub a)), Reading new_scanner, ap_ch a)"
  by (simp add: view_def session_online_def Let_def)

lemma view_session_start:
  "view (session_start E D o' now c a) =
    (if c then (port_open (ap_serial a), link (ap_pub a), Stopped, ap_ch a)
     else if port_open (ap_serial a) \<or> snd (reconnect D o' (ap_serial a)) = None
       then (True, (True, serial_dropped (ap_pub a)), Reading new_scanner, ap_ch a)
     else (False, (False, serial_dropped (ap_pub a)), Sleeping, ap_ch a))"
proof (cases "reconnect D o' (ap_serial a)")
  case (Pair sr e)
  then show ?thesis
    using port_open_reconnect [of D o' "ap_serial a"]
    by (auto simp: session_start_def serial_connected_def view_session_online split: option.splits)
      (auto simp: view_def)
qed

lemma view_session_recovered:
  "view (session_recovered E D o' now a) = (False, (False, serial_dropped (ap_pub a)), Starting, ap_ch a)"
  by (simp add: view_def session_recovered_def)

lemma view_session_wake:
  "\<exists>ph \<in> {Starting, Stopped}. view (session_wake o' c first a) = (port_open (ap_serial a), link (ap_pub a), ph, ap_ch a)"
  by (simp add: view_def session_wake_def)

lemma view_app_stop: "view (app_stop E D o' a) = (False, link (ap_pub a), Stopped, ap_ch a)"
  by (simp add: view_def app_stop_def Let_def)

lemma handle_line_cases:
  obtains (ended) "handle_line now c pick l a = (with_pub (note_serial_activity now) a, Some ContextDone)" "c"
  | (sent) "handle_line now c pick l a = ((with_pub (note_serial_activity now) a)\<lparr>ap_ch := ap_ch a @ [l]\<rparr>, None)"
      "length (ap_ch a) < serial_channel_buffer"
  | (dropped) "handle_line now c pick l a = (with_pub inc_serial_dropped (with_pub (note_serial_activity now) a), None)"
      "\<not> length (ap_ch a) < serial_channel_buffer"
  by (atomize_elim) (auto simp: handle_line_def Let_def)

section \<open>Invariants of runs\<close>

text \<open>The session, the port and the status that was published agree, and the channel is bounded.\<close>

fun view_ok :: "bool \<times> (bool \<times> 64 word) \<times> session_phase \<times> string list \<Rightarrow> bool" where
  "view_ok (port, (up, n), ph, ch) =
     (length ch \<le> serial_channel_buffer \<and>
      (case ph of Reading _ \<Rightarrow> port \<and> up | Sleeping \<Rightarrow> \<not> port \<and> \<not> up | _ \<Rightarrow> True))"

lemma session_round_line:
  assumes "read_next c sc = (sc', HandleLine l)"
    and "handle_line now c' pick l (a\<lparr>ap_phase := Reading sc'\<rparr>) = (a', None)"
  shows "session_round E D o' now c c' pick sc a = a'"
  using assms by (simp add: session_round_def)

lemma session_round_abort:
  assumes "read_next c sc = (sc', HandleLine l)"
    and "handle_line now c' pick l (a\<lparr>ap_phase := Reading sc'\<rparr>) = (a', Some err)"
  shows "view (session_round E D o' now c c' pick sc a) = (port_open (ap_serial a), link (ap_pub a), Stopped, ap_ch a)"
  using assms
  by (cases rule: handle_line_cases [of now c' pick l "a\<lparr>ap_phase := Reading sc'\<rparr>"])
    (auto simp: session_round_def view_session_end)

lemma session_round_returned:
  "read_next c sc = (sc', Returns err) \<Longrightarrow> session_round E D o' now c c' pick sc a = session_end E D o' now c' a"
  by (simp add: session_round_def)

lemma session_round_read:
  "read_next c sc = (sc', ReadMore) \<Longrightarrow> session_round E D o' now c c' pick sc a = a\<lparr>ap_phase := Reading sc'\<rparr>"
  by (simp add: session_round_def)

text \<open>What a step does to the view, by its label.\<close>

lemma view_step:
  assumes "app_step E D Q o' a l b" and "view_ok (view a)"
  shows "view_ok (view b) \<and>
    (case l of
       Offered s \<Rightarrow> (ap_ch b = ap_ch a @ [s] \<and> serial_dropped (ap_pub b) = serial_dropped (ap_pub a))
         \<or> (ap_ch b = ap_ch a \<and> serial_dropped (ap_pub b) = serial_dropped (ap_pub a) + 1)
     | Taken s \<Rightarrow> ap_ch a = s # ap_ch b \<and> serial_dropped (ap_pub b) = serial_dropped (ap_pub a)
     | _ \<Rightarrow> ap_ch b = ap_ch a \<and> serial_dropped (ap_pub b) = serial_dropped (ap_pub a))"
proof -
  have same: ?thesis if "view b = view a" "case l of Offered _ \<Rightarrow> False | Taken _ \<Rightarrow> False | _ \<Rightarrow> True"
    using that assms(2) by (cases l) (simp_all add: view_def link_pair)
  show ?thesis
    using assms(1)
  proof cases
    case (receive msg ms rk now)
    then show ?thesis
      using assms(2) receive_simps(1) [of a msg ms E o' rk now] by (auto simp: view_def link_pair split: session_phase.splits)
  next
    case (start now c)
    then show ?thesis
      using assms(2) view_session_start [of E D o' now c a] by (auto simp: view_def link_pair)
  next
    case (line sc c sc' s now c' pick a')
    then show ?thesis
      using assms(2)
      by (cases rule: handle_line_cases [of now c' pick s "a\<lparr>ap_phase := Reading sc'\<rparr>"])
        (auto simp: session_round_line view_def link_def inc_serial_dropped_def note_serial_activity_def)
  next
    case (abort sc c sc' s now c' pick a' err)
    then show ?thesis
      using assms(2) session_round_abort [OF abort(4,5), of E D o'] by (auto simp: view_def link_pair)
  next
    case (returned sc c sc' err now c' pick)
    then show ?thesis
      using assms(2) view_session_end [of E D o' now c' a]
      by (auto simp: session_round_returned view_def link_pair split: if_splits)
  next
    case (read sc c sc' ev now c' pick)
    then show ?thesis
      using assms(2) by (auto simp: session_round_read session_read_def view_def link_pair)
  next
    case (wake c first)
    then show ?thesis
      using assms(2) view_session_wake [of o' c first a] by (auto simp: view_def link_pair)
  next
    case (recovered sc now)
    then show ?thesis
      using assms(2) view_session_recovered [of E D o' now a] by (auto simp: view_def link_pair)
  next
    case stop
    then show ?thesis
      using assms(2) view_app_stop [of E D o' a] by (auto simp: view_def link_pair)
  qed (rule same, simp, simp)+
qed

definition offered :: "line_label list \<Rightarrow> string list" where
  "offered ls = List.map_filter (\<lambda>l. case l of Offered s \<Rightarrow> Some s | _ \<Rightarrow> None) ls"

definition taken :: "line_label list \<Rightarrow> string list" where
  "taken ls = List.map_filter (\<lambda>l. case l of Taken s \<Rightarrow> Some s | _ \<Rightarrow> None) ls"

lemma label_lists_snoc [simp]:
  "offered (ls @ [l]) = offered ls @ (case l of Offered s \<Rightarrow> [s] | _ \<Rightarrow> [])"
  "taken (ls @ [l]) = taken ls @ (case l of Taken s \<Rightarrow> [s] | _ \<Rightarrow> [])"
  "offered [] = []" "taken [] = []"
  by (simp_all add: offered_def taken_def List.map_filter_def split: line_label.splits)

text \<open>Lines that are read are taken, queued or dropped and counted, and never reordered.\<close>

definition lines_inv :: "app \<Rightarrow> line_label list \<Rightarrow> app \<Rightarrow> bool" where
  "lines_inv a ls b \<longleftrightarrow> subseq (taken ls @ ap_ch b) (offered ls) \<and>
     serial_dropped (ap_pub b) = serial_dropped (ap_pub a)
       + of_nat (length (offered ls) - length (taken ls) - length (ap_ch b))"

lemma of_nat_drop: "m \<le> n \<Longrightarrow> of_nat (Suc n - m) = (of_nat (n - m) + 1 :: 64 word)"
  by (simp add: Suc_diff_le)

lemma lines_inv_step:
  assumes "lines_inv a ls b" and "app_step E D Q o' b l c" and "view_ok (view b)"
  shows "lines_inv a (ls @ [l]) c"
proof -
  have sub: "subseq (taken ls @ ap_ch b) (offered ls)"
    and cnt: "serial_dropped (ap_pub b) = serial_dropped (ap_pub a)
       + of_nat (length (offered ls) - (length (taken ls) + length (ap_ch b)))"
    using assms(1) by (simp_all add: lines_inv_def diff_diff_eq)
  have len: "length (taken ls) + length (ap_ch b) \<le> length (offered ls)"
    using list_emb_length [OF sub] by simp
  note effect = conjunct2 [OF view_step [OF assms(2,3)]]
  show ?thesis
  proof (cases l)
    case (Offered s)
    then have "(ap_ch c = ap_ch b @ [s] \<and> serial_dropped (ap_pub c) = serial_dropped (ap_pub b)) \<or>
        (ap_ch c = ap_ch b \<and> serial_dropped (ap_pub c) = serial_dropped (ap_pub b) + 1)"
      using effect by simp
    then show ?thesis
    proof (elim disjE)
      assume e: "ap_ch c = ap_ch b @ [s] \<and> serial_dropped (ap_pub c) = serial_dropped (ap_pub b)"
      have "subseq ((taken ls @ ap_ch b) @ [s]) (offered ls @ [s])"
        using sub list_emb_append_mono [OF sub, of "[s]" "[s]"] by simp
      with e cnt Offered show ?thesis by (simp add: lines_inv_def)
    next
      assume e: "ap_ch c = ap_ch b \<and> serial_dropped (ap_pub c) = serial_dropped (ap_pub b) + 1"
      have "subseq (taken ls @ ap_ch b) (offered ls @ [s])"
        using sub by (rule subseq_rev_drop_many)
      with e cnt len Offered show ?thesis
        by (simp add: lines_inv_def diff_diff_eq of_nat_drop add.assoc)
    qed
  next
    case (Taken s)
    then show ?thesis using effect sub cnt by (simp add: lines_inv_def diff_diff_eq)
  qed (use effect sub cnt in \<open>simp_all add: lines_inv_def diff_diff_eq\<close>)
qed

lemma app_run_inv:
  assumes "app_run E D Q o' a ls b" and "view_ok (view a)" and "ap_ch a = []"
  shows "view_ok (view b) \<and> lines_inv a ls b"
  using assms(1)
proof induction
  case begun
  then show ?case using assms(2,3) by (simp add: lines_inv_def)
next
  case (step ls b l c)
  then show ?case using view_step [OF step.hyps(2)] lines_inv_step by blast
qed

lemma init_view_ok: "view_ok (view (init_app D o' now p))" "ap_ch (init_app D o' now p) = []"
  by (simp_all add: view_def init_app_def new_serial_channel_def link_def)

lemma init_dropped [simp]: "serial_dropped (ap_pub (init_app D o' now p)) = serial_dropped p"
  by (simp add: init_app_def set_sensor_hook_def set_raw_line_hook_def subscribe_commands_def)

section \<open>Only frames reach the port\<close>

definition written_ok :: "options \<Rightarrow> string \<Rightarrow> bool" where
  "written_ok o' s \<longleftrightarrow> (\<exists>c. s = c @ cr_lf \<and> rflink_frame c \<and>
     (c \<in> {version_command, ping_command} \<or>
      command_allowed o' c \<and> int (length c) \<le> max_command_len o'))"

lemma session_wrote [simp]:
  "wrote (ap_serial (session_end E D o' now c a)) = wrote (ap_serial a)"
  "wrote (ap_serial (session_recovered E D o' now a)) = wrote (ap_serial a)"
  "wrote (ap_serial (session_wake o' c first a)) = wrote (ap_serial a)"
  "wrote (ap_serial (app_stop E D o' a)) = wrote (ap_serial a)"
  "wrote (ap_serial (fst (handle_line now c pick l a))) = wrote (ap_serial a)"
  by (simp_all add: session_end_def session_recovered_def session_wake_def app_stop_def Let_def handle_line_def)

lemma session_round_wrote [simp]:
  "wrote (ap_serial (session_round E D o' now c c' pick sc a)) = wrote (ap_serial a)"
proof (cases "read_next c sc")
  case (Pair sc' r)
  show ?thesis
  proof (cases r)
    case (HandleLine l)
    then show ?thesis
      using Pair
      by (cases rule: handle_line_cases [of now c' pick l "a\<lparr>ap_phase := Reading sc'\<rparr>"])
        (simp_all add: session_round_def)
  qed (simp_all add: session_round_def Pair)
qed

lemma session_online_wrote:
  "wrote (ap_serial (session_online E D o' now a)) = wrote (ap_serial a) @
    (if port_open (ap_serial a) then [version_command @ cr_lf] else [])"
  by (simp add: session_online_def Let_def)

lemma session_start_wrote:
  "wrote (ap_serial (session_start E D o' now c a)) \<in>
    {wrote (ap_serial a), wrote (ap_serial a) @ [version_command @ cr_lf]}"
  using wrote_reconnect [of D o' "ap_serial a"]
  by (cases "reconnect D o' (ap_serial a)")
    (auto simp: session_start_def session_online_wrote split: option.splits)

text \<open>What a step writes, by its label: a command, if it is granted, or what the program sends itself.\<close>

definition service_lines :: "string set" where
  "service_lines = {version_command @ cr_lf, ping_command @ cr_lf}"

definition commanded :: "options \<Rightarrow> app \<Rightarrow> line_label \<Rightarrow> string option" where
  "commanded o' a l = (case l of Commanded now payload \<Rightarrow> granted o' now payload a | _ \<Rightarrow> None)"

lemma app_step_wrote:
  assumes "app_step E D Q o' a l b"
  shows "\<exists>new. wrote (ap_serial b) = wrote (ap_serial a) @ new \<and>
    (set new \<subseteq> service_lines \<and> length new \<le> 1 \<or> (\<exists>c. commanded o' a l = Some c \<and> new = [c @ cr_lf]))"
  using assms
proof cases
  case (command now payload)
  then show ?thesis by (auto simp: handle_command_def execute_wrote commanded_def split: option.splits)
next
  case (ping now)
  then show ?thesis
    by (cases rule: send_ping_cases [of D now a]) (auto simp: service_lines_def)
next
  case (receive msg ms rk now)
  then show ?thesis using receive_simps(2) [of a msg ms] by simp
next
  case (start now c)
  then show ?thesis using session_start_wrote [of E D o' now c a] by (auto simp: service_lines_def)
next
  case (read sc c sc' ev now c' pick)
  then show ?thesis by (simp add: session_read_def)
qed simp_all

lemma written_ok_service: "set new \<subseteq> service_lines \<Longrightarrow> list_all (written_ok o') new"
  unfolding service_lines_def list_all_iff written_ok_def using service_frames by blast

lemma written_ok_granted: "granted o' now payload a = Some c \<Longrightarrow> written_ok o' (c @ cr_lf)"
  using granted_frame [of o' now payload a c] by (auto simp: written_ok_def)

lemma written_step:
  assumes "app_step E D Q o' a l b" and "list_all (written_ok o') (wrote (ap_serial a))"
  shows "list_all (written_ok o') (wrote (ap_serial b))"
  using app_step_wrote [OF assms(1)] assms(2)
  by (auto simp: written_ok_service commanded_def written_ok_granted split: line_label.splits)

lemma written_run:
  assumes "app_run E D Q o' a ls b" and "list_all (written_ok o') (wrote (ap_serial a))"
  shows "list_all (written_ok o') (wrote (ap_serial b))"
  using assms by induction (auto intro: written_step)

lemma init_wrote [simp]: "wrote (ap_serial (init_app D o' now p)) = []"
  by (simp add: init_app_def)

section \<open>Reconnecting\<close>

text \<open>One round of the serial loop in which the port cannot be opened: the attempt and the sleep after it.\<close>

definition failed_round :: "env \<Rightarrow> driver \<Rightarrow> options \<Rightarrow> instant \<Rightarrow> app \<Rightarrow> app" where
  "failed_round E D o' now a = session_wake o' False False (session_start E D o' now False a)"

fun outage :: "env \<Rightarrow> driver \<Rightarrow> options \<Rightarrow> instant list \<Rightarrow> app \<Rightarrow> bool" where
  "outage E D o' [] a = True"
| "outage E D o' (now # nows) a =
     (snd (reconnect D o' (ap_serial a)) \<noteq> None \<and> outage E D o' nows (failed_round E D o' now a))"

lemma session_start_refused:
  assumes "\<not> port_open (ap_serial a)" and "snd (reconnect D o' (ap_serial a)) = Some err"
  shows "session_start E D o' now False a = with_pub (set_serial_connected E o' now False)
    (a\<lparr>ap_serial := fst (reconnect D o' (ap_serial a)), ap_phase := Sleeping\<rparr>)"
  using assms by (cases "reconnect D o' (ap_serial a)") (simp add: session_start_def serial_connected_def)

lemma session_start_opened:
  assumes "\<not> port_open (ap_serial a)" and "snd (reconnect D o' (ap_serial a)) = None"
  shows "session_start E D o' now False a = session_online E D o' now
    (a\<lparr>ap_serial := fst (reconnect D o' (ap_serial a)), ap_delay := serial_reconnect_min_delay o'\<rparr>)"
  using assms by (cases "reconnect D o' (ap_serial a)") (simp add: session_start_def serial_connected_def)

lemma failed_round_effect:
  assumes "\<not> port_open (ap_serial a)" and "snd (reconnect D o' (ap_serial a)) \<noteq> None" and "0 < ap_delay a"
  shows "ap_phase (failed_round E D o' now a) = Starting" and "\<not> port_open (ap_serial (failed_round E D o' now a))"
    and "ap_delay (failed_round E D o' now a) =
      next_backoff (ap_delay a) (serial_reconnect_min_delay o') (serial_reconnect_max_delay o')"
    and "wrote (ap_serial (failed_round E D o' now a)) = wrote (ap_serial a)"
proof -
  obtain err where e: "snd (reconnect D o' (ap_serial a)) = Some err" using assms(2) by blast
  note start = session_start_refused [OF assms(1) e]
  show "ap_phase (failed_round E D o' now a) = Starting"
    and "ap_delay (failed_round E D o' now a) =
      next_backoff (ap_delay a) (serial_reconnect_min_delay o') (serial_reconnect_max_delay o')"
    and "wrote (ap_serial (failed_round E D o' now a)) = wrote (ap_serial a)"
    using assms(3) by (simp_all add: failed_round_def start session_wake_def sleep_context_def)
  show "\<not> port_open (ap_serial (failed_round E D o' now a))"
    using assms(3) port_open_reconnect [of D o' "ap_serial a"] e
    by (simp add: failed_round_def start session_wake_def sleep_context_def)
qed

lemma outage_effect:
  assumes "outage E D o' nows a" and "\<not> port_open (ap_serial a)" and "ap_phase a = Starting"
    and "0 < serial_reconnect_min_delay o'" and "serial_reconnect_min_delay o' \<le> serial_reconnect_max_delay o'"
    and "serial_reconnect_max_delay o' < 2 ^ 62"
    and "serial_reconnect_min_delay o' \<le> ap_delay a" and "ap_delay a \<le> serial_reconnect_max_delay o'"
  shows "ap_phase (fold (failed_round E D o') nows a) = Starting \<and>
    \<not> port_open (ap_serial (fold (failed_round E D o') nows a)) \<and>
    wrote (ap_serial (fold (failed_round E D o') nows a)) = wrote (ap_serial a) \<and>
    ap_delay (fold (failed_round E D o') nows a) =
      ((\<lambda>d. next_backoff d (serial_reconnect_min_delay o') (serial_reconnect_max_delay o')) ^^ length nows) (ap_delay a)"
  using assms(1-3,7,8)
proof (induction nows arbitrary: a)
  case (Cons now nows)
  let ?b = "failed_round E D o' now a"
  have d: "0 < ap_delay a" and r: "snd (reconnect D o' (ap_serial a)) \<noteq> None" using Cons.prems assms(4) by auto
  note eff = failed_round_effect [OF Cons.prems(2) r d, of E now]
  have "serial_reconnect_min_delay o' \<le> ap_delay ?b \<and> ap_delay ?b \<le> serial_reconnect_max_delay o'"
    using next_backoff_range [OF assms(4-6) Cons.prems(5)] by (simp add: eff)
  then show ?case
    using Cons.IH [of ?b] Cons.prems(1) eff by (simp add: funpow_Suc_right del: funpow.simps(2))
qed simp

lemma reconnect_settings:
  assumes "options_ok o'" and "ReconnectMaxDelaySec (Serial o') \<le> 4611686018"
  shows "0 < serial_reconnect_min_delay o'" and "serial_reconnect_min_delay o' \<le> serial_reconnect_max_delay o'"
    and "serial_reconnect_max_delay o' < 2 ^ 62"
  using assms
  by (simp_all add: options_ok_def serial_ok_def serial_reconnect_min_delay_def serial_reconnect_max_delay_def
      seconds_exact max_seconds_def)

section \<open>Properties\<close>

definition sample_driver :: driver where
  "sample_driver = \<lparr>dr_call = (\<lambda>_ _. None)\<rparr>"

definition sample_quoting :: quoting where
  "sample_quoting = \<lparr>q_string = id, q_rune = (\<lambda>_. [])\<rparr>"

text \<open>A configuration without a rate limit, and its application after the first start.\<close>

definition unlimited :: options where
  "unlimited = sample_config\<lparr>Publish := (Publish sample_config)\<lparr>CommandRateLimit := 0\<rparr>\<rparr>"

definition first_app :: app where
  "first_app = init_app sample_driver unlimited 0 (new_publisher unlimited 0)"

abbreviation sample_step :: "app \<Rightarrow> line_label \<Rightarrow> app \<Rightarrow> bool" where
  "sample_step \<equiv> app_step sample_env sample_driver sample_quoting unlimited"

abbreviation sample_run :: "line_label list \<Rightarrow> app \<Rightarrow> bool" where
  "sample_run \<equiv> app_run sample_env sample_driver sample_quoting unlimited first_app"

definition started_app :: app where
  "started_app = session_start sample_env sample_driver unlimited 1 False first_app"

lemma first_phase: "ap_phase first_app = Starting" "port_open (ap_serial first_app)"
  by (simp_all add: first_app_def init_app_def)
    (simp add: new_serial_reader_def connect_port_def port_do_def Let_def disconnect_def sample_driver_def)

lemma started_run: "sample_run [Quiet] started_app"
  using app_run.step [OF app_run.begun app_step.start [OF first_phase(1)]] by (simp add: started_app_def)

text \<open>In every run of the application, whatever arrives as commands, every payload that is written to the
  serial port is a single line: a frame of the command grammar and one CR LF. The frame is one of the two
  that the program sends itself, or a command on the whitelist within the configured length.\<close>
lemma only_frames_written:
  assumes "app_run E D Q o' (init_app D o' now p) ls b" and "s \<in> set (wrote (ap_serial b))"
  shows "\<exists>c. s = c @ cr_lf \<and> rflink_frame c \<and> new_line \<notin> set c \<and> carriage_return \<notin> set c \<and>
    (c \<in> {version_command, ping_command} \<or> command_allowed o' c \<and> int (length c) \<le> max_command_len o')"
proof -
  have "list_all (written_ok o') (wrote (ap_serial b))"
    by (rule written_run [OF assms(1)]) simp
  then obtain c where c: "s = c @ cr_lf" "rflink_frame c"
    "c \<in> {version_command, ping_command} \<or> command_allowed o' c \<and> int (length c) \<le> max_command_len o'"
    using assms(2) by (auto simp: list_all_iff written_ok_def)
  have "new_line \<notin> set c \<and> carriage_return \<notin> set c"
    using frame_bytes [OF c(2)] by (fastforce simp: list_all_iff field_byte_def new_line_def carriage_return_def)
  with c show ?thesis by blast
qed

lemma only_frames_written_witness:
  "wrote (ap_serial started_app) = [version_command @ cr_lf] \<and>
   (\<exists>c. version_command @ cr_lf = c @ cr_lf \<and> rflink_frame c \<and> new_line \<notin> set c \<and> carriage_return \<notin> set c)"
proof -
  have w: "wrote (ap_serial started_app) = [version_command @ cr_lf]"
    using first_phase(2)
    by (simp add: started_app_def session_start_def serial_connected_def session_online_wrote)
      (simp add: first_app_def)
  then have "version_command @ cr_lf \<in> set (wrote (ap_serial started_app))" by simp
  from only_frames_written [OF started_run [unfolded first_app_def] this] w show ?thesis by blast
qed

text \<open>C31: In every run the lines that \<open>ReadLines\<close> handed over are accounted for: those that the publish loop
  has received followed by those in the channel are a subsequence of them, in their order, the channel
  holds at most 64, and the dropped counter (64 bits) has grown by the number of those missing.\<close>
theorem lines_accounted_for:
  assumes "app_run E D Q o' (init_app D o' now p) ls b"
  shows "subseq (taken ls @ ap_ch b) (offered ls) \<and> length (ap_ch b) \<le> serial_channel_buffer \<and>
    serial_dropped (ap_pub b) = serial_dropped p
      + of_nat (length (offered ls) - length (taken ls) - length (ap_ch b))"
proof -
  note inv = app_run_inv [OF assms init_view_ok]
  have "length (ap_ch b) \<le> serial_channel_buffer"
    using conjunct1 [OF inv] by (auto simp: view_def link_def)
  then show ?thesis using inv by (simp add: lines_inv_def)
qed

text \<open>While the session reads, the port is open and the publisher's flag for the serial status says so;
  while it waits to reconnect, the port is closed and the flag says that too.\<close>
lemma serial_status_agrees:
  assumes "app_run E D Q o' (init_app D o' now p) ls b"
  shows "case ap_phase b of
      Reading _ \<Rightarrow> port_open (ap_serial b) \<and> serial_up (ap_pub b)
    | Sleeping \<Rightarrow> \<not> port_open (ap_serial b) \<and> \<not> serial_up (ap_pub b)
    | _ \<Rightarrow> True"
  using app_run_inv [OF assms init_view_ok] by (auto simp: view_def link_def)

lemma serial_status_agrees_witness:
  "ap_phase started_app = Reading new_scanner \<and> serial_up (ap_pub started_app) \<and> port_open (ap_serial started_app)"
proof -
  have "ap_phase started_app = Reading new_scanner"
    using view_session_start [of sample_env sample_driver unlimited 1 False first_app] first_phase
    by (simp add: view_def started_app_def)
  with serial_status_agrees [OF started_run [unfolded first_app_def]] show ?thesis by simp
qed

lemma lines_accounted_for_witness:
  "\<exists>ls b. sample_run ls b \<and> offered ls = [''20;00;PONG;''] \<and> ap_ch b = [''20;00;PONG;''] \<and>
     serial_dropped (ap_pub b) = 0"
proof -
  let ?ev = "\<lparr>re_data = ''20;00;PONG;'' @ [carriage_return, new_line], re_err = None\<rparr>"
  let ?sc = "scan_read ?ev new_scanner"
  let ?sc' = "\<lparr>sc_buf = [], sc_err = None, sc_loop = 0\<rparr>"
  define b where "b = session_read ?ev new_scanner
    (session_round sample_env sample_driver unlimited 2 False False False new_scanner started_app)"
  have r: "read_next False new_scanner = (new_scanner, ReadMore)" by code_simp
  have p: "ap_phase started_app = Reading new_scanner" using serial_status_agrees_witness by blast
  have b: "sample_run [Quiet, Quiet] b"
    using app_run.step [OF started_run app_step.read [OF p r]] by (simp add: b_def)
  have ph: "ap_phase b = Reading ?sc" and ch: "ap_ch b = []"
    using view_session_start [of sample_env sample_driver unlimited 1 False first_app] first_phase
    by (simp_all add: b_def session_read_def session_round_read [OF r] started_app_def view_def)
      (simp_all add: first_app_def init_app_def new_serial_channel_def)
  have n: "read_next False ?sc = (?sc', HandleLine ''20;00;PONG;'')" by code_simp
  define b' where "b' = (with_pub (note_serial_activity 3) (b\<lparr>ap_phase := Reading ?sc'\<rparr>))\<lparr>ap_ch := [''20;00;PONG;'']\<rparr>"
  have h: "handle_line 3 False False ''20;00;PONG;'' (b\<lparr>ap_phase := Reading ?sc'\<rparr>) = (b', None)"
    by (simp add: handle_line_def Let_def ch b'_def serial_channel_buffer_def)
  have run: "sample_run [Quiet, Quiet, Offered ''20;00;PONG;''] b'"
    using app_run.step [OF b app_step.line [OF ph n h]] unfolding session_round_line [OF n h] by simp
  have "serial_dropped (ap_pub b') = 0" "offered [Quiet, Quiet, Offered ''20;00;PONG;''] = [''20;00;PONG;'']"
    using lines_accounted_for [OF run [unfolded first_app_def]]
    by (simp_all add: b'_def offered_def taken_def List.map_filter_def new_publisher_def)
  with run show ?thesis by (intro exI [of _ "[Quiet, Quiet, Offered ''20;00;PONG;'']"] exI [of _ b']) (simp add: b'_def)
qed

text \<open>C32: After any number \<open>n\<close> of failed attempts in a row the serial loop waits the minimal delay times
  \<open>2 ^ n\<close>, but never longer than the maximal delay, and has written nothing. The first attempt that can
  open the port ends the outage: the loop reads lines, reports the port as connected, asks the gateway
  for its version, and the delay is back at the minimum.\<close>
theorem serial_recovers:
  assumes "options_ok o'" and "ReconnectMaxDelaySec (Serial o') \<le> 4611686018"
    and "ap_phase a = Starting" and "\<not> port_open (ap_serial a)" and "ap_delay a = serial_reconnect_min_delay o'"
    and "outage E D o' nows a" and "b = fold (failed_round E D o') nows a"
    and "snd (reconnect D o' (ap_serial b)) = None" and "c = session_start E D o' now False b"
  shows "ap_delay b = min (serial_reconnect_max_delay o') (serial_reconnect_min_delay o' * 2 ^ length nows) \<and>
    ap_phase c = Reading new_scanner \<and> serial_up (ap_pub c) \<and> port_open (ap_serial c) \<and>
    ap_delay c = serial_reconnect_min_delay o' \<and>
    wrote (ap_serial c) = wrote (ap_serial a) @ [version_command @ cr_lf]"
proof -
  note range = reconnect_settings [OF assms(1,2)]
  have b: "ap_phase b = Starting \<and> \<not> port_open (ap_serial b) \<and> wrote (ap_serial b) = wrote (ap_serial a) \<and>
    ap_delay b = min (serial_reconnect_max_delay o') (serial_reconnect_min_delay o' * 2 ^ length nows)"
    using outage_effect [OF assms(6,4,3) range] range assms(5,7)
    by (simp add: next_backoff_iterate [OF range])
  have open_now: "port_open (fst (reconnect D o' (ap_serial b)))"
    using port_open_reconnect assms(8) by blast
  let ?b = "b\<lparr>ap_serial := fst (reconnect D o' (ap_serial b)), ap_delay := serial_reconnect_min_delay o'\<rparr>"
  have c: "c = session_online E D o' now ?b"
    unfolding assms(9) by (rule session_start_opened) (use b assms(8) in auto)
  have "view c = (True, (True, serial_dropped (ap_pub b)), Reading new_scanner, ap_ch b)"
    unfolding c using open_now by (simp add: view_session_online)
  moreover have "wrote (ap_serial c) = wrote (ap_serial a) @ [version_command @ cr_lf]"
    unfolding c using open_now b by (simp add: session_online_wrote)
  moreover have "ap_delay c = serial_reconnect_min_delay o'"
    by (simp add: c session_online_def Let_def)
  ultimately show ?thesis using b by (simp add: view_def link_def)
qed

text \<open>A port that is busy for the first two calls of the driver.\<close>

definition busy_driver :: driver where
  "busy_driver = \<lparr>dr_call = (\<lambda>log _. if length log < 3 then Some ''busy'' else None)\<rparr>"

definition outage_options :: options where
  "outage_options =
     (case get_options ascii_tables (Inr (sample_options\<lparr>Serial := (Serial sample_options)\<lparr>ReconnectMaxDelaySec := 12\<rparr>\<rparr>)) of
        Inr o' \<Rightarrow> o' | Inl _ \<Rightarrow> sample_options)"

definition waiting_app :: app where
  "waiting_app = init_app busy_driver outage_options 0 (new_publisher outage_options 0)"

lemma outage_options_facts:
  "options_ok outage_options" "ReconnectMaxDelaySec (Serial outage_options) = 12"
  "ReconnectMinDelaySec (Serial outage_options) = 5"
proof -
  let ?in = "sample_options\<lparr>Serial := (Serial sample_options)\<lparr>ReconnectMaxDelaySec := 12\<rparr>\<rparr>"
  have "case get_options ascii_tables (Inr ?in) of Inl _ \<Rightarrow> False
    | Inr o' \<Rightarrow> ReconnectMaxDelaySec (Serial o') = 12 \<and> ReconnectMinDelaySec (Serial o') = 5"
    by code_simp
  then obtain o' where g: "get_options ascii_tables (Inr ?in) = Inr o'"
    and "ReconnectMaxDelaySec (Serial o') = 12" "ReconnectMinDelaySec (Serial o') = 5"
    by (auto split: sum.splits)
  moreover have "options_ok o'" by (rule get_options_ok [OF g])
  ultimately show "options_ok outage_options" "ReconnectMaxDelaySec (Serial outage_options) = 12"
    "ReconnectMinDelaySec (Serial outage_options) = 5"
    by (simp_all add: outage_options_def)
qed

lemma busy_reconnect:
  assumes "\<not> port_open sr"
  shows "length (port_log sr) < 3 \<Longrightarrow> snd (reconnect busy_driver o' sr) \<noteq> None \<and>
      length (port_log (fst (reconnect busy_driver o' sr))) = Suc (length (port_log sr))"
    and "3 \<le> length (port_log sr) \<Longrightarrow> snd (reconnect busy_driver o' sr) = None"
  using assms by (simp_all add: reconnect_def connect_port_def disconnect_def port_do_def Let_def busy_driver_def)

lemma waiting_outage:
  defines "b \<equiv> fold (failed_round sample_env busy_driver outage_options) [1, 2] waiting_app"
  shows "outage sample_env busy_driver outage_options [1, 2] waiting_app"
    and "snd (reconnect busy_driver outage_options (ap_serial b)) = None"
    and "\<not> port_open (ap_serial waiting_app)" and "wrote (ap_serial waiting_app) = []"
    and "ap_phase waiting_app = Starting" and "ap_delay waiting_app = serial_reconnect_min_delay outage_options"
proof -
  let ?o = outage_options
  have pos: "0 < serial_reconnect_min_delay ?o" by (rule reconnect_settings(1) [OF outage_options_facts(1)]) (simp add: outage_options_facts)
  let ?r = "reconnect busy_driver ?o \<lparr>port_open = False, port_log = []\<rparr>"
  have sr: "ap_serial waiting_app = fst ?r" 
    by (simp add: waiting_app_def init_app_def new_serial_reader_def reconnect_def disconnect_def)
  have w: "length (port_log (ap_serial waiting_app)) = 1" "\<not> port_open (ap_serial waiting_app)"
    using busy_reconnect(1) [of "\<lparr>port_open = False, port_log = []\<rparr>" ?o] port_open_reconnect [of busy_driver ?o "\<lparr>port_open = False, port_log = []\<rparr>"]
    by (auto simp: sr)
  show "\<not> port_open (ap_serial waiting_app)" by (rule w(2))
  show "wrote (ap_serial waiting_app) = []" "ap_phase waiting_app = Starting"
    and d0: "ap_delay waiting_app = serial_reconnect_min_delay ?o"
    by (simp_all add: waiting_app_def) (simp_all add: init_app_def)
  have round: "snd (reconnect busy_driver ?o (ap_serial a)) \<noteq> None \<and>
      \<not> port_open (ap_serial (failed_round sample_env busy_driver ?o t a)) \<and>
      length (port_log (ap_serial (failed_round sample_env busy_driver ?o t a))) = Suc (length (port_log (ap_serial a)))"
    if h: "\<not> port_open (ap_serial a)" "length (port_log (ap_serial a)) < 3" for a t
  proof -
    note br = busy_reconnect(1) [OF h, of ?o]
    then obtain e where e: "snd (reconnect busy_driver ?o (ap_serial a)) = Some e" by blast
    have "ap_serial (failed_round sample_env busy_driver ?o t a) = fst (reconnect busy_driver ?o (ap_serial a))"
      by (simp add: failed_round_def session_start_refused [OF h(1) e] session_wake_def)
    with br show ?thesis using port_open_reconnect [of busy_driver ?o "ap_serial a"] e by simp
  qed
  note r1 = round [OF w(2), of 1]
  show "outage sample_env busy_driver ?o [1, 2] waiting_app"
    using r1 round [of "failed_round sample_env busy_driver ?o 1 waiting_app" 2] w by simp
  show "snd (reconnect busy_driver ?o (ap_serial b)) = None"
    using r1 round [of "failed_round sample_env busy_driver ?o 1 waiting_app" 2] w
    by (intro busy_reconnect(2)) (simp_all add: b_def)
qed

lemma serial_recovers_witness:
  "\<exists>b c. b = fold (failed_round sample_env busy_driver outage_options) [1, 2] waiting_app \<and>
     c = session_start sample_env busy_driver outage_options 3 False b \<and>
     ap_delay b = seconds 12 \<and> ap_phase c = Reading new_scanner \<and> ap_delay c = seconds 5"
  using serial_recovers [OF outage_options_facts(1) _ waiting_outage(5,3,6,1) refl waiting_outage(2) refl, of 3]
  by (simp add: outage_options_facts serial_reconnect_min_delay_def serial_reconnect_max_delay_def
      seconds_exact max_seconds_def)

end
