(* ===== verification/Webhooks.thy ===== *)
theory Webhooks
  imports AppRun
begin

text \<open>
  \<open>rflink/webhooks.go\<close>: the checks on a webhook and its URL, the placeholders, the requests that a poll or
  a push makes, and the manager with its limit of pushes in flight. Parsing of URLs and IP addresses,
  the resolver and the encoding of a query are the fields of \<open>net_lib\<close>: every property holds for all of
  them. A request that is sent is a value; what the server answers is an argument.
\<close>

section \<open>Addresses\<close>

text \<open>An address of package \<open>net\<close>: IPv4, or the 128 bits of IPv6; \<open>To4\<close> also reads the mapped form.\<close>

datatype ip = IPv4 "32 word" | IPv6 "128 word"

definition to4 :: "ip \<Rightarrow> 32 word option" where
  "to4 a = (case a of IPv4 w \<Rightarrow> Some w | IPv6 w \<Rightarrow> if drop_bit 32 w = 0xFFFF then Some (ucast w) else None)"

text \<open>Byte \<open>n\<close> of an address, from the left.\<close>

definition byte4 :: "nat \<Rightarrow> 32 word \<Rightarrow> nat" where "byte4 n w = unat (drop_bit (24 - 8 * n) w) mod 256"
definition byte6 :: "nat \<Rightarrow> 128 word \<Rightarrow> nat" where "byte6 n w = unat (drop_bit (120 - 8 * n) w) mod 256"

definition ip_test :: "(32 word \<Rightarrow> bool) \<Rightarrow> (128 word \<Rightarrow> bool) \<Rightarrow> ip \<Rightarrow> bool" where
  "ip_test p4 p6 a =
     (case to4 a of Some w \<Rightarrow> p4 w | None \<Rightarrow> (case a of IPv4 w \<Rightarrow> p4 w | IPv6 w \<Rightarrow> p6 w))"

definition is_loopback :: "ip \<Rightarrow> bool" where
  "is_loopback = ip_test (\<lambda>w. byte4 0 w = 127) (\<lambda>w. w = 1)"

definition is_private :: "ip \<Rightarrow> bool" where
  "is_private = ip_test
     (\<lambda>w. byte4 0 w = 10 \<or> byte4 0 w = 172 \<and> byte4 1 w div 16 = 1 \<or> byte4 0 w = 192 \<and> byte4 1 w = 168)
     (\<lambda>w. byte6 0 w div 2 = 126)"

definition is_link_local_unicast :: "ip \<Rightarrow> bool" where
  "is_link_local_unicast = ip_test (\<lambda>w. byte4 0 w = 169 \<and> byte4 1 w = 254)
     (\<lambda>w. byte6 0 w = 0xFE \<and> byte6 1 w div 64 = 2)"

definition is_link_local_multicast :: "ip \<Rightarrow> bool" where
  "is_link_local_multicast = ip_test (\<lambda>w. byte4 0 w = 224 \<and> byte4 1 w = 0 \<and> byte4 2 w = 0)
     (\<lambda>w. byte6 0 w = 0xFF \<and> byte6 1 w mod 16 = 2)"

definition is_multicast :: "ip \<Rightarrow> bool" where
  "is_multicast = ip_test (\<lambda>w. byte4 0 w div 16 = 14) (\<lambda>w. byte6 0 w = 0xFF)"

definition is_unspecified :: "ip \<Rightarrow> bool" where
  "is_unspecified = ip_test (\<lambda>w. w = 0) (\<lambda>w. w = 0)"

definition metadata_addresses :: "32 word list" where
  "metadata_addresses = [0xA9FEA9FE, 0xA9FEAA02]"

datatype hook_error =
    EmptyURL | URLTooLong | ParseURL string | BadScheme | MissingHost | UserInfo | MissingHostname
  | HostNotAllowed string | MetadataAddress | LoopbackNotAllowed | LinkLocalNotAllowed | InvalidIP
  | PublicHTTP | HTTPHostname | LookupFailed string | NoAddresses | Resolved string ip hook_error
  | NameRequired | InvalidName string | BadKind | BadURL hook_error | BadMethod | BadTimeout | BadInterval
  | BadMaxBytes | BadPayload | TooManyHeaders | HeaderTooLong | HeaderCRLF

definition reject_dangerous_ip :: "ip \<Rightarrow> hook_error + unit" where
  "reject_dangerous_ip a =
     (if is_loopback a then Inl LoopbackNotAllowed
      else if is_link_local_unicast a \<or> is_link_local_multicast a then Inl LinkLocalNotAllowed
      else if is_multicast a \<or> is_unspecified a then Inl InvalidIP
      else if list_ex (\<lambda>m. to4 a = Some m) metadata_addresses then Inl MetadataAddress
      else Inr ())"

section \<open>URLs\<close>

record parsed_url =
  u_scheme :: string
  u_host :: string
  u_user :: bool
  u_hostname :: string

text \<open>\<open>nl_set_query u k v\<close> is the text of \<open>u\<close> after \<open>q := u.Query(); q.Set(k, v); u.RawQuery = q.Encode()\<close>;
  \<open>nl_request\<close> tells whether \<open>http.NewRequestWithContext\<close> accepts the URL.\<close>

record net_lib =
  nl_parse :: "string \<Rightarrow> string + parsed_url"
  nl_parse_ip :: "string \<Rightarrow> ip option"
  nl_lookup :: "string \<Rightarrow> string + ip list"
  nl_set_query :: "parsed_url \<Rightarrow> string \<Rightarrow> string \<Rightarrow> string"
  nl_request :: "string \<Rightarrow> string \<Rightarrow> bool"

definition max_hook_url_len :: nat where "max_hook_url_len = 2048"

definition webhook_placeholders :: "string list" where
  "webhook_placeholders =
     [''%payload%'', ''%PAYLOAD%'', ''%raw%'', ''%RAW%'', ''%json%'', ''%JSON%'', ''{payload}'', ''{{payload}}'']"

definition webhook_url_has_placeholder :: "string \<Rightarrow> bool" where
  "webhook_url_has_placeholder u = list_ex (\<lambda>ph. str_contains u ph) webhook_placeholders"

definition strip_webhook_placeholders :: "string \<Rightarrow> string" where
  "strip_webhook_placeholders u = fold (\<lambda>ph out. replace_all out ph ''x'') webhook_placeholders u"

text \<open>\<open>url.QueryEscape\<close>.\<close>

definition hex_upper :: "nat \<Rightarrow> char" where
  "hex_upper d = (if d < 10 then char_of (48 + d) else char_of (55 + d))"

definition query_plain :: "char \<Rightarrow> bool" where
  "query_plain c = (is_alnum c \<or> c \<in> set ''-_.~'')"

definition query_escape :: "string \<Rightarrow> string" where
  "query_escape s = concat (map (\<lambda>c.
     if query_plain c then [c] else if c = CHR '' '' then ''+''
     else [CHR ''%'', hex_upper (byte c div 16), hex_upper (byte c mod 16)]) s)"

definition expand_webhook_placeholders :: "string \<Rightarrow> string \<Rightarrow> string" where
  "expand_webhook_placeholders template body =
     fold (\<lambda>ph out. replace_all out ph (query_escape body)) webhook_placeholders template"

definition expand_webhook_get_url :: "unicode \<Rightarrow> net_lib \<Rightarrow> string \<Rightarrow> string \<Rightarrow> string \<Rightarrow> string + string" where
  "expand_webhook_get_url U N template payloadKind body =
     (if webhook_url_has_placeholder template then Inr (expand_webhook_placeholders template body)
      else (case nl_parse N template of
              Inl e \<Rightarrow> Inl e
            | Inr u \<Rightarrow>
                (let kind = to_lower U (trim_space payloadKind);
                     key = (if kind = ''raw'' then ''raw'' else if kind = ''sumjson'' \<or> kind = ''json'' then ''json''
                            else ''payload'')
                 in Inr (nl_set_query N u key body))))"

definition is_local_lab_host :: "string \<Rightarrow> bool" where
  "is_local_lab_host host = list_ex (\<lambda>sfx. has_suffix host sfx)
     [''.local'', ''.lan'', ''.loc'', ''.internal'', ''.home'', ''.intranet'', ''.test'']"

definition check_hook_host :: "unicode \<Rightarrow> net_lib \<Rightarrow> parsed_url \<Rightarrow> hook_error + unit" where
  "check_hook_host U N u =
     (let host = u_hostname u; lower = to_lower U host in
      if host = [] then Inl MissingHostname
      else if lower = ''localhost'' \<or> has_suffix lower ''.localhost'' \<or> lower = ''metadata.google.internal''
        then Inl (HostNotAllowed host)
      else if str_contains lower ''169.254.169.254'' then Inl MetadataAddress
      else (case nl_parse_ip N host of
              Some a \<Rightarrow>
                (case reject_dangerous_ip a of
                   Inl e \<Rightarrow> Inl e
                 | Inr _ \<Rightarrow> if u_scheme u = ''http'' \<and> \<not> is_private a \<and> \<not> is_loopback a then Inl PublicHTTP else Inr ())
            | None \<Rightarrow> if u_scheme u = ''http'' \<and> \<not> is_local_lab_host lower then Inl HTTPHostname else Inr ()))"

definition validate_webhook_url :: "unicode \<Rightarrow> net_lib \<Rightarrow> string \<Rightarrow> hook_error + unit" where
  "validate_webhook_url U N raw0 =
     (let raw = trim_space raw0 in
      if raw = [] then Inl EmptyURL
      else if max_hook_url_len < length raw then Inl URLTooLong
      else (case nl_parse N (strip_webhook_placeholders raw) of
              Inl e \<Rightarrow> Inl (ParseURL e)
            | Inr u \<Rightarrow>
                if u_scheme u \<noteq> ''http'' \<and> u_scheme u \<noteq> ''https'' then Inl BadScheme
                else if u_host u = [] then Inl MissingHost
                else if u_user u then Inl UserInfo
                else check_hook_host U N u))"

definition validate_webhook_url_resolved :: "unicode \<Rightarrow> net_lib \<Rightarrow> string \<Rightarrow> hook_error + unit" where
  "validate_webhook_url_resolved U N raw =
     (case validate_webhook_url U N raw of
        Inl e \<Rightarrow> Inl e
      | Inr _ \<Rightarrow>
          (case nl_parse N (strip_webhook_placeholders (trim_space raw)) of
             Inl e \<Rightarrow> Inl (ParseURL e)
           | Inr u \<Rightarrow>
               (let host = u_hostname u in
                if host = [] then Inl MissingHostname
                else (case nl_parse_ip N host of
                        Some a \<Rightarrow> reject_dangerous_ip a
                      | None \<Rightarrow>
                          (case nl_lookup N host of
                             Inl e \<Rightarrow> Inl (LookupFailed e)
                           | Inr ips \<Rightarrow>
                               if ips = [] then Inl NoAddresses
                               else check_all (\<lambda>a. case reject_dangerous_ip a of
                                   Inl e \<Rightarrow> Inl (Resolved host a e) | Inr _ \<Rightarrow> Inr ()) ips)))))"

section \<open>The configuration of a webhook\<close>

definition max_webhooks :: nat where "max_webhooks = 8"
definition default_hook_timeout_sec :: int where "default_hook_timeout_sec = 5"
definition default_poll_interval :: int where "default_poll_interval = 30"
definition min_poll_interval_sec :: int where "min_poll_interval_sec = 5"
definition default_poll_max_bytes :: int where "default_poll_max_bytes = 512"
definition max_poll_max_bytes :: int where "max_poll_max_bytes = 4096"
definition max_header_name_len :: nat where "max_header_name_len = 64"
definition max_header_value_len :: nat where "max_header_value_len = 512"
definition max_hook_name_len :: nat where "max_hook_name_len = 64"

definition header_ok :: "string \<times> string \<Rightarrow> hook_error + unit" where
  "header_ok e =
     (if max_header_name_len < length (fst e) \<or> max_header_value_len < length (snd e) then Inl HeaderTooLong
      else if contains_any (fst e) cr_lf \<or> contains_any (snd e) cr_lf then Inl HeaderCRLF
      else Inr ())"

definition trim_hook :: "unicode \<Rightarrow> webhook \<Rightarrow> webhook" where
  "trim_hook U h = h\<lparr>
     wh_Name := trim_space (wh_Name h), wh_URL := trim_space (wh_URL h),
     wh_Kind := to_lower U (trim_space (wh_Kind h)), wh_Method := to_upper U (trim_space (wh_Method h)),
     wh_Payload := to_lower U (trim_space (wh_Payload h))\<rparr>"

definition default_hook :: "webhook \<Rightarrow> webhook" where
  "default_hook h =
     (let h1 = (if wh_Method h = [] then h\<lparr>wh_Method := (if wh_Kind h = ''poll'' then ''GET'' else ''POST'')\<rparr> else h);
          h2 = (if wh_Kind h1 = ''poll''
                then h1\<lparr>wh_IntervalSec := (if wh_IntervalSec h1 = 0 then default_poll_interval else wh_IntervalSec h1),
                        wh_MaxResponseBytes :=
                          (if wh_MaxResponseBytes h1 = 0 then default_poll_max_bytes else wh_MaxResponseBytes h1)\<rparr>
                else h1)
      in if wh_Kind h2 = ''push'' \<and> wh_Payload h2 = [] then h2\<lparr>wh_Payload := ''sumjson''\<rparr> else h2)"

text \<open>The headers are a map, checked in the order of the rank; the other checks follow the code.\<close>

definition validate_webhook_config ::
  "unicode \<Rightarrow> net_lib \<Rightarrow> (string \<Rightarrow> nat) \<Rightarrow> webhook \<Rightarrow> hook_error + webhook" where
  "validate_webhook_config U N rank h0 =
     (let h = trim_hook U h0; h' = default_hook h in
      if wh_Name h = [] \<or> max_hook_name_len < length (wh_Name h) then Inl NameRequired
      else if \<not> re_label (wh_Name h) then Inl (InvalidName (wh_Name h))
      else if wh_Kind h \<noteq> ''poll'' \<and> wh_Kind h \<noteq> ''push'' then Inl BadKind
      else (case validate_webhook_url U N (wh_URL h) of
              Inl e \<Rightarrow> Inl (BadURL e)
            | Inr _ \<Rightarrow>
                if wh_Method h' \<noteq> ''GET'' \<and> wh_Method h' \<noteq> ''POST'' then Inl BadMethod
                else if wh_TimeoutSec h' < 0 \<or> 60 < wh_TimeoutSec h' then Inl BadTimeout
                else if wh_Kind h' = ''poll'' \<and> (wh_IntervalSec h' < min_poll_interval_sec \<or> 86400 < wh_IntervalSec h')
                  then Inl BadInterval
                else if wh_Kind h' = ''poll'' \<and> (wh_MaxResponseBytes h' < 32 \<or> max_poll_max_bytes < wh_MaxResponseBytes h')
                  then Inl BadMaxBytes
                else if wh_Kind h' = ''push'' \<and> wh_Payload h' \<noteq> ''raw'' \<and> wh_Payload h' \<noteq> ''sumjson''
                  then Inl BadPayload
                else if 16 < length (wh_Headers h') then Inl TooManyHeaders
                else bind_res (check_all header_ok (range_order rank (wh_Headers h'))) (\<lambda>_. Inr h')))"

text \<open>
  \<open>parseWebhooksJSON\<close>: the decoder is an argument, and so are the identifiers that \<open>newWebhookID\<close> makes.
\<close>

fun take_hooks ::
  "(webhook \<Rightarrow> hook_error + webhook) \<Rightarrow> (nat \<Rightarrow> string) \<Rightarrow> nat \<Rightarrow> webhook list \<Rightarrow> webhook list" where
  "take_hooks check ids n [] = []"
| "take_hooks check ids n (h # hs) =
     (case check h of
        Inl _ \<Rightarrow> take_hooks check ids n hs
      | Inr h' \<Rightarrow>
          (let h'' = (if wh_ID h' = [] then h'\<lparr>wh_ID := ids n\<rparr> else h') in
           if max_webhooks \<le> Suc n then [h''] else h'' # take_hooks check ids (Suc n) hs))"

definition parse_webhooks_json ::
  "unicode \<Rightarrow> net_lib \<Rightarrow> (string \<Rightarrow> nat) \<Rightarrow> (string \<Rightarrow> webhook list option) \<Rightarrow> (nat \<Rightarrow> string) \<Rightarrow> string \<Rightarrow> webhook list" where
  "parse_webhooks_json U N rank decode ids raw0 =
     (let raw = trim_space raw0 in
      if raw = [] then []
      else (case decode raw of
              None \<Rightarrow> []
            | Some list \<Rightarrow> take_hooks (validate_webhook_config U N rank) ids 0 list))"

section \<open>Requests\<close>

record out_request =
  rq_method :: string
  rq_url :: string
  rq_body :: "string option"
  rq_headers :: "(string \<times> string) list"

text \<open>The headers set on a request, in the order of the map; \<open>Header.Set\<close> canonicalises the names.\<close>

definition hook_headers :: "(string \<Rightarrow> nat) \<Rightarrow> webhook \<Rightarrow> (string \<times> string) list" where
  "hook_headers rank h = filter (\<lambda>e. fst e \<noteq> [] \<and> snd e \<noteq> []) (range_order rank (wh_Headers h))"

definition user_agent :: "string \<times> string" where
  "user_agent = (''User-Agent'', ''go-rflink-webhook/1.0'')"

definition poll_interval :: "webhook \<Rightarrow> int" where "poll_interval h = max (wh_IntervalSec h) min_poll_interval_sec"

definition hook_timeout :: "webhook \<Rightarrow> int" where
  "hook_timeout h = (if wh_TimeoutSec h \<le> 0 then default_hook_timeout_sec else wh_TimeoutSec h)"

definition poll_max_bytes :: "webhook \<Rightarrow> int" where
  "poll_max_bytes h =
     (let n = (if wh_MaxResponseBytes h \<le> 0 then default_poll_max_bytes else wh_MaxResponseBytes h)
      in if max_poll_max_bytes < n then max_poll_max_bytes else n)"

definition poll_method :: "unicode \<Rightarrow> webhook \<Rightarrow> string" where
  "poll_method U h = (let m = to_upper U (wh_Method h) in if m = [] then ''GET'' else m)"

definition poll_request :: "unicode \<Rightarrow> net_lib \<Rightarrow> (string \<Rightarrow> nat) \<Rightarrow> webhook \<Rightarrow> out_request option" where
  "poll_request U N rank h =
     (if \<not> is_ok (validate_webhook_url U N (wh_URL h)) then None
      else if \<not> is_ok (validate_webhook_url_resolved U N (wh_URL h)) then None
      else if \<not> nl_request N (poll_method U h) (wh_URL h) then None
      else Some \<lparr>rq_method = poll_method U h, rq_url = wh_URL h,
             rq_body = (if poll_method U h = ''POST'' then Some [] else None),
             rq_headers = [user_agent, (''Accept'', ''text/plain, application/json;q=0.9, */*;q=0.1'')] @ hook_headers rank h\<rparr>)"

text \<open>A redirect is followed if this says so; \<open>n\<close> requests have been made already.\<close>

definition check_redirect :: "unicode \<Rightarrow> net_lib \<Rightarrow> string \<Rightarrow> nat \<Rightarrow> bool" where
  "check_redirect U N url n =
     (n < 3 \<and> is_ok (validate_webhook_url U N url) \<and> is_ok (validate_webhook_url_resolved U N url))"

text \<open>A response: its status and its whole body, or that reading the body fails.\<close>

record http_response =
  rs_status :: int
  rs_body :: "string option"

definition poll_command :: "int \<Rightarrow> http_response \<Rightarrow> string option" where
  "poll_command max_bytes rs =
     (case rs_body rs of
        None \<Rightarrow> None
      | Some full \<Rightarrow>
          (let data = take (Suc (nat max_bytes)) full; text = trim_space data;
               line = (if contains_any text cr_lf then trim_space (takeWhile (\<lambda>c. c \<notin> set cr_lf) text) else text)
           in if max_bytes < int (length data) then None
              else if rs_status rs < 200 \<or> 300 \<le> rs_status rs then None
              else if text = [] \<or> line = [] then None
              else Some line))"

definition do_poll_once ::
  "env \<Rightarrow> driver \<Rightarrow> quoting \<Rightarrow> options \<Rightarrow> net_lib \<Rightarrow> (string \<Rightarrow> nat) \<Rightarrow> (out_request \<Rightarrow> http_response option) \<Rightarrow>
   instant \<Rightarrow> webhook \<Rightarrow> app \<Rightarrow> app" where
  "do_poll_once E D Q o' N rank server now h a =
     (case poll_request (e_tab E) N rank h of
        None \<Rightarrow> a
      | Some rq \<Rightarrow>
          (case server rq of
             None \<Rightarrow> a
           | Some rs \<Rightarrow>
               (case poll_command (poll_max_bytes h) rs of
                  None \<Rightarrow> a
                | Some text \<Rightarrow> fst (execute_command E D Q o' now text a))))"

definition max_get_url_len :: nat where "max_get_url_len = 7800"

definition push_method :: "unicode \<Rightarrow> webhook \<Rightarrow> string" where
  "push_method U h = (let m = to_upper U (wh_Method h) in if m = ''GET'' then ''GET'' else ''POST'')"

text \<open>The URL of a push, after its placeholders have been filled in and it has been checked.\<close>

definition push_url :: "unicode \<Rightarrow> net_lib \<Rightarrow> string \<Rightarrow> webhook \<Rightarrow> string option" where
  "push_url U N body h =
     (if push_method U h = ''GET'' then
        (case expand_webhook_get_url U N (wh_URL h) (wh_Payload h) body of
           Inl _ \<Rightarrow> None
         | Inr expanded \<Rightarrow>
             if max_get_url_len < length expanded then None
             else if is_ok (validate_webhook_url U N (strip_webhook_placeholders expanded)) then Some expanded
             else None)
      else if webhook_url_has_placeholder (wh_URL h) then Some (expand_webhook_placeholders (wh_URL h) body)
      else Some (wh_URL h))"

definition push_request ::
  "unicode \<Rightarrow> net_lib \<Rightarrow> (string \<Rightarrow> nat) \<Rightarrow> string \<Rightarrow> string \<Rightarrow> webhook \<Rightarrow> out_request option" where
  "push_request U N rank body content_type h =
     (if \<not> is_ok (validate_webhook_url U N (wh_URL h)) then None
      else (case push_url U N body h of
              None \<Rightarrow> None
            | Some u \<Rightarrow>
                if \<not> is_ok (validate_webhook_url_resolved U N u) then None
                else if \<not> nl_request N (push_method U h) u then None
                else Some \<lparr>rq_method = push_method U h, rq_url = u,
                       rq_body = (if push_method U h = ''GET'' then None else Some body),
                       rq_headers = user_agent # (if push_method U h = ''GET'' then [] else [(''Content-Type'', content_type)])
                         @ hook_headers rank h\<rparr>))"

section \<open>The manager\<close>

text \<open>\<open>hm_pushes\<close> are the pushes in flight, each with its body; \<open>hm_polls\<close> the hooks that are polled.\<close>

record webhook_manager =
  hm_hooks :: "webhook list"
  hm_polls :: "webhook list"
  hm_pushes :: "(webhook \<times> string) list"

definition new_webhook_manager :: webhook_manager where
  "new_webhook_manager = \<lparr>hm_hooks = [], hm_polls = [], hm_pushes = []\<rparr>"

definition max_concurrent_push :: nat where "max_concurrent_push = 8"

definition hooks_stop :: "webhook_manager \<Rightarrow> webhook_manager" where
  "hooks_stop m = m\<lparr>hm_polls := []\<rparr>"

definition hooks_reload :: "unicode \<Rightarrow> options \<Rightarrow> webhook_manager \<Rightarrow> webhook_manager" where
  "hooks_reload U o' m = (hooks_stop m)\<lparr>hm_hooks := webhooks o',
     hm_polls := filter (\<lambda>h. wh_Enabled h \<and> to_lower U (wh_Kind h) = ''poll'') (webhooks o')\<rparr>"

definition hooks_snapshot :: "webhook_manager \<Rightarrow> webhook list" where
  "hooks_snapshot m = hm_hooks m"

definition enqueue_push :: "string \<Rightarrow> webhook \<Rightarrow> webhook_manager \<Rightarrow> webhook_manager" where
  "enqueue_push body h m =
     (if length (hm_pushes m) < max_concurrent_push then m\<lparr>hm_pushes := hm_pushes m @ [(h, body)]\<rparr> else m)"

text \<open>A push has returned.\<close>

definition push_done :: "nat \<Rightarrow> webhook_manager \<Rightarrow> webhook_manager" where
  "push_done i m = m\<lparr>hm_pushes := take i (hm_pushes m) @ drop (Suc i) (hm_pushes m)\<rparr>"

definition wants_payload :: "unicode \<Rightarrow> string \<Rightarrow> webhook \<Rightarrow> bool" where
  "wants_payload U kind h = (wh_Enabled h \<and> to_lower U (wh_Kind h) = ''push'' \<and> to_lower U (wh_Payload h) = kind)"

text \<open>The body is what the encoder gives, or nothing when it fails.\<close>

definition json_text :: "env \<Rightarrow> payload \<Rightarrow> string" where
  "json_text E pl = (case e_marshal E pl of Some s \<Rightarrow> s | None \<Rightarrow> [])"

definition notify_raw :: "env \<Rightarrow> raw_entry \<Rightarrow> webhook_manager \<Rightarrow> webhook_manager" where
  "notify_raw E e m =
     (let body = json_text E (PObject [(''type'', JStr ''raw''), (''at'', JStr (raw_At e)), (''message'', JStr (raw_Message e))])
      in fold (enqueue_push body) (filter (wants_payload (e_tab E) ''raw'') (hm_hooks m)) m)"

text \<open>\<open>wrap\<close> is the encoding of the envelope around the JSON text of the sensor.\<close>

definition notify_sum_json ::
  "env \<Rightarrow> (string \<Rightarrow> string \<Rightarrow> string \<Rightarrow> string) \<Rightarrow> instant \<Rightarrow> string \<Rightarrow> string \<Rightarrow> webhook_manager \<Rightarrow> webhook_manager" where
  "notify_sum_json E wrap now hwid sumJSON m =
     fold (enqueue_push (wrap hwid (e_rfc3339nano E now) sumJSON))
       (filter (wants_payload (e_tab E) ''sumjson'') (hm_hooks m)) m"

section \<open>Views\<close>

text \<open>What the API shows of a webhook: the names of its headers, never their values.\<close>

datatype view_value = VText string | VFlag bool | VInt int | VTexts "string list"

definition webhook_public_view :: "webhook \<Rightarrow> (string \<times> view_value) list" where
  "webhook_public_view h =
     [(''id'', VText (wh_ID h)), (''name'', VText (wh_Name h)), (''enabled'', VFlag (wh_Enabled h)),
      (''kind'', VText (wh_Kind h)), (''url'', VText (wh_URL h)), (''method'', VText (wh_Method h)),
      (''interval_sec'', VInt (wh_IntervalSec h)), (''timeout_sec'', VInt (wh_TimeoutSec h)),
      (''max_response_bytes'', VInt (wh_MaxResponseBytes h)), (''payload'', VText (wh_Payload h)),
      (''header_names'', VTexts (map fst (wh_Headers h))), (''created_at'', VText (wh_CreatedAt h))]"

section \<open>Which addresses are refused\<close>

text \<open>The networks, as base address and prefix length.\<close>

definition in_net :: "nat \<Rightarrow> nat \<Rightarrow> nat \<times> nat \<Rightarrow> bool" where
  "in_net bits n net = (n div 2 ^ (bits - snd net) = fst net div 2 ^ (bits - snd net))"

definition refused4 :: "(nat \<times> nat) list" where
  "refused4 = [(0x7F000000, 8), (0xA9FE0000, 16), (0xE0000000, 4), (0, 32)]"

definition refused6 :: "(nat \<times> nat) list" where
  "refused6 = [(1, 128), (0xFE80 * 2 ^ 112, 10), (0xFF * 2 ^ 120, 8), (0, 128)]"

definition refused :: "ip \<Rightarrow> bool" where
  "refused = ip_test (\<lambda>w. list_ex (in_net 32 (unat w)) refused4) (\<lambda>w. list_ex (in_net 128 (unat w)) refused6)"

lemma byte4_div: "n \<le> 3 \<Longrightarrow> byte4 n w = unat w div 2 ^ (24 - 8 * n) mod 256"
  unfolding byte4_def unat_drop_bit_eq by (simp add: drop_bit_eq_div)

lemma byte6_div: "n \<le> 15 \<Longrightarrow> byte6 n w = unat w div 2 ^ (120 - 8 * n) mod 256"
  unfolding byte6_def unat_drop_bit_eq by (simp add: drop_bit_eq_div)

text \<open>The two leading bytes \<open>m\<close> decide about the longer prefixes.\<close>

lemma pair_of_digits: "(m :: nat) = x * d + y \<longleftrightarrow> m div d = x \<and> m mod d = y" if "y < d"
  using that div_mult_mod_eq [of m d] by auto

lemma leading_bytes:
  fixes m :: nat
  assumes "m < 65536"
  shows "m = 0xA9FE \<longleftrightarrow> m div 256 mod 256 = 169 \<and> m mod 256 = 254"
    and "m div 4096 = 14 \<longleftrightarrow> m div 256 mod 256 div 16 = 14"
    and "m div 64 = 1018 \<longleftrightarrow> m div 256 mod 256 = 254 \<and> m mod 256 div 64 = 2"
    and "m div 256 mod 256 = m div 256"
proof -
  have "m div 256 < 256" using assms by (simp add: less_mult_imp_div_less)
  then show a: "m div 256 mod 256 = m div 256" by simp
  show "m = 0xA9FE \<longleftrightarrow> m div 256 mod 256 = 169 \<and> m mod 256 = 254"
    unfolding a using pair_of_digits [of 254 256 m 169] by simp
  show "m div 4096 = 14 \<longleftrightarrow> m div 256 mod 256 div 16 = 14"
    unfolding a by (simp flip: div_mult2_eq)
  have "m mod 256 div 64 = m div 64 mod 4"
    using mod_mult2_eq [of m 64 4] by simp
  then show "m div 64 = 1018 \<longleftrightarrow> m div 256 mod 256 = 254 \<and> m mod 256 div 64 = 2"
    unfolding a using pair_of_digits [of 2 4 "m div 64" 254] by (simp flip: div_mult2_eq)
qed

lemma refused4_iff:
  "list_ex (in_net 32 (unat w)) refused4 \<longleftrightarrow>
    byte4 0 w = 127 \<or> (byte4 0 w = 169 \<and> byte4 1 w = 254) \<or> byte4 0 w div 16 = 14 \<or> w = (0 :: 32 word)"
proof -
  have lt: "unat w < 2 ^ LENGTH(32)" by (rule unsigned_less)
  define m where "m = unat w div 65536"
  have m: "m < 65536" using lt by (simp add: m_def less_mult_imp_div_less)
  have d: "unat w div 16777216 = m div 256" "unat w div 268435456 = m div 4096"
    by (simp_all add: m_def flip: div_mult2_eq)
  have z: "w = 0 \<longleftrightarrow> unat w = 0" by (simp add: unat_eq_0)
  show ?thesis
    using leading_bytes [OF m]
    by (simp add: refused4_def in_net_def byte4_div d z flip: m_def)
qed

lemma refused6_iff:
  "list_ex (in_net 128 (unat w)) refused6 \<longleftrightarrow>
    w = (1 :: 128 word) \<or> (byte6 0 w = 0xFE \<and> byte6 1 w div 64 = 2) \<or> byte6 0 w = 0xFF \<or> w = 0"
proof -
  have lt: "unat w < 2 ^ LENGTH(128)" by (rule unsigned_less)
  define m where "m = unat w div 2 ^ 112"
  have m: "m < 65536" using lt by (simp add: m_def less_mult_imp_div_less)
  have d: "unat w div 2 ^ 120 = m div 256" "unat w div 2 ^ 118 = m div 64"
    by (simp_all add: m_def flip: div_mult2_eq)
  have z: "w = 0 \<longleftrightarrow> unat w = 0" "w = 1 \<longleftrightarrow> unat w = 1"
    by (simp_all add: word_unat_eq_iff)
  have r: "list_ex (in_net 128 n) refused6 \<longleftrightarrow>
      n = 1 \<or> n div 2 ^ 118 = 1018 \<or> n div 2 ^ 120 = 255 \<or> n = 0" for n
    by (simp add: refused6_def in_net_def)
  have b: "byte6 0 w = m div 256 mod 256" "byte6 1 w = m mod 256"
    using byte6_div [of 0 w] byte6_div [of 1 w] d(1) by (simp_all add: m_def)
  show ?thesis
    unfolding r b d z using leading_bytes [OF m] by auto
qed

lemma ip_test_or: "ip_test p q a \<or> ip_test p' q' a \<longleftrightarrow> ip_test (\<lambda>w. p w \<or> p' w) (\<lambda>w. q w \<or> q' w) a"
  by (auto simp: ip_test_def split: option.splits ip.splits)

lemma ip_test_cong: "(\<And>w. p w = p' w) \<Longrightarrow> (\<And>w. q w = q' w) \<Longrightarrow> ip_test p q a = ip_test p' q' a"
  by (simp add: ip_test_def split: option.splits ip.splits)

lemma metadata_refused: "to4 a = Some m \<Longrightarrow> m \<in> set metadata_addresses \<Longrightarrow> is_link_local_unicast a"
  by (auto simp: metadata_addresses_def is_link_local_unicast_def ip_test_def byte4_div)

lemma reject_dangerous_iff: "reject_dangerous_ip a = Inr () \<longleftrightarrow> \<not> refused a"
proof -
  have "reject_dangerous_ip a = Inr () \<longleftrightarrow>
      \<not> (is_loopback a \<or> (is_link_local_unicast a \<or> is_link_local_multicast a) \<or> (is_multicast a \<or> is_unspecified a))"
    using metadata_refused [of a] by (auto simp: reject_dangerous_ip_def list_ex_iff)
  also have "(is_loopback a \<or> (is_link_local_unicast a \<or> is_link_local_multicast a) \<or> (is_multicast a \<or> is_unspecified a))
      = refused a"
    unfolding is_loopback_def is_link_local_unicast_def is_link_local_multicast_def is_multicast_def
      is_unspecified_def ip_test_or refused_def
  proof (rule ip_test_cong)
    show "(byte4 0 w = 127 \<or> (byte4 0 w = 169 \<and> byte4 1 w = 254 \<or> byte4 0 w = 224 \<and> byte4 1 w = 0 \<and> byte4 2 w = 0) \<or>
        byte4 0 w div 16 = 14 \<or> w = 0) = list_ex (in_net 32 (unat w)) refused4" for w
      unfolding refused4_iff by auto
    show "(w = 1 \<or> (byte6 0 w = 0xFE \<and> byte6 1 w div 64 = 2 \<or> byte6 0 w = 0xFF \<and> byte6 1 w mod 16 = 2) \<or>
        byte6 0 w = 0xFF \<or> w = 0) = list_ex (in_net 128 (unat w)) refused6" for w
      unfolding refused6_iff by auto
  qed
  finally show ?thesis .
qed

lemma no_error_iff: "(\<forall>e. reject_dangerous_ip a \<noteq> Inl e) \<longleftrightarrow> \<not> refused a"
  by (cases "reject_dangerous_ip a") (auto simp flip: reject_dangerous_iff)

section \<open>Where requests go\<close>

text \<open>A URL whose host, or every address it resolves to, is outside the refused networks; plain HTTP only to
  private addresses and names of the local network.\<close>

definition target_ok :: "unicode \<Rightarrow> net_lib \<Rightarrow> string \<Rightarrow> bool" where
  "target_ok U N raw =
     (case nl_parse N (strip_webhook_placeholders (trim_space raw)) of
        Inl _ \<Rightarrow> False
      | Inr u \<Rightarrow> (u_scheme u = ''http'' \<or> u_scheme u = ''https'') \<and> \<not> u_user u \<and>
          (case nl_parse_ip N (u_hostname u) of
             Some a \<Rightarrow> \<not> refused a \<and> (u_scheme u = ''https'' \<or> is_private a)
           | None \<Rightarrow> (u_scheme u = ''https'' \<or> is_local_lab_host (to_lower U (u_hostname u))) \<and>
               (case nl_lookup N (u_hostname u) of
                  Inl _ \<Rightarrow> False | Inr ips \<Rightarrow> ips \<noteq> [] \<and> list_all (\<lambda>a. \<not> refused a) ips)))"

lemma is_ok_unit: "is_ok (r :: 'e + unit) \<longleftrightarrow> r = Inr ()"
  by (cases r) auto

lemma loopback_refused: "is_loopback a \<Longrightarrow> refused a"
  using reject_dangerous_iff [of a] by (auto simp: reject_dangerous_ip_def)

lemma host_checked:
  assumes "check_hook_host U N u = Inr ()" and "u_scheme u = ''http'' \<or> u_scheme u = ''https''"
  shows "case nl_parse_ip N (u_hostname u) of
      Some a \<Rightarrow> \<not> refused a \<and> (u_scheme u = ''https'' \<or> is_private a)
    | None \<Rightarrow> u_scheme u = ''https'' \<or> is_local_lab_host (to_lower U (u_hostname u))"
  using assms reject_dangerous_iff loopback_refused
  by (auto simp: check_hook_host_def Let_def split: if_splits option.splits sum.splits)

lemma resolved_target:
  assumes "is_ok (validate_webhook_url_resolved U N raw)"
  shows "target_ok U N raw"
proof -
  have v: "validate_webhook_url U N raw = Inr ()"
    using assms by (auto simp: validate_webhook_url_resolved_def split: sum.splits)
  then obtain u where u: "nl_parse N (strip_webhook_placeholders (trim_space raw)) = Inr u"
    and s: "u_scheme u = ''http'' \<or> u_scheme u = ''https''" and n: "\<not> u_user u"
    and h: "check_hook_host U N u = Inr ()"
    by (auto simp: validate_webhook_url_def Let_def split: if_splits sum.splits)
  note host = host_checked [OF h s]
  show ?thesis
  proof (cases "nl_parse_ip N (u_hostname u)")
    case (Some a)
    then show ?thesis using host u s n by (simp add: target_ok_def)
  next
    case None
    have "case nl_lookup N (u_hostname u) of
        Inl _ \<Rightarrow> False | Inr ips \<Rightarrow> ips \<noteq> [] \<and> list_all (\<lambda>a. \<not> refused a) ips"
      using assms v u None
      by (auto simp: validate_webhook_url_resolved_def Let_def check_all_ok is_ok_unit list_all_iff no_error_iff
          split: if_splits sum.splits)
    then show ?thesis using host u s n None by (auto simp: target_ok_def split: sum.splits)
  qed
qed

text \<open>C38: No webhook can be turned against the host itself: every request that a poll or a push makes, and every
  redirect that is followed, goes to a URL whose host or whose resolved addresses are all outside the
  loopback, link-local (with the cloud metadata addresses), multicast and unspecified networks, without
  credentials in the URL, and over plain HTTP only within the local network. This is so for the URL after
  its placeholders have been filled in.\<close>
theorem hook_requests_guarded:
  shows "(poll_request U N rank h = Some rq \<longrightarrow> target_ok U N (rq_url rq) \<and> rq_url rq = wh_URL h) \<and>
    (push_request U N rank body ct h = Some rq \<longrightarrow> target_ok U N (rq_url rq) \<and> rq_method rq \<in> {''GET'', ''POST''}) \<and>
    (check_redirect U N url n \<longrightarrow> target_ok U N url \<and> n < 3)"
proof (intro conjI impI)
  assume "poll_request U N rank h = Some rq"
  then show "target_ok U N (rq_url rq)" "rq_url rq = wh_URL h"
    using resolved_target [of U N "wh_URL h"] by (auto simp: poll_request_def split: if_splits)
next
  assume p: "push_request U N rank body ct h = Some rq"
  then obtain u where "is_ok (validate_webhook_url_resolved U N u)" "rq_url rq = u" "rq_method rq = push_method U h"
    by (auto simp: push_request_def split: if_splits option.splits)
  then show "target_ok U N (rq_url rq)" "rq_method rq \<in> {''GET'', ''POST''}"
    using resolved_target [of U N u] by (auto simp: push_method_def Let_def)
qed (auto simp: check_redirect_def intro: resolved_target)

definition sample_url :: parsed_url where
  "sample_url = \<lparr>u_scheme = ''https'', u_host = ''hooks.lan'', u_user = False, u_hostname = ''hooks.lan''\<rparr>"

definition sample_net :: net_lib where
  "sample_net = \<lparr>nl_parse = (\<lambda>_. Inr sample_url), nl_parse_ip = (\<lambda>_. None), nl_lookup = (\<lambda>_. Inr [IPv4 0xC0A80105]),
     nl_set_query = (\<lambda>_ _ _. ''https://hooks.lan/x''), nl_request = (\<lambda>_ _. True)\<rparr>"

definition sample_hook :: webhook where
  "sample_hook = \<lparr>wh_ID = ''1'', wh_Name = ''Gate'', wh_Enabled = True, wh_Kind = ''poll'', wh_URL = ''https://hooks.lan/x'',
     wh_Method = ''GET'', wh_IntervalSec = 30, wh_TimeoutSec = 5, wh_MaxResponseBytes = 512, wh_Payload = [],
     wh_Headers = [], wh_CreatedAt = []\<rparr>"

lemma hook_requests_guarded_witness:
  "\<exists>rq. poll_request ascii_tables sample_net (\<lambda>_. 0) sample_hook = Some rq \<and>
     target_ok ascii_tables sample_net (rq_url rq) \<and> rq_url rq = ''https://hooks.lan/x''"
proof -
  have "poll_request ascii_tables sample_net (\<lambda>_. 0) sample_hook \<noteq> None" by code_simp
  then obtain rq where rq: "poll_request ascii_tables sample_net (\<lambda>_. 0) sample_hook = Some rq" by blast
  have "target_ok ascii_tables sample_net (rq_url rq) \<and> rq_url rq = wh_URL sample_hook"
    using hook_requests_guarded [of ascii_tables sample_net "\<lambda>_. 0" sample_hook rq] rq by blast
  then show ?thesis using rq by (auto simp: sample_hook_def)
qed

section \<open>What a polled server can do\<close>

text \<open>Whatever a polled server answers, one poll writes at most one payload to the serial port, and that is
  one frame of the command grammar with one CR LF, on the whitelist and within the length limit. It is
  written only for an answer with a status between 200 and 299 whose body fits the limit of the hook.\<close>
lemma poll_writes_one_frame:
  "\<exists>new. wrote (ap_serial (do_poll_once E D Q o' N rank server now h a)) = wrote (ap_serial a) @ new \<and>
    (new = [] \<or>
      (\<exists>c rq rs body. new = [c @ cr_lf] \<and> rflink_frame c \<and> command_allowed o' c \<and>
        int (length c) \<le> max_command_len o' \<and> poll_request (e_tab E) N rank h = Some rq \<and> server rq = Some rs \<and>
        200 \<le> rs_status rs \<and> rs_status rs < 300 \<and> rs_body rs = Some body \<and>
        int (length body) \<le> poll_max_bytes h))"
proof (cases "do_poll_once E D Q o' N rank server now h a = a")
  case True
  then show ?thesis by simp
next
  case False
  then obtain rq rs cmd where s: "poll_request (e_tab E) N rank h = Some rq" "server rq = Some rs"
    "poll_command (poll_max_bytes h) rs = Some cmd"
    by (auto simp: do_poll_once_def split: option.splits)
  then have e: "do_poll_once E D Q o' N rank server now h a = fst (execute_command E D Q o' now cmd a)"
    by (simp add: do_poll_once_def)
  obtain body where b: "rs_body rs = Some body" "200 \<le> rs_status rs" "rs_status rs < 300"
    "int (length (take (Suc (nat (poll_max_bytes h))) body)) \<le> poll_max_bytes h"
    using s(3) by (auto simp: poll_command_def Let_def split: option.splits if_splits)
  then have "int (length body) \<le> poll_max_bytes h" by (simp split: if_splits)
  moreover have "rflink_frame c \<and> command_allowed o' c \<and> int (length c) \<le> max_command_len o'"
    if "granted o' now cmd a = Some c" for c
    using granted_frame [OF that] .
  ultimately show ?thesis
    using s b by (auto simp: e execute_wrote split: option.splits)
qed

section \<open>Hooks that were accepted\<close>

definition hook_wf :: "webhook \<Rightarrow> bool" where
  "hook_wf h \<longleftrightarrow> wh_Name h \<noteq> [] \<and> length (wh_Name h) \<le> max_hook_name_len \<and> re_label (wh_Name h) \<and>
     (wh_Kind h = ''poll'' \<or> wh_Kind h = ''push'') \<and> (wh_Method h = ''GET'' \<or> wh_Method h = ''POST'') \<and>
     0 \<le> wh_TimeoutSec h \<and> wh_TimeoutSec h \<le> 60 \<and>
     (wh_Kind h = ''poll'' \<longrightarrow> min_poll_interval_sec \<le> wh_IntervalSec h \<and> wh_IntervalSec h \<le> 86400 \<and>
        32 \<le> wh_MaxResponseBytes h \<and> wh_MaxResponseBytes h \<le> max_poll_max_bytes) \<and>
     (wh_Kind h = ''push'' \<longrightarrow> wh_Payload h = ''raw'' \<or> wh_Payload h = ''sumjson'') \<and>
     length (wh_Headers h) \<le> 16 \<and> (\<forall>e \<in> set (wh_Headers h). header_ok e = Inr ())"

lemma default_hook_simps [simp]:
  "wh_Name (default_hook h) = wh_Name h" "wh_Kind (default_hook h) = wh_Kind h" "wh_ID (default_hook h) = wh_ID h"
  "wh_TimeoutSec (default_hook h) = wh_TimeoutSec h" "wh_Headers (default_hook h) = wh_Headers h"
  "wh_URL (default_hook h) = wh_URL h"
  by (simp_all add: default_hook_def Let_def)

lemma validated_hook_wf:
  assumes "validate_webhook_config U N rank h = Inr h'"
  shows "hook_wf h' \<and> validate_webhook_url U N (wh_URL h') = Inr ()"
  using assms
  by (auto simp: validate_webhook_config_def Let_def hook_wf_def bind_res_Inr_iff check_all_ok not_less
      split: if_splits sum.splits)

lemma take_hooks_ok:
  assumes "\<And>h h'. check h = Inr h' \<Longrightarrow> P h'" and "\<And>h i. P h \<Longrightarrow> P (h\<lparr>wh_ID := i\<rparr>)"
    and "\<And>n. ids n \<noteq> []" and "n < max_webhooks"
  shows "n + length (take_hooks check ids n hs) \<le> max_webhooks \<and>
    (\<forall>h \<in> set (take_hooks check ids n hs). P h \<and> wh_ID h \<noteq> [])"
  using assms(4)
proof (induction hs arbitrary: n)
  case (Cons h hs)
  show ?case
  proof (cases "check h")
    case (Inl e)
    then show ?thesis using Cons by simp
  next
    case (Inr h')
    have "P (if wh_ID h' = [] then h'\<lparr>wh_ID := ids n\<rparr> else h')" using assms(1,2) Inr by simp
    moreover have "wh_ID (if wh_ID h' = [] then h'\<lparr>wh_ID := ids n\<rparr> else h') \<noteq> []" using assms(3) by simp
    ultimately show ?thesis
      using Inr Cons.prems Cons.IH [of "Suc n"] by (cases "max_webhooks \<le> Suc n") (auto simp: Let_def)
  qed
qed simp

text \<open>C39: Every webhook that the validation lets through, from the API or from \<open>WEBHOOKS_JSON\<close>, is well formed: a
  known kind and method, limits in range, short headers without line breaks, a URL that passes its check;
  from \<open>WEBHOOKS_JSON\<close> at most eight are taken, each with an identifier.\<close>
theorem accepted_hooks_wf:
  assumes "\<And>n. ids n \<noteq> []"
  shows "(validate_webhook_config U N rank h = Inr h' \<longrightarrow>
      hook_wf h' \<and> validate_webhook_url U N (wh_URL h') = Inr ()) \<and>
    length (parse_webhooks_json U N rank decode ids raw) \<le> max_webhooks \<and>
    (\<forall>h \<in> set (parse_webhooks_json U N rank decode ids raw).
      hook_wf h \<and> validate_webhook_url U N (wh_URL h) = Inr () \<and> wh_ID h \<noteq> [])"
proof -
  have "0 + length (take_hooks (validate_webhook_config U N rank) ids 0 hs) \<le> max_webhooks \<and>
    (\<forall>h \<in> set (take_hooks (validate_webhook_config U N rank) ids 0 hs).
      (hook_wf h \<and> validate_webhook_url U N (wh_URL h) = Inr ()) \<and> wh_ID h \<noteq> [])" for hs
    by (rule take_hooks_ok) (use assms in \<open>auto dest: validated_hook_wf simp: hook_wf_def max_webhooks_def\<close>)
  then have "length (parse_webhooks_json U N rank decode ids raw) \<le> max_webhooks \<and>
    (\<forall>h \<in> set (parse_webhooks_json U N rank decode ids raw).
      hook_wf h \<and> validate_webhook_url U N (wh_URL h) = Inr () \<and> wh_ID h \<noteq> [])"
    by (auto simp: parse_webhooks_json_def Let_def split: option.splits)
  then show ?thesis using validated_hook_wf by blast
qed

lemma accepted_hooks_wf_witness:
  "hook_wf sample_hook \<and>
   length (parse_webhooks_json ascii_tables sample_net (\<lambda>_. 0) (\<lambda>_. Some [sample_hook]) (\<lambda>_. ''id'') ''[..]'') \<le> 8"
proof -
  have "validate_webhook_config ascii_tables sample_net (\<lambda>_. 0) sample_hook = Inr sample_hook" by code_simp
  then show ?thesis
    using accepted_hooks_wf [of "\<lambda>_. ''id''" ascii_tables sample_net "\<lambda>_. 0" sample_hook sample_hook
        "\<lambda>_. Some [sample_hook]" "''[..]''"]
    by (simp add: max_webhooks_def)
qed

section \<open>Pushes\<close>

definition pushes_ok :: "webhook_manager \<Rightarrow> bool" where
  "pushes_ok m \<longleftrightarrow> length (hm_pushes m) \<le> max_concurrent_push"

lemma enqueue_ok: "pushes_ok m \<Longrightarrow> pushes_ok (enqueue_push body h m)"
  by (simp add: pushes_ok_def enqueue_push_def)

lemma enqueue_all_ok: "pushes_ok m \<Longrightarrow> pushes_ok (fold (enqueue_push body) hs m)"
  by (rule fold_invariant) (auto intro: enqueue_ok)

lemma enqueue_all_pushes:
  "\<exists>new. hm_pushes (fold (enqueue_push body) hs m) = hm_pushes m @ map (\<lambda>h. (h, body)) new \<and> prefix new hs"
proof (induction hs arbitrary: m)
  case (Cons h hs)
  show ?case
  proof (cases "length (hm_pushes m) < max_concurrent_push")
    case True
    obtain new where "hm_pushes (fold (enqueue_push body) hs (enqueue_push body h m)) =
        hm_pushes (enqueue_push body h m) @ map (\<lambda>h. (h, body)) new" "prefix new hs"
      using Cons.IH [of "enqueue_push body h m"] by blast
    moreover have "enqueue_push body h m = m\<lparr>hm_pushes := hm_pushes m @ [(h, body)]\<rparr>"
      using True by (simp add: enqueue_push_def)
    ultimately show ?thesis by (intro exI [of _ "h # new"]) simp
  next
    case False
    have "fold (enqueue_push body) xs m = m" for xs
      using False by (induction xs) (simp_all add: enqueue_push_def)
    from this [of "h # hs"] show ?thesis by (intro exI [of _ "[]"]) simp
  qed
qed simp

lemma pushes_bounded:
  assumes "pushes_ok m"
  shows "pushes_ok (notify_raw E e m)" "pushes_ok (notify_sum_json E wrap now hwid js m)" "pushes_ok (push_done i m)"
    "pushes_ok (hooks_reload U o' m)" "pushes_ok new_webhook_manager"
  using assms
  by (simp_all add: notify_raw_def notify_sum_json_def Let_def enqueue_all_ok)
    (auto simp: pushes_ok_def push_done_def hooks_reload_def hooks_stop_def new_webhook_manager_def)

text \<open>A serial line starts a push for a prefix of the enabled hooks that want raw lines, in their order: those
  for which one of the eight places for concurrent pushes is free. The rest is dropped.\<close>
lemma raw_pushes:
  assumes "pushes_ok m"
  shows "\<exists>new body. hm_pushes (notify_raw E e m) = hm_pushes m @ map (\<lambda>h. (h, body)) new \<and>
    prefix new (filter (wants_payload (e_tab E) ''raw'') (hm_hooks m)) \<and>
    length (hm_pushes (notify_raw E e m)) \<le> max_concurrent_push"
proof -
  have "length (hm_pushes (notify_raw E e m)) \<le> max_concurrent_push"
    using pushes_bounded(1) [OF assms] by (simp add: pushes_ok_def)
  then show ?thesis
    using enqueue_all_pushes unfolding notify_raw_def Let_def by blast
qed

lemma double_braces:
  "expand_webhook_placeholders ''https://h.lan/?q={{payload}}'' ''20;'' = ''https://h.lan/?q={20%3B}''"
  by code_simp

end
