(* ===== verification/RuntimeConfig.thy ===== *)
theory RuntimeConfig
  imports GoTime Session Webhooks
begin

text \<open>
  \<open>rflink/runtime_config.go\<close>: API tokens, and the overlay file that overrides settings of the
  environment, with its backups and its reload. The options are part of the state here, since the
  manager changes them in place. The JSON codec, SHA-256, the parser and printer of time stamps and
  the file system's failures are arguments.
\<close>

section \<open>Library\<close>

record runtime_token =
  rt_Name :: string
  rt_TokenHash :: string
  rt_TokenSuffix :: string
  rt_ExpiresAt :: "string option"
  rt_CreatedAt :: string
  rt_Scopes :: "string list"

text \<open>A \<open>nil\<close> pointer or slice is \<open>None\<close>: an empty list of tokens is a value of its own.\<close>

record runtime_file =
  rf_Version :: int
  rf_UpdatedAt :: string
  rf_FriendlyNames :: "string option"
  rf_IgnoreList :: "string option"
  rf_HWIDMap :: "string option"
  rf_APITokens :: "runtime_token list option"
  rf_HADiscovery :: "bool option"
  rf_HADiscoveryPrefix :: "string option"
  rf_HAButtons :: "string option"
  rf_HASwitches :: "string option"
  rf_Webhooks :: "webhook list option"

record rt_lib =
  rl_tab :: unicode
  rl_net :: net_lib
  rl_sha256 :: "string \<Rightarrow> nat list"
  rl_rfc3339 :: "string \<Rightarrow> instant option"
  rl_date :: "string \<Rightarrow> instant option"
  rl_format :: "instant \<Rightarrow> string"
  rl_hooks :: "string \<Rightarrow> webhook list option"
  rl_hook_ids :: "nat \<Rightarrow> string"
  rl_hook_rank :: "string \<Rightarrow> nat"
  rl_marshal :: "runtime_file \<Rightarrow> string option"
  rl_unmarshal :: "string \<Rightarrow> runtime_file option"

section \<open>API tokens\<close>

definition default_api_token_scopes :: "string list" where
  "default_api_token_scopes = [''read'', ''command'']"

definition has_scope :: "unicode \<Rightarrow> api_token \<Rightarrow> string \<Rightarrow> bool" where
  "has_scope U t scope =
     list_ex (\<lambda>s0. let s = to_lower U (trim_space s0) in
         s = ''admin'' \<or> s = ''*'' \<or> s = ''all'' \<or> s = to_lower U scope)
       (if tok_Scopes t = [] then default_api_token_scopes else tok_Scopes t)"

definition hash_api_token :: "rt_lib \<Rightarrow> string \<Rightarrow> string \<Rightarrow> string" where
  "hash_api_token L raw pepper =
     hex_encode (rl_sha256 L (if pepper \<noteq> [] then pepper @ '':'' @ raw else raw))"

definition generate_api_token_secret :: "string + nat list \<Rightarrow> string + string" where
  "generate_api_token_secret rnd = bind_res rnd (\<lambda>bs. Inr (''grflnk_'' @ hex_encode bs))"

fun add_scopes :: "string list \<Rightarrow> string list \<Rightarrow> string list" where
  "add_scopes seen [] = []"
| "add_scopes seen (p # ps) =
     (if p = [] \<or> p \<in> set seen then add_scopes seen ps else p # add_scopes (p # seen) ps)"

definition parse_scope_list :: "unicode \<Rightarrow> string \<Rightarrow> string list" where
  "parse_scope_list U raw0 =
     (let raw = trim_space raw0 in
      if raw = [] then default_api_token_scopes
      else (let out = add_scopes [] (map (\<lambda>p. to_lower U (trim_space p)) (split_on (CHR '','') (replace_all raw ''+'' '',''))) in
            if out = [] then default_api_token_scopes else out))"

definition parse_token_expiry :: "rt_lib \<Rightarrow> instant \<Rightarrow> string list \<Rightarrow> nat \<Rightarrow> instant option" where
  "parse_token_expiry L now bits idx =
     (if length bits \<le> idx then None
      else (let s = trim_space (bits ! idx) in
        if s = [] \<or> equal_fold (rl_tab L) s ''never'' then None
        else (case parse_duration s of
                Some d \<Rightarrow> Some (now + d)
              | None \<Rightarrow>
                  (case parse_duration (s @ ''h'') of
                     Some d \<Rightarrow> if \<not> contains_any s ''smh'' then Some (now + d)
                               else (case rl_rfc3339 L s of Some t \<Rightarrow> Some t | None \<Rightarrow> rl_date L s)
                   | None \<Rightarrow> (case rl_rfc3339 L s of Some t \<Rightarrow> Some t | None \<Rightarrow> rl_date L s)))))"

definition token_suffix :: "string \<Rightarrow> string" where
  "token_suffix tok = (if 4 < length tok then drop (length tok - 4) tok else tok)"

definition parse_api_entry :: "rt_lib \<Rightarrow> instant \<Rightarrow> string \<Rightarrow> string \<Rightarrow> api_token option" where
  "parse_api_entry L now pepper part0 =
     (let part = trim_space part0; bits = split_n 4 (CHR '':'') part in
      if part = [] \<or> length bits < 2 then None
      else (let name = trim_space (bits ! 0); tok = trim_space (bits ! 1) in
        if name = [] \<or> tok = [] then None
        else Some \<lparr>tok_Name = name, tok_Hash = hash_api_token L tok pepper, tok_Suffix = token_suffix tok,
               tok_ExpiresAt = parse_token_expiry L now bits 2, tok_CreatedAt = now,
               tok_Scopes = (if 4 \<le> length bits then parse_scope_list (rl_tab L) (bits ! 3)
                             else default_api_token_scopes)\<rparr>))"

definition parse_api_auth_tokens :: "rt_lib \<Rightarrow> instant \<Rightarrow> string \<Rightarrow> string \<Rightarrow> api_token list" where
  "parse_api_auth_tokens L now raw0 pepper =
     (let raw = trim_space raw0 in
      if raw = [] then [] else List.map_filter (parse_api_entry L now pepper) (split_on (CHR '','') raw))"

definition runtime_token_entry :: "rt_lib \<Rightarrow> instant \<Rightarrow> runtime_token \<Rightarrow> api_token option" where
  "runtime_token_entry L now e =
     (if rt_TokenHash e = [] \<or> rt_Name e = [] then None
      else Some \<lparr>tok_Name = rt_Name e, tok_Hash = rt_TokenHash e, tok_Suffix = rt_TokenSuffix e,
             tok_ExpiresAt = (case rt_ExpiresAt e of None \<Rightarrow> None | Some x \<Rightarrow> if x \<noteq> [] then rl_rfc3339 L x else None),
             tok_CreatedAt = (if rt_CreatedAt e \<noteq> [] then (case rl_rfc3339 L (rt_CreatedAt e) of Some t \<Rightarrow> t | None \<Rightarrow> now)
                              else now),
             tok_Scopes = (if rt_Scopes e = [] then default_api_token_scopes else rt_Scopes e)\<rparr>)"

definition api_tokens_from_runtime :: "rt_lib \<Rightarrow> instant \<Rightarrow> runtime_token list \<Rightarrow> api_token list" where
  "api_tokens_from_runtime L now list = List.map_filter (runtime_token_entry L now) list"

text \<open>The token that a request presents: the first stored one with its hash, and whether it is still valid.\<close>

definition valid_api_token :: "rt_lib \<Rightarrow> instant \<Rightarrow> string \<Rightarrow> options \<Rightarrow> api_token option \<times> bool" where
  "valid_api_token L now raw0 o' =
     (let raw = trim_space raw0 in
      if raw = [] then (None, False)
      else (case List.find (\<lambda>t. tok_Hash t = hash_api_token L raw (APITokenPepper o')) (apiTokens o') of
              None \<Rightarrow> (None, False)
            | Some t \<Rightarrow> (Some t, case tok_ExpiresAt t of None \<Rightarrow> True | Some e \<Rightarrow> \<not> e < now)))"

definition gui_token_ok :: "string \<Rightarrow> options \<Rightarrow> bool" where
  "gui_token_ok raw o' =
     (let want = trim_space (AuthToken (HTTP o')) in want \<noteq> [] \<and> trim_space raw = want)"

section \<open>Applying the overlay\<close>

record runtime_source =
  src_FriendlyNames :: string
  src_IgnoreList :: string
  src_HWIDMap :: string
  src_APITokens :: string
  src_HADiscovery :: string
  src_HADiscoveryPrefix :: string
  src_HAButtons :: string
  src_HASwitches :: string
  src_Webhooks :: string

definition default_runtime_sources :: runtime_source where
  "default_runtime_sources = \<lparr>src_FriendlyNames = ''env'', src_IgnoreList = ''env'', src_HWIDMap = ''env'',
     src_APITokens = ''env'', src_HADiscovery = ''env'', src_HADiscoveryPrefix = ''env'', src_HAButtons = ''env'',
     src_HASwitches = ''env'', src_Webhooks = ''env''\<rparr>"

definition src_of :: "'a option \<Rightarrow> string" where
  "src_of x = (if x = None then ''env'' else ''runtime'')"

definition prefix_or_default :: "string \<Rightarrow> string" where
  "prefix_or_default s = (let pfx = trim_space s in if pfx = [] then ''homeassistant'' else pfx)"

text \<open>The keys that are rebuilt from the environment when the file has no value for them.\<close>

definition apply_maps :: "rt_lib \<Rightarrow> instant \<Rightarrow> runtime_file \<Rightarrow> options \<Rightarrow> options" where
  "apply_maps L now f o' = o'\<lparr>
     friendlyNameMap := (case rf_FriendlyNames f of Some s \<Rightarrow> parse_colon_map (rl_tab L) s
       | None \<Rightarrow> parse_colon_map (rl_tab L) (FriendlyNames (Publish o'))),
     ignoreSet := (case rf_IgnoreList f of Some s \<Rightarrow> parse_ignore_list (rl_tab L) s
       | None \<Rightarrow> parse_ignore_list (rl_tab L) (IgnoreList (Publish o'))),
     hwidMap := (case rf_HWIDMap f of Some s \<Rightarrow> parse_colon_map (rl_tab L) s
       | None \<Rightarrow> parse_colon_map (rl_tab L) (HWIDMap (Publish o'))),
     apiTokens := (case rf_APITokens f of Some ts \<Rightarrow> api_tokens_from_runtime L now ts
       | None \<Rightarrow> parse_api_auth_tokens L now (APIAuthTokens o') (APITokenPepper o'))\<rparr>"

text \<open>The Home Assistant keys, which the file overwrites and nothing restores.\<close>

definition apply_ha :: "runtime_file \<Rightarrow> options \<Rightarrow> options" where
  "apply_ha f o1 =
     (let o2 = (case rf_HADiscovery f of None \<Rightarrow> o1
                | Some b \<Rightarrow> o1\<lparr>Publish := (Publish o1)\<lparr>HomeAssistantDiscovery := b\<rparr>\<rparr>);
          o3 = (case rf_HADiscoveryPrefix f of None \<Rightarrow> o2
                | Some s \<Rightarrow> o2\<lparr>Publish := (Publish o2)\<lparr>HADiscoveryPrefix := prefix_or_default s\<rparr>\<rparr>);
          o4 = (case rf_HAButtons f of None \<Rightarrow> o3
                | Some s \<Rightarrow> o3\<lparr>Publish := (Publish o3)\<lparr>HAButtons := s\<rparr>, haButtons := parse_ha_buttons s\<rparr>);
          o5 = (case rf_HASwitches f of None \<Rightarrow> o4
                | Some s \<Rightarrow> o4\<lparr>Publish := (Publish o4)\<lparr>HASwitches := s\<rparr>, haSwitches := parse_ha_switches s\<rparr>)
      in if HomeAssistantDiscovery (Publish o5) \<and> trim_space (HADiscoveryPrefix (Publish o5)) = []
         then o5\<lparr>Publish := (Publish o5)\<lparr>HADiscoveryPrefix := ''homeassistant''\<rparr>\<rparr> else o5)"

definition apply_runtime :: "rt_lib \<Rightarrow> instant \<Rightarrow> runtime_file \<Rightarrow> options \<Rightarrow> options \<times> runtime_source" where
  "apply_runtime L now f o' =
     (let o1 = apply_ha f (apply_maps L now f o');
          o2 = o1\<lparr>webhooks := (case rf_Webhooks f of Some hs \<Rightarrow> hs
            | None \<Rightarrow> parse_webhooks_json (rl_tab L) (rl_net L) (rl_hook_rank L) (rl_hooks L) (rl_hook_ids L) (WebhooksJSON o1))\<rparr>
      in (o2, \<lparr>src_FriendlyNames = src_of (rf_FriendlyNames f), src_IgnoreList = src_of (rf_IgnoreList f),
           src_HWIDMap = src_of (rf_HWIDMap f), src_APITokens = src_of (rf_APITokens f),
           src_HADiscovery = src_of (rf_HADiscovery f), src_HADiscoveryPrefix = src_of (rf_HADiscoveryPrefix f),
           src_HAButtons = src_of (rf_HAButtons f), src_HASwitches = src_of (rf_HASwitches f),
           src_Webhooks = src_of (rf_Webhooks f)\<rparr>))"

section \<open>The file system\<close>

text \<open>
  Files with their content and modification time. \<open>fs_fail\<close> says which operations of a call fail;
  \<open>fs_left\<close> is what a failed copy leaves at its destination. A created temporary file is removed in every
  case, so only the rename makes a new content visible.
\<close>

datatype fs_op = FsMkdir | FsStat string | FsRead string | FsCopy string | FsTemp | FsWrite | FsSync | FsClose | FsRename

record fs_env =
  fs_fail :: "fs_op \<Rightarrow> bool"
  fs_left :: "string \<Rightarrow> (string \<times> instant) option"

type_synonym disk = "string \<rightharpoonup> string \<times> instant"

datatype rt_error =
    CreateDir | NotExist | ReadFailed string | ParseFailed string | MarshalFailed | CreateTempFailed
  | WriteTempFailed | SyncFailed | CloseFailed | RenameFailed | CopyFailed string | InvalidSlot int

definition read_file :: "fs_env \<Rightarrow> string \<Rightarrow> disk \<Rightarrow> rt_error + string" where
  "read_file F p d =
     (if fs_fail F (FsRead p) then Inl (ReadFailed p)
      else (case d p of None \<Rightarrow> Inl NotExist | Some (c, _) \<Rightarrow> Inr c))"

definition stat_file :: "fs_env \<Rightarrow> string \<Rightarrow> disk \<Rightarrow> instant option" where
  "stat_file F p d = (if fs_fail F (FsStat p) then None else map_option snd (d p))"

definition copy_file :: "fs_env \<Rightarrow> instant \<Rightarrow> string \<Rightarrow> string \<Rightarrow> disk \<Rightarrow> disk \<times> rt_error option" where
  "copy_file F now src dst d =
     (case read_file F src d of
        Inl e \<Rightarrow> (d, Some e)
      | Inr c \<Rightarrow> if fs_fail F (FsCopy dst) then (d(dst := fs_left F dst), Some (CopyFailed dst))
                 else (d(dst \<mapsto> (c, now)), None))"

text \<open>\<open>filepath.Dir\<close> of a clean path is \<open>.\<close> exactly if the path has no slash.\<close>

definition ensure_data_dir :: "fs_env \<Rightarrow> string \<Rightarrow> rt_error option" where
  "ensure_data_dir F path = (if CHR ''/'' \<in> set path \<and> fs_fail F FsMkdir then Some CreateDir else None)"

definition runtime_backup_count :: nat where "runtime_backup_count = 3"
definition runtime_file_version :: int where "runtime_file_version = 1"
definition default_runtime_config_path :: string where "default_runtime_config_path = ''data/runtime.json''"

definition backup_path :: "string \<Rightarrow> nat \<Rightarrow> string" where
  "backup_path path n = (if n = 0 then path else path @ ''.bak.'' @ show_nat n)"

text \<open>The loop counts down from the oldest backup; the first failure ends it.\<close>

fun rotate_backups :: "fs_env \<Rightarrow> instant \<Rightarrow> string \<Rightarrow> nat \<Rightarrow> disk \<Rightarrow> disk \<times> rt_error option" where
  "rotate_backups F now path 0 d = (d, None)"
| "rotate_backups F now path (Suc i) d =
     (let src = backup_path path i; dst = backup_path path (Suc i) in
      if stat_file F src d = None then rotate_backups F now path i d
      else (case copy_file F now src dst (d(dst := None)) of
              (d', Some e) \<Rightarrow> (d', Some e)
            | (d', None) \<Rightarrow> rotate_backups F now path i d'))"

definition line_end :: string where "line_end = [CHR 0x0A]"

definition persist :: "rt_lib \<Rightarrow> fs_env \<Rightarrow> instant \<Rightarrow> string \<Rightarrow> runtime_file \<Rightarrow> disk \<Rightarrow> disk \<times> rt_error option" where
  "persist L F now path f d =
     (case ensure_data_dir F path of
        Some e \<Rightarrow> (d, Some e)
      | None \<Rightarrow>
          (let d1 = fst (rotate_backups F now path runtime_backup_count d) in
           case rl_marshal L f of
             None \<Rightarrow> (d1, Some MarshalFailed)
           | Some data \<Rightarrow>
               if fs_fail F FsTemp then (d1, Some CreateTempFailed)
               else if fs_fail F FsWrite then (d1, Some WriteTempFailed)
               else if fs_fail F FsSync then (d1, Some SyncFailed)
               else if fs_fail F FsClose then (d1, Some CloseFailed)
               else if fs_fail F FsRename then (d1, Some RenameFailed)
               else (d1(path \<mapsto> (data @ line_end, now)), None)))"

section \<open>The manager\<close>

text \<open>\<open>rm_changes\<close> counts the calls of \<open>onChange\<close>, which reloads the webhooks.\<close>

record runtime_manager =
  rm_path :: string
  rm_file :: runtime_file
  rm_sources :: runtime_source
  rm_opts :: options
  rm_disk :: disk
  rm_last_mod :: "instant option"
  rm_changes :: nat

definition empty_runtime_file :: runtime_file where
  "empty_runtime_file = \<lparr>rf_Version = runtime_file_version, rf_UpdatedAt = [], rf_FriendlyNames = None,
     rf_IgnoreList = None, rf_HWIDMap = None, rf_APITokens = None, rf_HADiscovery = None,
     rf_HADiscoveryPrefix = None, rf_HAButtons = None, rf_HASwitches = None, rf_Webhooks = None\<rparr>"

definition apply_locked :: "rt_lib \<Rightarrow> instant \<Rightarrow> runtime_manager \<Rightarrow> runtime_manager" where
  "apply_locked L now m =
     (case apply_runtime L now (rm_file m) (rm_opts m) of (o', src) \<Rightarrow> m\<lparr>rm_opts := o', rm_sources := src\<rparr>)"

definition with_version :: "runtime_file \<Rightarrow> runtime_file" where
  "with_version f = (if rf_Version f = 0 then f\<lparr>rf_Version := runtime_file_version\<rparr> else f)"

definition load_and_apply :: "rt_lib \<Rightarrow> fs_env \<Rightarrow> instant \<Rightarrow> runtime_manager \<Rightarrow> runtime_manager \<times> rt_error option" where
  "load_and_apply L F now m =
     (case read_file F (rm_path m) (rm_disk m) of
        Inl NotExist \<Rightarrow> (m\<lparr>rm_file := empty_runtime_file, rm_sources := default_runtime_sources\<rparr>, None)
      | Inl e \<Rightarrow> (m, Some e)
      | Inr data \<Rightarrow>
          if trim_space data = [] then (apply_locked L now (m\<lparr>rm_file := empty_runtime_file\<rparr>), None)
          else (case rl_unmarshal L data of
                  None \<Rightarrow> (m, Some (ParseFailed (rm_path m)))
                | Some f \<Rightarrow> (apply_locked L now (m\<lparr>rm_file := with_version f\<rparr>), None)))"

text \<open>\<open>clean\<close> is \<open>filepath.Clean\<close>.\<close>

definition new_runtime_manager ::
  "rt_lib \<Rightarrow> fs_env \<Rightarrow> (string \<Rightarrow> string) \<Rightarrow> instant \<Rightarrow> options \<Rightarrow> disk \<Rightarrow> rt_error + runtime_manager" where
  "new_runtime_manager L F clean now o' d =
     (let p = trim_space (RuntimeConfigFile o');
          path = clean (if p = [] then default_runtime_config_path else p);
          m = \<lparr>rm_path = path, rm_file = empty_runtime_file\<lparr>rf_Version := 0\<rparr>, rm_sources = default_runtime_sources,
               rm_opts = o', rm_disk = d, rm_last_mod = None, rm_changes = 0\<rparr>
      in case ensure_data_dir F path of
           Some e \<Rightarrow> Inl e
         | None \<Rightarrow> (case load_and_apply L F now m of
                      (m', Some e) \<Rightarrow> Inl e
                    | (m', None) \<Rightarrow> Inr (m'\<lparr>rm_last_mod := stat_file F path d\<rparr>)))"

definition runtime_snapshot :: "runtime_manager \<Rightarrow> runtime_file \<times> runtime_source" where
  "runtime_snapshot m = (rm_file m, rm_sources m)"

section \<open>Saving\<close>

text \<open>A key of the patch replaces the key of the file.\<close>

definition patch_key :: "'a option \<Rightarrow> 'a option \<Rightarrow> 'a option" where
  "patch_key p f = (case p of None \<Rightarrow> f | Some v \<Rightarrow> Some v)"

definition merge_patch :: "runtime_file \<Rightarrow> runtime_file \<Rightarrow> runtime_file" where
  "merge_patch p f = f\<lparr>
     rf_FriendlyNames := patch_key (rf_FriendlyNames p) (rf_FriendlyNames f),
     rf_IgnoreList := patch_key (rf_IgnoreList p) (rf_IgnoreList f),
     rf_HWIDMap := patch_key (rf_HWIDMap p) (rf_HWIDMap f),
     rf_APITokens := patch_key (rf_APITokens p) (rf_APITokens f),
     rf_HADiscovery := patch_key (rf_HADiscovery p) (rf_HADiscovery f),
     rf_HADiscoveryPrefix := patch_key (map_option prefix_or_default (rf_HADiscoveryPrefix p)) (rf_HADiscoveryPrefix f),
     rf_HAButtons := patch_key (rf_HAButtons p) (rf_HAButtons f),
     rf_HASwitches := patch_key (rf_HASwitches p) (rf_HASwitches f),
     rf_Webhooks := patch_key (rf_Webhooks p) (rf_Webhooks f)\<rparr>"

definition first_time :: "string \<Rightarrow> 'a option \<Rightarrow> 'a option \<Rightarrow> string list" where
  "first_time key p f = (if p \<noteq> None \<and> f = None then [key] else [])"

definition first_time_keys :: "runtime_file \<Rightarrow> runtime_file \<Rightarrow> string list" where
  "first_time_keys p f =
     first_time ''friendly_names'' (rf_FriendlyNames p) (rf_FriendlyNames f)
     @ first_time ''ignore_list'' (rf_IgnoreList p) (rf_IgnoreList f)
     @ first_time ''hwid_map'' (rf_HWIDMap p) (rf_HWIDMap f)
     @ first_time ''api_tokens'' (rf_APITokens p) (rf_APITokens f)
     @ first_time ''ha_discovery'' (rf_HADiscovery p) (rf_HADiscovery f)
     @ first_time ''ha_discovery_prefix'' (rf_HADiscoveryPrefix p) (rf_HADiscoveryPrefix f)
     @ first_time ''ha_buttons'' (rf_HAButtons p) (rf_HAButtons f)
     @ first_time ''ha_switches'' (rf_HASwitches p) (rf_HASwitches f)
     @ first_time ''webhooks'' (rf_Webhooks p) (rf_Webhooks f)"

definition save_overlay ::
  "rt_lib \<Rightarrow> fs_env \<Rightarrow> instant \<Rightarrow> runtime_file \<Rightarrow> runtime_manager \<Rightarrow> runtime_manager \<times> (rt_error + string list)" where
  "save_overlay L F now patch m =
     (let f = (merge_patch patch (rm_file m))\<lparr>rf_UpdatedAt := rl_format L now, rf_Version := runtime_file_version\<rparr> in
      case persist L F now (rm_path m) f (rm_disk m) of
        (d, Some e) \<Rightarrow> (m\<lparr>rm_disk := d\<rparr>, Inl e)
      | (d, None) \<Rightarrow>
          ((apply_locked L now (m\<lparr>rm_disk := d, rm_file := f\<rparr>))\<lparr>rm_changes := Suc (rm_changes m)\<rparr>,
           Inr (first_time_keys patch (rm_file m))))"

definition list_backups :: "fs_env \<Rightarrow> runtime_manager \<Rightarrow> (nat \<times> string \<times> nat \<times> instant) list" where
  "list_backups F m = List.map_filter (\<lambda>i.
     let p = backup_path (rm_path m) i in
     case stat_file F p (rm_disk m) of
       None \<Rightarrow> None
     | Some t \<Rightarrow> Some (i, p, length (fst (the (rm_disk m p))), t)) [1..<Suc runtime_backup_count]"

definition restore_backup ::
  "rt_lib \<Rightarrow> fs_env \<Rightarrow> instant \<Rightarrow> int \<Rightarrow> runtime_manager \<Rightarrow> runtime_manager \<times> rt_error option" where
  "restore_backup L F now slot m =
     (if slot < 1 \<or> int runtime_backup_count < slot then (m, Some (InvalidSlot slot))
      else (case read_file F (backup_path (rm_path m) (nat slot)) (rm_disk m) of
              Inl e \<Rightarrow> (m, Some e)
            | Inr data \<Rightarrow>
                (case rl_unmarshal L data of
                   None \<Rightarrow> (m, Some (ParseFailed (backup_path (rm_path m) (nat slot))))
                 | Some f \<Rightarrow>
                     (case persist L F now (rm_path m) f (rm_disk m) of
                        (d, Some e) \<Rightarrow> (m\<lparr>rm_disk := d\<rparr>, Some e)
                      | (d, None) \<Rightarrow> (apply_locked L now (m\<lparr>rm_disk := d, rm_file := f\<rparr>), None)))))"

text \<open>One tick of \<open>watchLoop\<close>.\<close>

definition watch_tick :: "rt_lib \<Rightarrow> fs_env \<Rightarrow> instant \<Rightarrow> runtime_manager \<Rightarrow> runtime_manager" where
  "watch_tick L F now m =
     (case stat_file F (rm_path m) (rm_disk m) of
        None \<Rightarrow> m
      | Some t \<Rightarrow>
          if rm_last_mod m = Some t then m
          else (case load_and_apply L F now (m\<lparr>rm_last_mod := Some t\<rparr>) of
                  (m', Some e) \<Rightarrow> m'
                | (m', None) \<Rightarrow> m'\<lparr>rm_changes := Suc (rm_changes m')\<rparr>))"

section \<open>Backups\<close>

lemma backup_path_inject [simp]: "backup_path path i = backup_path path j \<longleftrightarrow> i = j"
  by (auto simp: backup_path_def show_nat_inject)

lemma backup_path_0 [simp]: "backup_path path 0 = path"
  by (simp add: backup_path_def)

lemma backup_path_self [simp]: "backup_path path i = path \<longleftrightarrow> i = 0" "path = backup_path path i \<longleftrightarrow> i = 0"
  using backup_path_inject [of path i 0] by auto

lemma copy_file_others: "copy_file F now src dst d = (d', e) \<Longrightarrow> p \<noteq> dst \<Longrightarrow> d' p = d p"
  by (auto simp: copy_file_def split: sum.splits if_splits)

text \<open>The rotation only touches the backups.\<close>

lemma rotate_others:
  assumes "\<forall>i. 1 \<le> i \<and> i \<le> n \<longrightarrow> p \<noteq> backup_path path i"
  shows "fst (rotate_backups F now path n d) p = d p"
  using assms
proof (induction n arbitrary: d)
  case (Suc n)
  obtain d' e where c: "copy_file F now (backup_path path n) (backup_path path (Suc n)) (d(backup_path path (Suc n) := None)) = (d', e)"
    by fastforce
  have p: "p \<noteq> backup_path path (Suc n)" using Suc.prems by auto
  have "d' p = d p" using copy_file_others [OF c p] p by simp
  then show ?case using Suc c by (cases e) (simp_all add: Let_def)
qed simp

text \<open>Without failures every backup moves up by one.\<close>

definition no_failures :: "fs_env \<Rightarrow> bool" where
  "no_failures F \<longleftrightarrow> (\<forall>op. \<not> fs_fail F op)"

definition content :: "disk \<Rightarrow> string \<Rightarrow> string option" where
  "content d p = map_option fst (d p)"

lemma rotate_shifts:
  assumes "no_failures F" and "1 \<le> i" and "i \<le> n"
  shows "content (fst (rotate_backups F now path n d)) (backup_path path i) =
    (if d (backup_path path (i - 1)) = None then content d (backup_path path i)
     else content d (backup_path path (i - 1)))"
  using assms(3)
proof (induction n arbitrary: d)
  case 0
  then show ?case using assms(2) by simp
next
  case (Suc n)
  let ?src = "backup_path path n" and ?dst = "backup_path path (Suc n)"
  define d' where "d' = (case d ?src of None \<Rightarrow> d | Some (c, _) \<Rightarrow> d(?dst \<mapsto> (c, now)))"
  have r: "fst (rotate_backups F now path (Suc n) d) = fst (rotate_backups F now path n d')"
    using assms(1) by (simp add: no_failures_def d'_def Let_def stat_file_def copy_file_def read_file_def split: option.splits)
  show ?case
  proof (cases "i = Suc n")
    case True
    have "fst (rotate_backups F now path n d') ?dst = d' ?dst" by (rule rotate_others) auto
    then show ?thesis unfolding True r by (auto simp: content_def d'_def split: option.splits)
  next
    case False
    then have i: "i \<le> n" using Suc.prems by simp
    have "d' (backup_path path i) = d (backup_path path i)" "d' (backup_path path (i - 1)) = d (backup_path path (i - 1))"
      using False i by (auto simp: d'_def split: option.splits)
    then show ?thesis using Suc.IH [OF i, of d'] unfolding r by (simp add: content_def)
  qed
qed

lemma persist_cases:
  assumes "persist L F now path f d = (d', e)"
  obtains (refused) "e = Some CreateDir" "d' = d"
  | (failed) err where "e = Some err" "d' = fst (rotate_backups F now path runtime_backup_count d)"
  | (saved) data where "e = None" "rl_marshal L f = Some data"
      "d' = (fst (rotate_backups F now path runtime_backup_count d))(path \<mapsto> (data @ line_end, now))"
  using assms by (auto simp: persist_def ensure_data_dir_def Let_def split: option.splits if_splits)

lemma persist_failed_keeps:
  assumes "persist L F now path f d = (d', Some e)"
    and "\<forall>i. 1 \<le> i \<and> i \<le> runtime_backup_count \<longrightarrow> p \<noteq> backup_path path i"
  shows "d' p = d p"
  using assms(1) by (cases rule: persist_cases) (simp_all add: rotate_others [OF assms(2)])

section \<open>Properties of the overlay\<close>

text \<open>C14: A save that fails leaves the settings in force, the file in memory and the file on disk as they were, and
  calls back nobody; only the backups may have been rotated.\<close>
theorem failed_save_keeps_config:
  assumes "save_overlay L F now patch m = (m', Inl e)"
  shows "m' = m\<lparr>rm_disk := rm_disk m'\<rparr> \<and> rm_disk m' (rm_path m) = rm_disk m (rm_path m) \<and>
    (\<forall>p. p \<notin> backup_path (rm_path m) ` {1..runtime_backup_count} \<longrightarrow> rm_disk m' p = rm_disk m p)"
proof -
  obtain d where p: "persist L F now (rm_path m)
      ((merge_patch patch (rm_file m))\<lparr>rf_UpdatedAt := rl_format L now, rf_Version := runtime_file_version\<rparr>)
      (rm_disk m) = (d, Some e)" and m': "m' = m\<lparr>rm_disk := d\<rparr>"
    using assms by (auto simp: save_overlay_def Let_def split: prod.splits option.splits)
  have "d q = rm_disk m q" if "q \<notin> backup_path (rm_path m) ` {1..runtime_backup_count}" for q
    using that by (intro persist_failed_keeps [OF p]) auto
  moreover have "rm_path m \<notin> backup_path (rm_path m) ` {1..runtime_backup_count}" by auto
  ultimately show ?thesis using m' by simp
qed

text \<open>A save without failures keeps three generations: the new file is in place, its predecessor is the first
  backup, and each existing backup has moved to the next place, the third being lost.\<close>
lemma save_rotates_backups:
  assumes "no_failures F" and "save_overlay L F now patch m = (m', Inr keys)" and "rm_disk m (rm_path m) \<noteq> None"
  shows "content (rm_disk m') (backup_path (rm_path m) 1) = content (rm_disk m) (rm_path m) \<and>
    (\<forall>i \<in> {2..runtime_backup_count}. content (rm_disk m') (backup_path (rm_path m) i) =
       (if rm_disk m (backup_path (rm_path m) (i - 1)) = None then content (rm_disk m) (backup_path (rm_path m) i)
        else content (rm_disk m) (backup_path (rm_path m) (i - 1)))) \<and>
    (\<exists>data. rl_marshal L (rm_file m') = Some data \<and> content (rm_disk m') (rm_path m) = Some (data @ line_end))"
proof -
  let ?f = "(merge_patch patch (rm_file m))\<lparr>rf_UpdatedAt := rl_format L now, rf_Version := runtime_file_version\<rparr>"
  obtain d where p: "persist L F now (rm_path m) ?f (rm_disk m) = (d, None)"
    and m': "m' = (apply_locked L now (m\<lparr>rm_disk := d, rm_file := ?f\<rparr>))\<lparr>rm_changes := Suc (rm_changes m)\<rparr>"
    using assms(2) by (auto simp: save_overlay_def Let_def split: prod.splits option.splits)
  obtain data where data: "rl_marshal L ?f = Some data"
    and d: "d = (fst (rotate_backups F now (rm_path m) runtime_backup_count (rm_disk m)))(rm_path m \<mapsto> (data @ line_end, now))"
    using p by (cases rule: persist_cases) auto
  have disk: "rm_disk m' = d" and fl: "rm_file m' = ?f"
    by (simp_all add: m' apply_locked_def split: prod.splits)
  have b: "content d (backup_path (rm_path m) i) =
      (if rm_disk m (backup_path (rm_path m) (i - 1)) = None then content (rm_disk m) (backup_path (rm_path m) i)
       else content (rm_disk m) (backup_path (rm_path m) (i - 1)))" if "1 \<le> i" "i \<le> runtime_backup_count" for i
    using rotate_shifts [OF assms(1) that, of now "rm_path m" "rm_disk m"] that by (auto simp: d content_def)
  show ?thesis
    using b b [of 1] data assms(3) by (auto simp: disk fl runtime_backup_count_def) (simp add: d content_def)
qed

text \<open>\<open>omitempty\<close> drops empty slices: they come back as \<open>nil\<close>.\<close>

definition drop_empty :: "runtime_file \<Rightarrow> runtime_file" where
  "drop_empty f = f\<lparr>rf_APITokens := (if rf_APITokens f = Some [] then None else rf_APITokens f),
     rf_Webhooks := (if rf_Webhooks f = Some [] then None else rf_Webhooks f)\<rparr>"

definition ha_frame :: "options \<Rightarrow> options \<Rightarrow> bool" where
  "ha_frame o' o1 \<longleftrightarrow> friendlyNameMap o1 = friendlyNameMap o' \<and> ignoreSet o1 = ignoreSet o' \<and> hwidMap o1 = hwidMap o' \<and>
     apiTokens o1 = apiTokens o' \<and> webhooks o1 = webhooks o' \<and> WebhooksJSON o1 = WebhooksJSON o' \<and>
     APITokenPepper o1 = APITokenPepper o' \<and> Serial o1 = Serial o' \<and> HTTP o1 = HTTP o' \<and> (publish_ok (Publish o') \<longrightarrow> publish_ok (Publish o1))"

lemma ha_frame_let: "ha_frame o' s \<Longrightarrow> (\<And>x. ha_frame o' x \<Longrightarrow> ha_frame o' (f x)) \<Longrightarrow> ha_frame o' (Let s f)"
  by (simp add: Let_def)

lemma ha_frame_case: "ha_frame o' a \<Longrightarrow> (\<And>b. ha_frame o' (g b)) \<Longrightarrow> ha_frame o' (case x of None \<Rightarrow> a | Some b \<Rightarrow> g b)"
  by (cases x) simp_all

lemma apply_ha_framed: "ha_frame o' (apply_ha f o')"
  unfolding apply_ha_def
  by (intro ha_frame_let ha_frame_case) (auto simp: ha_frame_def publish_ok_def)

lemma apply_ha_frame [simp]:
  "friendlyNameMap (apply_ha f o') = friendlyNameMap o'" "ignoreSet (apply_ha f o') = ignoreSet o'"
  "hwidMap (apply_ha f o') = hwidMap o'" "apiTokens (apply_ha f o') = apiTokens o'" "webhooks (apply_ha f o') = webhooks o'"
  "WebhooksJSON (apply_ha f o') = WebhooksJSON o'" "APITokenPepper (apply_ha f o') = APITokenPepper o'"
  "Serial (apply_ha f o') = Serial o'" "HTTP (apply_ha f o') = HTTP o'"
  using apply_ha_framed [of o' f] by (simp_all add: ha_frame_def)

lemma apply_ha_keys:
  "rf_HAButtons f = Some s \<Longrightarrow> haButtons (apply_ha f o') = parse_ha_buttons s"
  "rf_HASwitches f = Some s \<Longrightarrow> haSwitches (apply_ha f o') = parse_ha_switches s"
  "rf_HADiscovery f = Some b \<Longrightarrow> HomeAssistantDiscovery (Publish (apply_ha f o')) = b"
  by (simp_all add: apply_ha_def Let_def split: option.splits)

lemma apply_ha_absent:
  "rf_HAButtons f = None \<Longrightarrow> haButtons (apply_ha f o') = haButtons o'"
  "rf_HASwitches f = None \<Longrightarrow> haSwitches (apply_ha f o') = haSwitches o'"
  "rf_HADiscovery f = None \<Longrightarrow> HomeAssistantDiscovery (Publish (apply_ha f o')) = HomeAssistantDiscovery (Publish o')"
  by (simp_all add: apply_ha_def Let_def split: option.splits)

lemma apply_maps_frame [simp]:
  "haButtons (apply_maps L now f o') = haButtons o'" "haSwitches (apply_maps L now f o') = haSwitches o'"
  "Publish (apply_maps L now f o') = Publish o'" "webhooks (apply_maps L now f o') = webhooks o'"
  "WebhooksJSON (apply_maps L now f o') = WebhooksJSON o'" "APITokenPepper (apply_maps L now f o') = APITokenPepper o'"
  by (simp_all add: apply_maps_def)

lemma apply_locked_simps [simp]:
  "rm_opts (apply_locked L now m) = fst (apply_runtime L now (rm_file m) (rm_opts m))"
  "rm_sources (apply_locked L now m) = snd (apply_runtime L now (rm_file m) (rm_opts m))"
  "rm_file (apply_locked L now m) = rm_file m" "rm_disk (apply_locked L now m) = rm_disk m"
  "rm_path (apply_locked L now m) = rm_path m" "rm_changes (apply_locked L now m) = rm_changes m"
  by (simp_all add: apply_locked_def split: prod.splits)

text \<open>What the file alone determines, once it has the key.\<close>

lemma apply_runtime_keys:
  "rf_FriendlyNames f = Some s \<Longrightarrow> friendlyNameMap (fst (apply_runtime L now f o')) = parse_colon_map (rl_tab L) s"
  "rf_IgnoreList f = Some s \<Longrightarrow> ignoreSet (fst (apply_runtime L now f o')) = parse_ignore_list (rl_tab L) s"
  "rf_HWIDMap f = Some s \<Longrightarrow> hwidMap (fst (apply_runtime L now f o')) = parse_colon_map (rl_tab L) s"
  "rf_APITokens f = Some ts \<Longrightarrow> apiTokens (fst (apply_runtime L now f o')) = api_tokens_from_runtime L now ts"
  "rf_APITokens f = None \<Longrightarrow> apiTokens (fst (apply_runtime L now f o')) =
    parse_api_auth_tokens L now (APIAuthTokens o') (APITokenPepper o')"
  "rf_HAButtons f = Some s \<Longrightarrow> haButtons (fst (apply_runtime L now f o')) = parse_ha_buttons s"
  "rf_HASwitches f = Some s \<Longrightarrow> haSwitches (fst (apply_runtime L now f o')) = parse_ha_switches s"
  "rf_HADiscovery f = Some b \<Longrightarrow> HomeAssistantDiscovery (Publish (fst (apply_runtime L now f o'))) = b"
  "rf_Webhooks f = Some hs \<Longrightarrow> webhooks (fst (apply_runtime L now f o')) = hs"
  by (simp_all add: apply_runtime_def Let_def apply_ha_keys) (simp_all add: apply_maps_def)

lemma token_entry_time:
  assumes "rt_CreatedAt e \<noteq> []" and "rl_rfc3339 L (rt_CreatedAt e) \<noteq> None"
  shows "runtime_token_entry L now e = runtime_token_entry L now' e"
  using assms by (auto simp: runtime_token_entry_def)

lemma map_filter_cong_set: "(\<And>x. x \<in> set xs \<Longrightarrow> f x = g x) \<Longrightarrow> List.map_filter f xs = List.map_filter g xs"
  by (induction xs) (auto simp: List.map_filter_def)

lemma saved_state:
  assumes "save_overlay L F now patch m = (m', Inr keys)"
  shows "rm_file m' = (merge_patch patch (rm_file m))\<lparr>rf_UpdatedAt := rl_format L now, rf_Version := runtime_file_version\<rparr> \<and>
    rm_opts m' = fst (apply_runtime L now (rm_file m') (rm_opts m)) \<and> keys = first_time_keys patch (rm_file m)"
  using assms by (auto simp: save_overlay_def Let_def split: prod.splits option.splits)

lemma saved_file:
  assumes "save_overlay L F now patch m = (m', Inr keys)"
  obtains data where "rl_marshal L (rm_file m') = Some data"
    and "content (rm_disk m') (rm_path m) = Some (data @ line_end)"
    and "rm_opts m' = fst (apply_runtime L now (rm_file m') (rm_opts m))"
    and "rf_Version (rm_file m') = runtime_file_version"
proof -
  let ?f = "(merge_patch patch (rm_file m))\<lparr>rf_UpdatedAt := rl_format L now, rf_Version := runtime_file_version\<rparr>"
  obtain d where p: "persist L F now (rm_path m) ?f (rm_disk m) = (d, None)"
    and m': "m' = (apply_locked L now (m\<lparr>rm_disk := d, rm_file := ?f\<rparr>))\<lparr>rm_changes := Suc (rm_changes m)\<rparr>"
    using assms by (auto simp: save_overlay_def Let_def split: prod.splits option.splits)
  obtain data where "rl_marshal L ?f = Some data"
    "d = (fst (rotate_backups F now (rm_path m) runtime_backup_count (rm_disk m)))(rm_path m \<mapsto> (data @ line_end, now))"
    using p by (cases rule: persist_cases) auto
  then show thesis by (intro that [of data]) (simp_all add: m' content_def)
qed

text \<open>After a restart the manager holds the file that the save has written, and applies it to the environment.\<close>
lemma restarted:
  assumes "save_overlay L F now patch m = (m', Inr keys)"
    and codec: "\<And>data. rl_marshal L (rm_file m') = Some data \<Longrightarrow>
      trim_space (data @ line_end) \<noteq> [] \<and> rl_unmarshal L (data @ line_end) = Some (drop_empty (rm_file m'))"
    and "new_runtime_manager L F' clean now' env_opts (rm_disk m') = Inr n" and "rm_path n = rm_path m"
  shows "rm_file n = drop_empty (rm_file m')"
    and "rm_opts n = fst (apply_runtime L now' (drop_empty (rm_file m')) env_opts)"
    and "rm_opts m' = fst (apply_runtime L now (rm_file m') (rm_opts m))"
proof -
  obtain data where data: "rl_marshal L (rm_file m') = Some data"
    and disk: "content (rm_disk m') (rm_path m) = Some (data @ line_end)"
    and o': "rm_opts m' = fst (apply_runtime L now (rm_file m') (rm_opts m))"
    and version: "rf_Version (rm_file m') = runtime_file_version"
    by (rule saved_file [OF assms(1)])
  note c = codec [OF data]
  obtain t where d: "rm_disk m' (rm_path m) = Some (data @ line_end, t)"
    using disk by (auto simp: content_def)
  have v: "with_version (drop_empty (rm_file m')) = drop_empty (rm_file m')"
    using version by (simp add: with_version_def drop_empty_def runtime_file_version_def)
  let ?f = "drop_empty (rm_file m')"
  have n: "rm_file n = ?f" "rm_opts n = fst (apply_runtime L now' ?f env_opts)"
    using assms(3,4) c d v
    by (auto simp: new_runtime_manager_def Let_def load_and_apply_def read_file_def
        split: option.splits prod.splits if_splits)
  then show "rm_file n = ?f" "rm_opts n = fst (apply_runtime L now' ?f env_opts)" by simp_all
  show "rm_opts m' = fst (apply_runtime L now (rm_file m') (rm_opts m))" by (rule o')
qed


definition no_faults :: fs_env where
  "no_faults = \<lparr>fs_fail = (\<lambda>_. False), fs_left = (\<lambda>_. None)\<rparr>"

definition sample_patch :: runtime_file where
  "sample_patch = empty_runtime_file\<lparr>rf_FriendlyNames := Some ''A1:Door''\<rparr>"

definition sample_saved :: runtime_file where
  "sample_saved = (merge_patch sample_patch empty_runtime_file)\<lparr>rf_UpdatedAt := ''t'', rf_Version := runtime_file_version\<rparr>"

definition sample_lib :: rt_lib where
  "sample_lib = \<lparr>rl_tab = ascii_tables, rl_net = sample_net, rl_sha256 = map byte, rl_rfc3339 = (\<lambda>_. None),
     rl_date = (\<lambda>_. None), rl_format = (\<lambda>_. ''t''), rl_hooks = (\<lambda>_. None), rl_hook_ids = (\<lambda>_. ''id''),
     rl_hook_rank = (\<lambda>_. 0), rl_marshal = (\<lambda>_. Some ''{}''), rl_unmarshal = (\<lambda>_. Some sample_saved)\<rparr>"

definition sample_manager :: runtime_manager where
  "sample_manager = \<lparr>rm_path = ''data/runtime.json'', rm_file = empty_runtime_file, rm_sources = default_runtime_sources,
     rm_opts = sample_config, rm_disk = [''data/runtime.json'' \<mapsto> (''{ }'', 1)], rm_last_mod = Some 1, rm_changes = 0\<rparr>"

lemma sample_saves:
  "save_overlay sample_lib no_faults 5 sample_patch sample_manager =
    (fst (save_overlay sample_lib no_faults 5 sample_patch sample_manager), Inr [''friendly_names''])"
  "rm_file (fst (save_overlay sample_lib no_faults 5 sample_patch sample_manager)) = sample_saved"
proof -
  have p: "\<exists>d. persist sample_lib no_faults 5 ''data/runtime.json'' f d0 = (d, None)" for f d0
    by (simp add: persist_def no_faults_def ensure_data_dir_def Let_def sample_lib_def)
  obtain d where d: "persist sample_lib no_faults 5 ''data/runtime.json''
     ((merge_patch sample_patch empty_runtime_file)\<lparr>rf_UpdatedAt := rl_format sample_lib 5, rf_Version := runtime_file_version\<rparr>)
     [''data/runtime.json'' \<mapsto> (''{ }'', 1)] = (d, None)"
    using p by blast
  have k: "first_time_keys sample_patch empty_runtime_file = [''friendly_names'']" by code_simp
  have f: "(merge_patch sample_patch empty_runtime_file)\<lparr>rf_UpdatedAt := rl_format sample_lib 5, rf_Version := runtime_file_version\<rparr>
      = sample_saved"
    by (simp add: sample_saved_def) (simp add: sample_lib_def)
  have m: "rm_path sample_manager = ''data/runtime.json''" "rm_file sample_manager = empty_runtime_file"
    "rm_disk sample_manager = [''data/runtime.json'' \<mapsto> (''{ }'', 1)]"
    by (simp_all add: sample_manager_def)
  have s: "save_overlay sample_lib no_faults 5 sample_patch sample_manager =
     ((apply_locked sample_lib 5 (sample_manager\<lparr>rm_disk := d, rm_file := sample_saved\<rparr>))\<lparr>rm_changes := Suc (rm_changes sample_manager)\<rparr>,
      Inr [''friendly_names''])"
    using d unfolding save_overlay_def m k f Let_def by simp
  show "save_overlay sample_lib no_faults 5 sample_patch sample_manager =
    (fst (save_overlay sample_lib no_faults 5 sample_patch sample_manager), Inr [''friendly_names''])"
    unfolding s by simp
  show "rm_file (fst (save_overlay sample_lib no_faults 5 sample_patch sample_manager)) = sample_saved"
    unfolding s by simp
qed

definition rename_fault :: fs_env where
  "rename_fault = \<lparr>fs_fail = (\<lambda>op. op = FsRename), fs_left = (\<lambda>_. None)\<rparr>"

lemma failed_save_keeps_config_witness:
  "\<exists>m'. save_overlay sample_lib rename_fault 5 sample_patch sample_manager = (m', Inl RenameFailed) \<and>
     rm_disk m' ''data/runtime.json'' = Some (''{ }'', 1) \<and> rm_opts m' = rm_opts sample_manager"
proof -
  have p: "snd (persist sample_lib rename_fault 5 path f d0) = Some RenameFailed" for path f d0
    by (simp add: persist_def rename_fault_def ensure_data_dir_def Let_def sample_lib_def)
  have "snd (save_overlay sample_lib rename_fault 5 sample_patch sample_manager) = Inl RenameFailed"
    using p unfolding save_overlay_def Let_def by (auto split: prod.splits option.splits) (metis option.distinct(1) option.inject snd_conv)+
  then obtain m' where s: "save_overlay sample_lib rename_fault 5 sample_patch sample_manager = (m', Inl RenameFailed)"
    by (cases "save_overlay sample_lib rename_fault 5 sample_patch sample_manager") auto
  note keep = failed_save_keeps_config [OF s]
  then have "rm_disk m' ''data/runtime.json'' = Some (''{ }'', 1)"
    by (simp add: sample_manager_def)
  moreover have "rm_opts m' = rm_opts sample_manager"
    using keep by (metis runtime_manager.select_convs(4) runtime_manager.surjective runtime_manager.update_convs(5))
  ultimately show ?thesis using s by blast
qed

lemma save_rotates_backups_witness:
  "\<exists>m'. save_overlay sample_lib no_faults 5 sample_patch sample_manager = (m', Inr [''friendly_names'']) \<and>
     content (rm_disk m') (backup_path ''data/runtime.json'' 1) = Some ''{ }''"
proof -
  have "no_failures no_faults" by (simp add: no_failures_def no_faults_def)
  moreover have "rm_disk sample_manager (rm_path sample_manager) \<noteq> None" by (simp add: sample_manager_def)
  ultimately have "content (rm_disk (fst (save_overlay sample_lib no_faults 5 sample_patch sample_manager)))
      (backup_path (rm_path sample_manager) 1) = content (rm_disk sample_manager) (rm_path sample_manager)"
    using save_rotates_backups [OF _ sample_saves(1)] by blast
  then have "content (rm_disk (fst (save_overlay sample_lib no_faults 5 sample_patch sample_manager)))
      (backup_path ''data/runtime.json'' 1) = Some ''{ }''"
    by (simp add: sample_manager_def content_def)
  then show ?thesis using sample_saves(1) by blast
qed


section \<open>Tokens of the environment\<close>

text \<open>Without an overlay file the tokens and webhooks of the environment are not applied: a manager that starts
  without the file leaves the options as they are, so no API token is accepted, whatever \<open>API_AUTH_TOKEN\<close>
  holds. They take effect with the first save.\<close>
lemma env_tokens_need_overlay_file:
  assumes "new_runtime_manager L F clean now o' d = Inr m" and "d (rm_path m) = None" and "\<not> fs_fail F (FsRead (rm_path m))"
    and "apiTokens o' = []"
  shows "rm_opts m = o' \<and> valid_api_token L t raw (rm_opts m) = (None, False) \<and>
    (save_overlay L F' now' patch m = (m', Inr keys) \<and> rf_APITokens patch = None \<longrightarrow>
      apiTokens (rm_opts m') = parse_api_auth_tokens L now' (APIAuthTokens o') (APITokenPepper o'))"
proof -
  have m: "rm_opts m = o'" "rm_file m = empty_runtime_file"
    using assms(1-3)
    by (auto simp: new_runtime_manager_def Let_def load_and_apply_def read_file_def split: option.splits prod.splits if_splits)
  have "apiTokens (rm_opts m') = parse_api_auth_tokens L now' (APIAuthTokens o') (APITokenPepper o')"
    if "save_overlay L F' now' patch m = (m', Inr keys)" "rf_APITokens patch = None"
  proof -
    have "rf_APITokens (rm_file m') = None" "rm_opts m' = fst (apply_runtime L now' (rm_file m') o')"
      using saved_state [OF that(1)] that(2) m
      by (simp_all add: merge_patch_def patch_key_def empty_runtime_file_def)
    then show ?thesis by (simp add: apply_runtime_keys(5))
  qed
  then show ?thesis using m assms(4) by (auto simp: valid_api_token_def Let_def)
qed

definition token_options :: options where
  "token_options = sample_config\<lparr>APIAuthTokens := ''bot:SECRET''\<rparr>"

lemma env_tokens_need_overlay_file_witness:
  "\<exists>m. new_runtime_manager sample_lib no_faults id 1 token_options Map.empty = Inr m \<and>
     valid_api_token sample_lib 2 ''SECRET'' (rm_opts m) = (None, False)"
proof -
  have "\<exists>m. new_runtime_manager sample_lib no_faults id 1 token_options Map.empty = Inr m"
    by (simp add: new_runtime_manager_def Let_def ensure_data_dir_def no_faults_def load_and_apply_def read_file_def)
  then obtain m where m: "new_runtime_manager sample_lib no_faults id 1 token_options Map.empty = Inr m" by blast
  have "apiTokens token_options = []" by (simp add: token_options_def sample_config_def sample_options_def)
  then have "valid_api_token sample_lib 2 ''SECRET'' (rm_opts m) = (None, False)"
    using env_tokens_need_overlay_file [OF m] by (metis fs_env.select_convs(1) no_faults_def)
  with m show ?thesis by blast
qed

section \<open>Expiry of tokens\<close>

text \<open>A number of days is not a duration: such a token never expires, unless the text is read as a date.\<close>

lemma seven_days_never:
  assumes "rl_rfc3339 L ''7d'' = None" and "rl_date L ''7d'' = None"
  shows "parse_token_expiry L now [''bot'', ''SECRET'', ''7d''] 2 = None"
proof -
  have "trim_space ''7d'' = ''7d''" by code_simp
  moreover have "parse_duration ''7d'' = None" "parse_duration (''7d'' @ ''h'') = None"
    using duration_examples by simp_all
  ultimately show ?thesis using assms by (simp add: parse_token_expiry_def Let_def)
qed

text \<open>A duration counts from the moment the entry is read, which is every time the overlay is applied: with an
  overlay that is saved or reloaded more often than that, the token never expires.\<close>

lemma entry_expiry:
  assumes "parse_api_entry L now pepper part = Some t" and "split_n 4 (CHR '':'') (trim_space part) = [n, k, s]"
    and "parse_duration (trim_space s) = Some d" and "\<not> equal_fold (rl_tab L) (trim_space s) ''never''"
  shows "tok_ExpiresAt t = Some (now + d)"
proof -
  have "trim_space s \<noteq> []" using assms(3) by (auto simp: parse_duration_def)
  then show ?thesis
    using assms by (auto simp: parse_api_entry_def Let_def parse_token_expiry_def split: if_splits)
qed

lemma relative_expiry_renewed:
  assumes "rf_APITokens (rm_file m) = None" and "APIAuthTokens (rm_opts m) = ''bot:SECRET:24h''"
    and "t \<le> now + 24 * 3600000000000"
  shows "snd (valid_api_token L t ''SECRET'' (rm_opts (apply_locked L now m)))"
proof -
  let ?o = "rm_opts (apply_locked L now m)"
  have pepper: "APITokenPepper (fst (apply_runtime L now (rm_file m) (rm_opts m))) = APITokenPepper (rm_opts m)"
    by (simp add: apply_runtime_def Let_def)
  have tr: "trim_space ''bot:SECRET:24h'' = ''bot:SECRET:24h''" "trim_space ''bot'' = ''bot''"
    "trim_space ''SECRET'' = ''SECRET''" "trim_space ''24h'' = ''24h''"
    "split_on (CHR '','') ''bot:SECRET:24h'' = [''bot:SECRET:24h'']"
    "split_n 4 (CHR '':'') ''bot:SECRET:24h'' = [''bot'', ''SECRET'', ''24h'']"
    by code_simp+
  have nv: "\<not> equal_fold (rl_tab L) ''24h'' ''never''"
    by (simp add: equal_fold_def runes_ascii is_ascii_def)
  obtain e where e: "parse_api_entry L now (APITokenPepper (rm_opts m)) ''bot:SECRET:24h'' = Some e"
    "tok_Hash e = hash_api_token L ''SECRET'' (APITokenPepper (rm_opts m))"
    by (simp add: parse_api_entry_def Let_def tr)
  have x: "tok_ExpiresAt e = Some (now + 24 * 3600000000000)"
    using entry_expiry [OF e(1), of "''bot''" "''SECRET''" "''24h''"] nv
    by (simp only: tr duration_examples simp_thms)
  have "apiTokens ?o = [e]"
    using apply_runtime_keys(5) [OF assms(1), of L now "rm_opts m"] e(1)
    by (simp add: assms(2) parse_api_auth_tokens_def Let_def tr List.map_filter_def)
  then show ?thesis
    using assms(3) by (simp add: valid_api_token_def Let_def tr pepper e(2) x)
qed

text \<open>Restoring a backup without the Home Assistant keys reports them as coming from the environment, but keeps
  the values of the file that was replaced.\<close>

lemma restored_ha_keys_stay:
  assumes "restore_backup L F now slot m = (m', None)" and "rf_HAButtons (rm_file m') = None"
    and "rf_HADiscovery (rm_file m') = None"
  shows "src_HAButtons (rm_sources m') = ''env'' \<and> haButtons (rm_opts m') = haButtons (rm_opts m) \<and>
    src_HADiscovery (rm_sources m') = ''env'' \<and>
    HomeAssistantDiscovery (Publish (rm_opts m')) = HomeAssistantDiscovery (Publish (rm_opts m))"
proof -
  obtain d f where m': "m' = apply_locked L now (m\<lparr>rm_disk := d, rm_file := f\<rparr>)"
    using assms(1) by (auto simp: restore_backup_def split: if_splits sum.splits option.splits prod.splits)
  then have f: "rf_HAButtons f = None" "rf_HADiscovery f = None" using assms(2,3) by simp_all
  then show ?thesis
    by (simp add: m' apply_runtime_def Let_def src_of_def apply_ha_absent)
qed

end
