(* ===== verification/LoginLimit.thy ===== *)
theory LoginLimit
  imports GoBase GoNum
begin

text \<open>
  \<open>rflink/login_limit.go\<close>: the per-address limiter of failed session logins. The state holds the two
  maps of the struct; \<open>time.Now()\<close> is an argument of every operation. The last section bounds how
  many wrong guesses of one address are looked at.
\<close>

section \<open>The limiter\<close>

record login_limiter =
  attempts :: "string \<rightharpoonup> instant list"
  locked :: "string \<rightharpoonup> instant"

definition new_login_limiter :: login_limiter where
  "new_login_limiter = \<lparr>attempts = Map.empty, locked = Map.empty\<rparr>"

definition login_window :: duration where "login_window = minutes 5"
definition login_max_attempts :: nat where "login_max_attempts = 5"
definition login_lockout :: duration where "login_lockout = minutes 15"

definition limiter_key :: "string \<Rightarrow> string" where
  "limiter_key ip = (if ip = [] then ''unknown'' else ip)"

definition attempts_of :: "login_limiter \<Rightarrow> string \<Rightarrow> instant list" where
  "attempts_of l ip = (case attempts l ip of None \<Rightarrow> [] | Some ts \<Rightarrow> ts)"

text \<open>The part of \<open>login_allow\<close> after the check of an active lockout.\<close>

definition allow_window :: "instant \<Rightarrow> string \<Rightarrow> login_limiter \<Rightarrow> login_limiter \<times> bool \<times> duration" where
  "allow_window now ip l =
     (let cut = now - login_window;
          arr = filter (\<lambda>t. cut < t) (attempts_of l ip);
          l' = l\<lparr>attempts := (attempts l)(ip \<mapsto> arr)\<rparr>
      in if login_max_attempts \<le> length arr
         then (l'\<lparr>locked := (locked l')(ip \<mapsto> now + login_lockout)\<rparr>, False, login_lockout)
         else (l', True, 0))"

definition login_allow :: "instant \<Rightarrow> string \<Rightarrow> login_limiter \<Rightarrow> login_limiter \<times> bool \<times> duration" where
  "login_allow now ip0 l =
     (let ip = limiter_key ip0 in
      case locked l ip of
        Some until \<Rightarrow>
          if now < until then (l, False, time_sub until now)
          else allow_window now ip
                 (l\<lparr>locked := (locked l)(ip := None), attempts := (attempts l)(ip := None)\<rparr>)
      | None \<Rightarrow> allow_window now ip l)"

text \<open>\<open>login_fail\<close> reads the clock for the new entry and, once there are enough, for the lockout.\<close>

definition login_fail :: "instant \<Rightarrow> instant \<Rightarrow> string \<Rightarrow> login_limiter \<Rightarrow> login_limiter" where
  "login_fail now now' ip0 l =
     (let ip = limiter_key ip0;
          arr = attempts_of l ip @ [now];
          l' = l\<lparr>attempts := (attempts l)(ip \<mapsto> arr)\<rparr>
      in if login_max_attempts \<le> length arr
         then l'\<lparr>locked := (locked l')(ip \<mapsto> now' + login_lockout)\<rparr> else l')"

definition login_success :: "string \<Rightarrow> login_limiter \<Rightarrow> login_limiter" where
  "login_success ip0 l =
     (let ip = limiter_key ip0 in
      l\<lparr>attempts := (attempts l)(ip := None), locked := (locked l)(ip := None)\<rparr>)"

lemmas limiter_defs = login_allow_def allow_window_def login_fail_def login_success_def attempts_of_def Let_def

section \<open>Lockout\<close>

lemma minutes_values: "login_window = 300 * nanos_per_second" "login_lockout = 900 * nanos_per_second"
  by (simp_all add: login_window_def login_lockout_def minutes_def wrap64_def)

lemma allow_locked:
  assumes "locked l (limiter_key ip) = Some until" and "now < until"
  shows "login_allow now ip l = (l, False, time_sub until now)"
  using assms by (simp add: limiter_defs)

lemma fail_locks:
  assumes "login_max_attempts \<le> Suc (length (attempts_of l (limiter_key ip)))"
  shows "locked (login_fail t t' ip l) (limiter_key ip) = Some (t' + login_lockout)"
  using assms by (simp add: limiter_defs)

lemma allow_other:
  assumes "limiter_key ip \<noteq> k"
  shows "attempts (fst (login_allow now ip l)) k = attempts l k" and "locked (fst (login_allow now ip l)) k = locked l k"
  using assms by (simp_all add: limiter_defs split: option.splits)

lemma fail_other:
  assumes "limiter_key ip \<noteq> k"
  shows "attempts (login_fail t t' ip l) k = attempts l k" and "locked (login_fail t t' ip l) k = locked l k"
  using assms by (simp_all add: limiter_defs)

lemma success_resets:
  "attempts_of (login_success ip l) (limiter_key ip) = []" "locked (login_success ip l) (limiter_key ip) = None"
  by (simp_all add: limiter_defs)

section \<open>Guessing\<close>

text \<open>
  One login request as the handler runs it when no other request interleaves: ask the limiter, look
  at the token only if allowed, and note the outcome. The result says whether the token was looked at.
\<close>

definition login_try :: "string \<Rightarrow> instant \<times> bool \<Rightarrow> login_limiter \<Rightarrow> login_limiter \<times> bool" where
  "login_try ip e l =
     (case login_allow (fst e) ip l of (l', ok, _) \<Rightarrow>
        if ok then (if snd e then login_success ip l' else login_fail (fst e) (fst e) ip l', True) else (l', False))"

text \<open>A sequence of requests (address, time, right token?): those whose token was looked at.\<close>

type_synonym login_event = "string \<times> instant \<times> bool"

fun looked_at :: "login_event list \<Rightarrow> login_limiter \<Rightarrow> login_event list" where
  "looked_at [] l = []"
| "looked_at (e # es) l =
     (case login_try (fst e) (snd e) l of
        (l', seen) \<Rightarrow> if seen then e # looked_at es l' else looked_at es l')"

definition guess_times :: "string \<Rightarrow> login_event list \<Rightarrow> instant list" where
  "guess_times k es = map (\<lambda>e. fst (snd e)) (filter (\<lambda>e. limiter_key (fst e) = k) es)"

definition in_window :: "instant \<Rightarrow> instant list \<Rightarrow> instant list" where
  "in_window T ts = filter (\<lambda>t. T - login_window < t \<and> t \<le> T) ts"

text \<open>
  The invariant relates the limiter to the ghost list \<open>H\<close> of the guesses of \<open>k\<close> already looked at,
  \<open>now\<close> being the time of the last event.
\<close>

definition limiter_inv :: "string \<Rightarrow> instant list \<Rightarrow> instant \<Rightarrow> login_limiter \<Rightarrow> bool" where
  "limiter_inv k H now l \<longleftrightarrow>
     (\<forall>t \<in> set H. t \<le> now) \<and>
     filter (\<lambda>t. now - login_window < t) H = filter (\<lambda>t. now - login_window < t) (attempts_of l k) \<and>
     (locked l k = None \<longrightarrow> length (attempts_of l k) < login_max_attempts) \<and>
     (\<forall>until. locked l k = Some until \<longrightarrow> (\<forall>t \<in> set H. t + login_lockout \<le> until)) \<and>
     (\<forall>T. length (in_window T H) \<le> login_max_attempts)"

lemma limiter_inv_new: "limiter_inv k [] now new_login_limiter"
  by (simp add: limiter_inv_def new_login_limiter_def attempts_of_def in_window_def login_max_attempts_def)

lemma filter_window_later:
  assumes "filter (\<lambda>t. now - w < t) H = filter (\<lambda>t. now - w < t) A" and "now \<le> (now' :: int)"
  shows "filter (\<lambda>t. now' - w < t) H = filter (\<lambda>t. now' - w < t) A"
proof -
  have "filter (\<lambda>t. now' - w < t) xs = filter (\<lambda>t. now' - w < t) (filter (\<lambda>t. now - w < t) xs)" for xs
    using assms(2) by (auto simp: intro!: filter_cong)
  then show ?thesis using assms(1) by metis
qed

lemma limiter_inv_later:
  assumes "limiter_inv k H now l" and "now \<le> now'"
  shows "limiter_inv k H now' l"
  using assms filter_window_later [OF _ assms(2), of login_window H "attempts_of l k"]
  by (fastforce simp: limiter_inv_def)

lemma limiter_inv_cong:
  "limiter_inv k H now l \<Longrightarrow> attempts l' k = attempts l k \<Longrightarrow> locked l' k = locked l k \<Longrightarrow>
    limiter_inv k H now l'"
  by (simp add: limiter_inv_def attempts_of_def)

lemma login_try_other:
  assumes "limiter_inv k H now l" and "now \<le> fst e" and "limiter_key ip \<noteq> k"
  shows "limiter_inv k H (fst e) (fst (login_try ip e l))"
proof (rule limiter_inv_cong [OF limiter_inv_later [OF assms(1,2)]])
  obtain l1 ok d where a: "login_allow (fst e) ip l = (l1, ok, d)" by (cases "login_allow (fst e) ip l")
  have s: "attempts (login_success ip l1) k = attempts l1 k" "locked (login_success ip l1) k = locked l1 k"
    using assms(3) by (simp_all add: login_success_def Let_def)
  show "attempts (fst (login_try ip e l)) k = attempts l k"
    and "locked (fst (login_try ip e l)) k = locked l k"
    using allow_other [OF assms(3), of "fst e" l] fail_other [OF assms(3)] s
    by (simp_all add: login_try_def a)
qed

lemma in_window_snoc_bound:
  assumes "\<forall>t \<in> set H. t \<le> now" and "\<forall>T. length (in_window T H) \<le> n"
    and "length (filter (\<lambda>t. now - login_window < t) H) < n"
  shows "length (in_window T (H @ [now])) \<le> n"
proof (cases "now \<le> T")
  case True
  have "length (in_window T H) \<le> length (filter (\<lambda>t. now - login_window < t) H)"
    unfolding in_window_def using True by (induction H) auto
  then show ?thesis using assms(3) by (simp add: in_window_def)
next
  case False
  then show ?thesis using assms(2) by (simp add: in_window_def)
qed

text \<open>A wrong guess of \<open>k\<close> itself.\<close>

lemma guess_evaluated:
  assumes inv: "limiter_inv k H t l" and A: "length (attempts_of l k) < login_max_attempts"
    and l': "l' = login_fail t t k (fst (allow_window t k l))" and lk: "locked l k = None" and k: "limiter_key k = k"
  shows "limiter_inv k (H @ [t]) t l'"
proof -
  define arr where "arr = filter (\<lambda>x. t - login_window < x) (attempts_of l k)"
  have n: "length arr < login_max_attempts"
    unfolding arr_def using A length_filter_le le_less_trans by blast
  have a: "attempts_of l' k = arr @ [t]"
    and lo: "locked l' k = (if login_max_attempts \<le> Suc (length arr) then Some (t + login_lockout) else None)"
    using n lk k unfolding l' by (simp_all add: limiter_defs arr_def [unfolded attempts_of_def])
  have h: "filter (\<lambda>x. t - login_window < x) H = arr"
    using inv by (simp add: limiter_inv_def arr_def)
  have w: "0 < login_window" by (simp add: minutes_values)
  have "length (in_window T (H @ [t])) \<le> login_max_attempts" for T
    using inv n h by (intro in_window_snoc_bound) (simp_all add: limiter_inv_def)
  moreover have "filter (\<lambda>x. t - login_window < x) arr = arr"
    by (simp add: arr_def)
  ultimately show ?thesis
    using inv a lo h w by (auto simp: limiter_inv_def)
qed

lemma limiter_key_idem [simp]: "limiter_key (limiter_key ip) = limiter_key ip"
  by (simp add: limiter_key_def)

lemma fail_key: "login_fail t t' (limiter_key ip) l = login_fail t t' ip l"
  by (simp add: login_fail_def)

lemma guess_inv:
  assumes inv0: "limiter_inv k H now l" and t: "now \<le> t" and k: "limiter_key ip = k"
    and e: "login_try ip (t, False) l = (l', seen)"
  shows "limiter_inv k (if seen then H @ [t] else H) t l'"
proof (cases "locked l k")
  case None
  note inv = limiter_inv_later [OF inv0 t]
  have A: "length (attempts_of l k) < login_max_attempts"
    using inv None by (simp add: limiter_inv_def)
  then have ok: "snd (allow_window t k l) = (True, 0)"
    using le_less_trans [OF length_filter_le A]
    by (simp add: allow_window_def Let_def linorder_not_le)
  have "login_allow t ip l = allow_window t k l" using None k by (simp add: login_allow_def Let_def)
  then have "seen" "l' = login_fail t t k (fst (allow_window t k l))"
    using e ok k fail_key [of t t ip] by (auto simp: login_try_def split: prod.splits)
  then show ?thesis
    using guess_evaluated [OF inv A _ None] k by auto
next
  case (Some until)
  show ?thesis
  proof (cases "t < until")
    case True
    then have "login_allow t ip l = (l, False, time_sub until t)"
      using Some k by (intro allow_locked) auto
    then show ?thesis
      using e limiter_inv_later [OF inv0 t] by (auto simp: login_try_def)
  next
    case False
    define l0 where "l0 = l\<lparr>locked := (locked l)(k := None), attempts := (attempts l)(k := None)\<rparr>"
    have a: "login_allow t ip l = allow_window t k l0"
      using Some False k by (simp add: login_allow_def Let_def l0_def)
    have A: "attempts_of l0 k = []" and L: "locked l0 k = None" by (simp_all add: l0_def attempts_of_def)
    have old: "x + login_lockout \<le> t" if "x \<in> set H" for x
      using inv0 Some False that by (force simp: limiter_inv_def)
    have "login_window \<le> login_lockout" by (simp add: minutes_values)
    then have "filter (\<lambda>x. t - login_window < x) H = []"
      using old by (force simp: filter_empty_conv)
    then have inv: "limiter_inv k H t l0"
      using limiter_inv_later [OF inv0 t] A L by (simp add: limiter_inv_def login_max_attempts_def)
    have "snd (allow_window t k l0) = (True, 0)"
      using A by (simp add: allow_window_def Let_def login_max_attempts_def)
    then have "seen" "l' = login_fail t t k (fst (allow_window t k l0))"
      using e a k fail_key [of t t ip] by (auto simp: login_try_def split: prod.splits)
    then show ?thesis
      using guess_evaluated [OF inv _ _ L] A k by (auto simp: login_max_attempts_def)
  qed
qed

lemma looked_at_inv:
  assumes "limiter_inv k H now l" and "sorted (now # map (\<lambda>e. fst (snd e)) es)"
    and "\<forall>e \<in> set es. limiter_key (fst e) = k \<longrightarrow> \<not> snd (snd e)"
  shows "\<exists>now' l'. limiter_inv k (H @ guess_times k (looked_at es l)) now' l'"
  using assms
proof (induction es arbitrary: H now l)
  case Nil
  then show ?case by (auto simp: guess_times_def)
next
  case (Cons e es)
  obtain ip t good where e: "e = (ip, t, good)" by (cases e)
  obtain l' seen where s: "login_try ip (t, good) l = (l', seen)" by (cases "login_try ip (t, good) l")
  have srt: "sorted (t # map (\<lambda>e. fst (snd e)) es)" "now \<le> t" using Cons.prems(2) e by simp_all
  have rest: "\<forall>e \<in> set es. limiter_key (fst e) = k \<longrightarrow> \<not> snd (snd e)" using Cons.prems(3) by simp
  show ?case
  proof (cases "limiter_key ip = k")
    case True
    then have "login_try ip (t, False) l = (l', seen)" using Cons.prems(3) e s by simp
    from guess_inv [OF Cons.prems(1) srt(2) True this]
    have "limiter_inv k (if seen then H @ [t] else H) t l'" .
    from Cons.IH [OF this srt(1) rest]
    have "\<exists>now' m. limiter_inv k ((if seen then H @ [t] else H) @ guess_times k (looked_at es l')) now' m" .
    moreover have "(if seen then H @ [t] else H) @ guess_times k (looked_at es l') =
        H @ guess_times k (looked_at (e # es) l)"
      using True by (simp add: e s guess_times_def)
    ultimately show ?thesis by simp
  next
    case False
    have "limiter_inv k H t l'"
      using login_try_other [OF Cons.prems(1), of "(t, good)" ip] srt(2) False s by simp
    from Cons.IH [OF this srt(1) rest]
    have "\<exists>now' m. limiter_inv k (H @ guess_times k (looked_at es l')) now' m" .
    moreover have "guess_times k (looked_at (e # es) l) = guess_times k (looked_at es l')"
      using False by (simp add: e s guess_times_def)
    ultimately show ?thesis by simp
  qed
qed

lemma guesses_bounded:
  assumes "sorted (map (\<lambda>e. fst (snd e)) es)"
    and "\<forall>e \<in> set es. limiter_key (fst e) = k \<longrightarrow> \<not> snd (snd e)"
  shows "length (in_window T (guess_times k (looked_at es new_login_limiter))) \<le> login_max_attempts"
proof (cases es)
  case Nil
  then show ?thesis by (simp add: guess_times_def in_window_def)
next
  case (Cons e es')
  then have "sorted (fst (snd e) # map (\<lambda>e. fst (snd e)) es)" using assms(1) by auto
  from looked_at_inv [OF limiter_inv_new this assms(2)]
  show ?thesis by (auto simp: limiter_inv_def)
qed

text \<open>\<open>login_allow\<close> records nothing: requests that all ask before the first failure is noted all pass.\<close>

lemma allow_repeats:
  assumes "locked l (limiter_key ip) = None" and "length (attempts_of l (limiter_key ip)) < login_max_attempts"
  shows "fst (snd (login_allow now ip l))"
    and "locked (fst (login_allow now ip l)) (limiter_key ip) = None"
    and "length (attempts_of (fst (login_allow now ip l)) (limiter_key ip)) < login_max_attempts"
  using assms length_filter_le [of "\<lambda>t. now - login_window < t" "attempts_of l (limiter_key ip)"]
  by (simp_all add: login_allow_def allow_window_def attempts_of_def Let_def del: length_filter_le)

fun allow_all :: "(instant \<times> string) list \<Rightarrow> login_limiter \<Rightarrow> bool list" where
  "allow_all [] l = []"
| "allow_all (r # rs) l = (case login_allow (fst r) (snd r) l of (l', ok, _) \<Rightarrow> ok # allow_all rs l')"

lemma allow_all_passes:
  assumes "locked l (limiter_key ip) = None" and "length (attempts_of l (limiter_key ip)) < login_max_attempts"
  shows "allow_all (map (\<lambda>t. (t, ip)) ts) l = map (\<lambda>_. True) ts"
  using assms
proof (induction ts arbitrary: l)
  case (Cons t ts)
  obtain l' ok d where a: "login_allow t ip l = (l', ok, d)" by (cases "login_allow t ip l")
  show ?case
    using Cons.IH [of l'] allow_repeats [OF Cons.prems, of t] by (simp add: a)
qed simp

section \<open>Properties\<close>

text \<open>
  If no login of an address has the right token and requests do not interleave, at most five
  tokens of that address are looked at within any five minutes, whatever other addresses do.
\<close>

lemma login_guesses_bounded:
  assumes "sorted (map (\<lambda>e. fst (snd e)) es)"
    and "\<forall>e \<in> set es. limiter_key (fst e) = k \<longrightarrow> \<not> snd (snd e)"
  shows "length (in_window T (guess_times k (looked_at es new_login_limiter))) \<le> 5"
  using guesses_bounded [OF assms, of T] by (simp add: login_max_attempts_def)

lemma login_guesses_bounded_witness:
  "length (in_window 7 (guess_times ''10.0.0.9''
     (looked_at [(''10.0.0.9'', 1, False), (''10.0.0.9'', 2, False), (''10.0.0.8'', 2, True),
       (''10.0.0.9'', 3, False), (''10.0.0.9'', 4, False), (''10.0.0.9'', 5, False),
       (''10.0.0.9'', 6, False)] new_login_limiter))) \<le> 5"
  by (rule login_guesses_bounded) (simp_all add: limiter_key_def)

text \<open>
  The check and the record of a failure are two operations: requests that all ask the limiter
  before any of them notes its failure are all allowed, however many they are.
\<close>

lemma concurrent_logins_all_allowed:
  "allow_all (map (\<lambda>t. (t, ip)) ts) new_login_limiter = map (\<lambda>_. True) ts"
  by (rule allow_all_passes) (simp_all add: new_login_limiter_def attempts_of_def login_max_attempts_def)

text \<open>
  The fifth failure noted for an address locks it: until the lockout of fifteen minutes is over
  every request is refused with the time left, and no refused request changes the limiter.
\<close>

lemma fifth_failure_locks:
  assumes "login_max_attempts \<le> Suc (length (attempts_of l (limiter_key ip)))"
    and "now < t' + login_lockout"
  shows "login_allow now ip (login_fail t t' ip l) = (login_fail t t' ip l, False, time_sub (t' + login_lockout) now)"
  using allow_locked [OF fail_locks [OF assms(1)] assms(2)] .

lemma fifth_failure_locks_witness:
  "fst (snd (login_allow 100 ''h'' (login_fail 5 5 ''h'' (login_fail 4 4 ''h'' (login_fail 3 3 ''h'' (login_fail 2 2 ''h''
     (login_fail 1 1 ''h'' new_login_limiter))))))) = False"
proof -
  have a: "login_max_attempts \<le> Suc (length (attempts_of (login_fail 4 4 ''h'' (login_fail 3 3 ''h'' (login_fail 2 2 ''h''
     (login_fail 1 1 ''h'' new_login_limiter)))) (limiter_key ''h'')))"
    by code_simp
  have "(100 :: int) < 5 + login_lockout" by (simp add: minutes_values)
  from fifth_failure_locks [OF a this] show ?thesis by simp
qed

end
