(* ===== verification/Hub.thy ===== *)
theory Hub
  imports PubState "HOL-Library.Sublist"
begin

text \<open>
  \<open>rflink/http_ws.go\<close>: the hub that copies every raw serial line to the WebSocket subscribers, and the loop
  that serves one of them. A channel is named by a number; the map of subscribers is an association list
  from the channel to the entries it buffers. The mutex makes each operation one step.
\<close>

section \<open>The hub\<close>

record raw_hub =
  hub_subs :: "(nat \<times> raw_entry list) list"
  hub_next :: nat

definition new_raw_hub :: raw_hub where
  "new_raw_hub = \<lparr>hub_subs = [], hub_next = 0\<rparr>"

definition hub_buffer :: nat where "hub_buffer = 32"

definition hub_subscribe :: "raw_hub \<Rightarrow> raw_hub \<times> nat" where
  "hub_subscribe h = (\<lparr>hub_subs = (hub_next h, []) # hub_subs h, hub_next = Suc (hub_next h)\<rparr>, hub_next h)"

definition hub_unsubscribe :: "nat \<Rightarrow> raw_hub \<Rightarrow> raw_hub" where
  "hub_unsubscribe ch h = h\<lparr>hub_subs := filter (\<lambda>e. fst e \<noteq> ch) (hub_subs h)\<rparr>"

definition hub_broadcast :: "raw_entry \<Rightarrow> raw_hub \<Rightarrow> raw_hub" where
  "hub_broadcast e h = h\<lparr>hub_subs :=
     map (\<lambda>(ch, q). (ch, if length q < hub_buffer then q @ [e] else q)) (hub_subs h)\<rparr>"

text \<open>A receive from the channel: a subscribed one yields its first entry, if it has any.\<close>

definition hub_receive :: "nat \<Rightarrow> raw_hub \<Rightarrow> raw_hub \<times> raw_entry option" where
  "hub_receive ch h =
     (case map_of (hub_subs h) ch of
        Some (e # q) \<Rightarrow> (h\<lparr>hub_subs := AList.update ch q (hub_subs h)\<rparr>, Some e)
      | _ \<Rightarrow> (h, None))"

section \<open>One client\<close>

text \<open>
  What the \<open>select\<close> of \<open>handleRawWS\<close> sees, the frames it writes, and whether the loop goes on. A write
  that fails ends the loop.
\<close>

datatype ws_event = WsClientGone | WsRequestDone | WsPingTick bool | WsLine raw_entry bool | WsChannelClosed

datatype ws_frame = WsHello "raw_entry list" | WsPing | WsText raw_entry

fun ws_round :: "ws_event \<Rightarrow> ws_frame list \<times> bool" where
  "ws_round WsClientGone = ([], False)"
| "ws_round WsRequestDone = ([], False)"
| "ws_round WsChannelClosed = ([], False)"
| "ws_round (WsPingTick ok) = ([WsPing], ok)"
| "ws_round (WsLine e ok) = ([WsText e], ok)"

fun ws_loop :: "ws_event list \<Rightarrow> ws_frame list" where
  "ws_loop [] = []"
| "ws_loop (ev # evs) = (case ws_round ev of (fs, go) \<Rightarrow> fs @ (if go then ws_loop evs else []))"

text \<open>The first frame is the buffer of recent lines; the channel is subscribed before it is read.\<close>

definition serve_ws :: "publisher \<Rightarrow> ws_event list \<Rightarrow> ws_frame list" where
  "serve_ws p evs = WsHello (recent_raw_lines p) # ws_loop evs"

section \<open>Sequences of operations\<close>

datatype hub_op = HubSubscribe | HubUnsubscribe nat | HubBroadcast raw_entry | HubReceive nat

fun hub_apply :: "hub_op \<Rightarrow> raw_hub \<Rightarrow> raw_hub \<times> (nat \<times> raw_entry) list" where
  "hub_apply HubSubscribe h = (fst (hub_subscribe h), [])"
| "hub_apply (HubUnsubscribe ch) h = (hub_unsubscribe ch h, [])"
| "hub_apply (HubBroadcast e) h = (hub_broadcast e h, [])"
| "hub_apply (HubReceive ch) h =
     (case hub_receive ch h of (h', None) \<Rightarrow> (h', []) | (h', Some e) \<Rightarrow> (h', [(ch, e)]))"

fun hub_exec :: "hub_op list \<Rightarrow> raw_hub \<Rightarrow> raw_hub \<times> (nat \<times> raw_entry) list" where
  "hub_exec [] h = (h, [])"
| "hub_exec (a # as) h =
     (case hub_apply a h of (h1, got) \<Rightarrow> (case hub_exec as h1 of (h2, got') \<Rightarrow> (h2, got @ got')))"

definition hub_queue :: "raw_hub \<Rightarrow> nat \<Rightarrow> raw_entry list option" where
  "hub_queue h = map_of (hub_subs h)"

text \<open>What the operations on one channel do to its queue: the behaviour promised to a client.\<close>

fun feed :: "nat \<Rightarrow> hub_op list \<Rightarrow> raw_entry list \<Rightarrow> raw_entry list \<times> raw_entry list" where
  "feed ch [] q = ([], q)"
| "feed ch (HubBroadcast e # as) q = feed ch as (if length q < hub_buffer then q @ [e] else q)"
| "feed ch (HubReceive c # as) q =
     (if c = ch \<and> q \<noteq> [] then (case feed ch as (tl q) of (got, q') \<Rightarrow> (hd q # got, q')) else feed ch as q)"
| "feed ch (_ # as) q = feed ch as q"

fun broadcasts :: "hub_op list \<Rightarrow> raw_entry list" where
  "broadcasts [] = []"
| "broadcasts (HubBroadcast e # as) = e # broadcasts as"
| "broadcasts (_ # as) = broadcasts as"

definition delivered :: "nat \<Rightarrow> (nat \<times> raw_entry) list \<Rightarrow> raw_entry list" where
  "delivered ch got = map snd (filter (\<lambda>e. fst e = ch) got)"

text \<open>Every subscribed channel is older than the next one, and no queue is longer than its channel.\<close>

definition hub_wf :: "raw_hub \<Rightarrow> bool" where
  "hub_wf h \<longleftrightarrow> (\<forall>ch q. hub_queue h ch = Some q \<longrightarrow> ch < hub_next h \<and> length q \<le> hub_buffer)"

lemma map_of_filter_other: "map_of (filter (\<lambda>e. fst e \<noteq> c) xs) k = (if k = c then None else map_of xs k)"
  by (induction xs) auto

lemma map_of_map_values: "map_of (map (\<lambda>(k, v). (k, f v)) xs) k = map_option f (map_of xs k)"
  by (induction xs) auto

lemma hub_queue_simps [simp]:
  "hub_queue (hub_broadcast e h) ch = map_option (\<lambda>q. if length q < hub_buffer then q @ [e] else q) (hub_queue h ch)"
  "hub_queue (hub_unsubscribe c h) ch = (if ch = c then None else hub_queue h ch)"
  "hub_queue (fst (hub_subscribe h)) ch = (if ch = hub_next h then Some [] else hub_queue h ch)"
  by (auto simp: hub_queue_def hub_broadcast_def hub_unsubscribe_def hub_subscribe_def map_of_filter_other map_of_map_values)

lemma hub_queue_receive [simp]:
  "hub_queue (fst (hub_receive c h)) ch =
     (if ch = c then map_option tl (hub_queue h ch) else hub_queue h ch)"
  "snd (hub_receive c h) = (case hub_queue h c of Some (e # q) \<Rightarrow> Some e | _ \<Rightarrow> None)"
  by (auto simp: hub_queue_def hub_receive_def update_conv' split: option.splits list.splits)

lemma hub_next_simps [simp]:
  "hub_next (hub_broadcast e h) = hub_next h" "hub_next (hub_unsubscribe c h) = hub_next h"
  "hub_next (fst (hub_subscribe h)) = Suc (hub_next h)" "hub_next (fst (hub_receive c h)) = hub_next h"
  by (auto simp: hub_broadcast_def hub_unsubscribe_def hub_subscribe_def hub_receive_def split: option.splits list.splits)

lemma hub_apply_receive [simp]:
  "hub_apply (HubReceive c) h =
     (fst (hub_receive c h), case hub_queue h c of Some (e # q) \<Rightarrow> [(c, e)] | _ \<Rightarrow> [])"
  using hub_queue_receive(2) [of c h] by (cases "hub_receive c h") (auto split: option.splits list.splits)

declare hub_apply.simps(4) [simp del]

lemma hub_wf_new: "hub_wf new_raw_hub"
  by (simp add: hub_wf_def new_raw_hub_def hub_queue_def)

lemma hub_wf_apply: "hub_wf h \<Longrightarrow> hub_wf (fst (hub_apply a h))"
  by (cases a) (fastforce simp: hub_wf_def less_SucI dest: less_imp_le split: if_splits)+

lemma hub_exec_Cons [simp]:
  "fst (hub_exec (a # as) h) = fst (hub_exec as (fst (hub_apply a h)))"
  "snd (hub_exec (a # as) h) = snd (hub_apply a h) @ snd (hub_exec as (fst (hub_apply a h)))"
  by (simp_all split: prod.splits)

declare hub_exec.simps(2) [simp del]

lemma hub_wf_exec: "hub_wf h \<Longrightarrow> hub_wf (fst (hub_exec as h))"
  by (induction as arbitrary: h) (simp_all add: hub_wf_apply)

lemma delivered_simps [simp]:
  "delivered ch [] = []" "delivered ch (x @ y) = delivered ch x @ delivered ch y"
  "delivered ch ((c, e) # x) = (if c = ch then e # delivered ch x else delivered ch x)"
  by (simp_all add: delivered_def)

section \<open>What a client receives\<close>

text \<open>The operations of other clients, and their pace, do not change the feed of a channel.\<close>

lemma feed_of_hub:
  assumes "hub_queue h ch = Some q" and "hub_wf h" and "HubUnsubscribe ch \<notin> set as"
  shows "feed ch as q = (delivered ch (snd (hub_exec as h)), the (hub_queue (fst (hub_exec as h)) ch)) \<and>
    hub_queue (fst (hub_exec as h)) ch \<noteq> None"
  using assms
proof (induction as arbitrary: h q)
  case (Cons a as)
  have w: "hub_wf (fst (hub_apply a h))" using Cons.prems(2) by (rule hub_wf_apply)
  have n: "ch \<noteq> hub_next h" using Cons.prems by (auto simp: hub_wf_def)
  have IH: "feed ch as q' = (delivered ch (snd (hub_exec as (fst (hub_apply a h)))),
        the (hub_queue (fst (hub_exec as (fst (hub_apply a h)))) ch)) \<and>
      hub_queue (fst (hub_exec as (fst (hub_apply a h)))) ch \<noteq> None"
    if "hub_queue (fst (hub_apply a h)) ch = Some q'" for q'
    using Cons.IH [OF that w] Cons.prems(3) by simp
  show ?case
  proof (cases a)
    case (HubReceive c)
    show ?thesis
    proof (cases "c = ch")
      case True
      then show ?thesis using IH [of "tl q"] Cons.prems(1) HubReceive by (cases q) simp_all
    next
      case False
      then have "delivered ch (snd (hub_apply a h)) = []"
        unfolding HubReceive by (simp split: option.split list.split)
      then show ?thesis using IH [of q] Cons.prems(1) HubReceive False by simp
    qed
  qed (use IH Cons.prems n in simp_all)
qed (simp add: delivered_def)

lemma feed_subseq: "feed ch as q = (got, q') \<Longrightarrow> subseq (got @ q') (q @ broadcasts as)"
proof (induction as arbitrary: q got)
  case (Cons a as)
  show ?case
  proof (cases a)
    case (HubBroadcast e)
    have "subseq (q @ broadcasts as) (q @ e # broadcasts as)"
      by (rule list_emb_append_mono [OF subseq_order.order_refl list_emb_Cons [OF subseq_order.order_refl]])
    then show ?thesis
      using Cons.prems HubBroadcast Cons.IH [of q] Cons.IH [of "q @ [e]"]
      by (auto split: if_splits intro: subseq_order.order_trans)
  next
    case (HubReceive c)
    then show ?thesis using Cons.prems Cons.IH [of q] Cons.IH [of "tl q"]
      by (cases q) (auto split: if_splits prod.splits)
  qed (use Cons in auto)
qed simp

lemma feed_complete:
  "feed ch as q = (got, q') \<Longrightarrow> length q + length (broadcasts as) \<le> hub_buffer \<Longrightarrow> got @ q' = q @ broadcasts as"
proof (induction as arbitrary: q got)
  case (Cons a as)
  show ?case
  proof (cases a)
    case (HubReceive c)
    then show ?thesis using Cons.prems Cons.IH [of q] Cons.IH [of "tl q"]
      by (cases q) (auto split: if_splits prod.splits)
  qed (use Cons.prems Cons.IH in \<open>force split: if_splits\<close>)+
qed simp

text \<open>C37: A subscribed client gets the lines in the order they were broadcast, whatever the other clients do: what it
  has received and what its channel still holds, at most 32 lines, is a subsequence of the broadcasts since it
  joined, and all of them as long as they fit into the channel. A client that does not read is never waited for.\<close>
theorem feed_in_order:
  assumes "hub_wf h" and "hub_subscribe h = (h0, ch)" and "hub_exec as h0 = (h', got)"
    and "HubUnsubscribe ch \<notin> set as"
  shows "\<exists>q. hub_queue h' ch = Some q \<and> length q \<le> hub_buffer \<and> subseq (delivered ch got @ q) (broadcasts as) \<and>
    (length (broadcasts as) \<le> hub_buffer \<longrightarrow> delivered ch got @ q = broadcasts as)"
proof -
  have q0: "hub_queue h0 ch = Some []" using assms(2) by (auto simp: hub_subscribe_def hub_queue_def)
  have w: "hub_wf h0" using hub_wf_apply [of h HubSubscribe] assms(1,2) by simp
  obtain q where f: "feed ch as [] = (delivered ch got, q)" and q: "hub_queue h' ch = Some q"
    using feed_of_hub [OF q0 w assms(4)] assms(3) by auto
  have "hub_wf h'" using hub_wf_exec [OF w, of as] assms(3) by simp
  then have "length q \<le> hub_buffer" using q by (simp add: hub_wf_def)
  then show ?thesis using q feed_subseq [OF f] feed_complete [OF f] by simp
qed

text \<open>Two clients: the first reads one of the three lines, the second none.\<close>

definition sample_ops :: "hub_op list" where
  "sample_ops = [HubSubscribe, HubBroadcast (raw_entry.make ''1'' ''a''), HubBroadcast (raw_entry.make ''2'' ''b''),
     HubReceive 0, HubBroadcast (raw_entry.make ''3'' ''c'')]"

lemma feed_in_order_witness:
  "\<exists>q. hub_queue (fst (hub_exec sample_ops (fst (hub_subscribe new_raw_hub)))) 0 = Some q \<and> length q \<le> hub_buffer \<and>
     subseq (delivered 0 (snd (hub_exec sample_ops (fst (hub_subscribe new_raw_hub)))) @ q) (broadcasts sample_ops)"
proof -
  have s: "hub_subscribe new_raw_hub = (fst (hub_subscribe new_raw_hub), 0)"
    by (simp add: hub_subscribe_def new_raw_hub_def)
  have e: "hub_exec sample_ops (fst (hub_subscribe new_raw_hub)) =
      (fst (hub_exec sample_ops (fst (hub_subscribe new_raw_hub))), snd (hub_exec sample_ops (fst (hub_subscribe new_raw_hub))))"
    by simp
  have u: "HubUnsubscribe 0 \<notin> set sample_ops" by (simp add: sample_ops_def)
  show ?thesis using feed_in_order [OF hub_wf_new s e u] by blast
qed

end
