(* ===== verification/HttpAuth.thy ===== *)
theory HttpAuth
  imports RuntimeConfig App LoginLimit Hub
begin

text \<open>
  The front of \<open>rflink/http_server.go\<close>: requests and responses, client addresses, request ids, CORS,
  authentication by session or API token, scopes, CSRF, and the session endpoints. The decoders of request
  bodies, the parsers of IP addresses and networks, the clock and \<open>crypto/rand\<close> are arguments; a call
  reads the clock once.
\<close>

section \<open>Requests and responses\<close>

text \<open>
  \<open>hr_Header\<close> and \<open>hr_Query\<close> give the first value of a canonical header name and of a query key.
  Reading the body yields \<open>hr_Body\<close>, and then an error if \<open>hr_BodyErr\<close>.
\<close>

record request =
  hr_Method :: string
  hr_Path :: string
  hr_Header :: "string \<rightharpoonup> string"
  hr_Cookies :: "(string \<times> string) list"
  hr_Query :: "string \<rightharpoonup> string"
  hr_Body :: string
  hr_BodyErr :: bool
  hr_RemoteAddr :: string
  hr_TLS :: bool

definition max_body_bytes :: nat where "max_body_bytes = 65536"

text \<open>\<open>io.ReadAll(io.LimitReader(r.Body, maxBodyBytes))\<close>: the data, and whether it failed.\<close>

definition read_body :: "request \<Rightarrow> string \<times> bool" where
  "read_body r = (take max_body_bytes (hr_Body r), hr_BodyErr r \<and> length (hr_Body r) < max_body_bytes)"

fun canonical_header :: "bool \<Rightarrow> string \<Rightarrow> string" where
  "canonical_header up [] = []"
| "canonical_header up (c # cs) = (if up then byte_upper c else byte_lower c) # canonical_header (c = CHR ''-'') cs"

definition header_get :: "request \<Rightarrow> string \<Rightarrow> string" where
  "header_get r name = (case hr_Header r (canonical_header True name) of None \<Rightarrow> [] | Some v \<Rightarrow> v)"

definition query_get :: "request \<Rightarrow> string \<Rightarrow> string" where
  "query_get r key = (case hr_Query r key of None \<Rightarrow> [] | Some v \<Rightarrow> v)"

definition session_id_from_request :: "request \<Rightarrow> string" where
  "session_id_from_request r = (case map_of (hr_Cookies r) session_cookie_name of None \<Rightarrow> [] | Some v \<Rightarrow> v)"

text \<open>A JSON document that is written; the structures that the code passes to the encoder are leaves.\<close>

datatype json =
    NText string | NFlag bool | NInt int | NNum rat | NNull | NTexts "string list"
  | NList "json list" | NObj "(string \<times> json) list" | NView "(string \<times> view_value) list"
  | NSource runtime_source | NRtError rt_error | NHookError hook_error | NCsvErrors "csv_error list"
  | NCommand cmd_result | NHealth health_snapshot | NLines "raw_entry list" | NSamples "sensor_sample list"

datatype reply = RNone | RText string | RJson json

record response =
  rp_Status :: nat
  rp_Headers :: "(string \<times> string) list"
  rp_Cookies :: "cookie list"
  rp_Reply :: reply

definition write_json :: "nat \<Rightarrow> json \<Rightarrow> response" where
  "write_json status v = \<lparr>rp_Status = status,
     rp_Headers = [(''Content-Type'', ''application/json; charset=utf-8''), (''Cache-Control'', ''no-store'')],
     rp_Cookies = [], rp_Reply = RJson v\<rparr>"

definition error_json :: "nat \<Rightarrow> string \<Rightarrow> response" where
  "error_json status msg = write_json status (NObj [(''error'', NText msg)])"

text \<open>\<open>http.Error\<close>.\<close>

definition http_error :: "string \<Rightarrow> nat \<Rightarrow> response" where
  "http_error msg status = \<lparr>rp_Status = status,
     rp_Headers = [(''Content-Type'', ''text/plain; charset=utf-8''), (''X-Content-Type-Options'', ''nosniff'')],
     rp_Cookies = [], rp_Reply = RText (msg @ [CHR 0x0A])\<rparr>"

definition method_not_allowed :: response where
  "method_not_allowed = http_error ''method not allowed'' 405"

section \<open>Client addresses\<close>

text \<open>\<open>net.SplitHostPort\<close>: the host, or nothing on an error.\<close>

definition split_host_port :: "string \<Rightarrow> (string \<times> string) option" where
  "split_host_port s =
     (if CHR '':'' \<notin> set s then None
      else (let tl_part = takeWhile (\<lambda>c. c \<noteq> CHR '':'') (rev s);
                port = rev tl_part; front = take (length s - length port - 1) s in
        if has_prefix s ''['' then
          (if CHR '']'' \<notin> set s then None
           else (let inner = takeWhile (\<lambda>c. c \<noteq> CHR '']'') s; i = length inner in
             if i + 1 \<noteq> length front then None
             else if CHR ''['' \<in> set (tl s) \<or> CHR '']'' \<in> set (drop (i + 1) s) then None
             else Some (tl inner, port)))
        else if CHR '':'' \<in> set front \<or> CHR ''['' \<in> set s \<or> CHR '']'' \<in> set s then None
        else Some (front, port)))"

text \<open>\<open>IPNet.Contains\<close>; an IPv4-mapped network of prefix length \<open>n\<close> has the IPv4 prefix \<open>n - 96\<close>.\<close>

type_synonym ip_net = "ip \<times> nat"

definition net_contains :: "ip_net \<Rightarrow> ip \<Rightarrow> bool" where
  "net_contains n a =
     (case (to4 (fst n), to4 a) of
        (Some b, Some x) \<Rightarrow>
          (let len = (case fst n of IPv4 _ \<Rightarrow> snd n | IPv6 _ \<Rightarrow> snd n - 96)
           in drop_bit (32 - len) x = drop_bit (32 - len) b)
      | (None, None) \<Rightarrow>
          (case (fst n, a) of
             (IPv6 b, IPv6 x) \<Rightarrow> drop_bit (128 - snd n) x = drop_bit (128 - snd n) b
           | _ \<Rightarrow> False)
      | _ \<Rightarrow> False)"

definition ip_in_nets :: "ip \<Rightarrow> ip_net list \<Rightarrow> bool" where
  "ip_in_nets a nets = list_ex (\<lambda>n. net_contains n a) nets"

definition parse_csv_list :: "string \<Rightarrow> string list" where
  "parse_csv_list raw0 =
     (let raw = trim_space raw0 in
      if raw = [] then [] else filter (\<lambda>p. p \<noteq> []) (map trim_space (split_on (CHR '','') raw)))"

definition parse_trusted_proxies :: "net_lib \<Rightarrow> (string \<Rightarrow> ip_net option) \<Rightarrow> string \<Rightarrow> ip_net list" where
  "parse_trusted_proxies N parse_cidr raw =
     List.map_filter (\<lambda>p. parse_cidr
       (if CHR ''/'' \<notin> set p
        then (case nl_parse_ip N p of
                None \<Rightarrow> p
              | Some a \<Rightarrow> if to4 a \<noteq> None then p @ ''/32'' else p @ ''/128'')
        else p)) (parse_csv_list raw)"

definition header_real_ip :: string where "header_real_ip = ''X-Real-IP''"

definition client_ip :: "net_lib \<Rightarrow> ip_net list \<Rightarrow> request \<Rightarrow> string" where
  "client_ip N trusted r =
     (let host = (case split_host_port (hr_RemoteAddr r) of None \<Rightarrow> hr_RemoteAddr r | Some (h, _) \<Rightarrow> h) in
      case nl_parse_ip N host of
        None \<Rightarrow> host
      | Some remote \<Rightarrow>
          if \<not> ip_in_nets remote trusted then host
          else (let xri = trim_space (header_get r header_real_ip); xff = header_get r ''X-Forwarded-For'';
                    cand = trim_space (split_on (CHR '','') xff ! 0) in
                if xri \<noteq> [] \<and> nl_parse_ip N xri \<noteq> None then xri
                else if xff \<noteq> [] \<and> nl_parse_ip N cand \<noteq> None then cand
                else host))"

definition is_non_local_listen :: "unicode \<Rightarrow> net_lib \<Rightarrow> string \<Rightarrow> bool" where
  "is_non_local_listen U N addr =
     (case split_host_port addr of
        None \<Rightarrow> True
      | Some (h, _) \<Rightarrow>
          (let host = trim_space h in
           if host = [] \<or> host = ''0.0.0.0'' \<or> host = ''::'' \<or> host = ''[::]'' then True
           else (case nl_parse_ip N (trim_right (dropWhile (\<lambda>c. c \<in> set ''[]'') host) ''[]'') of
                   Some a \<Rightarrow> \<not> is_loopback a
                 | None \<Rightarrow> to_lower U host \<noteq> ''localhost'')))"

section \<open>Request ids\<close>

definition request_id_char :: "rune \<Rightarrow> bool" where
  "request_id_char r = (97 \<le> r \<and> r \<le> 122 \<or> 65 \<le> r \<and> r \<le> 90 \<or> 48 \<le> r \<and> r \<le> 57 \<or> r = 45 \<or> r = 95 \<or> r = 46)"

definition looks_like_request_id :: "string \<Rightarrow> bool" where
  "looks_like_request_id s = (\<not> (length s < 8 \<or> 64 < length s) \<and> list_all request_id_char (runes s))"

text \<open>\<open>newUUID\<close>: sixteen random bytes with the version and variant bits set; without them, \<open>randomHex\<close>.\<close>

definition random_hex :: "string + nat list \<Rightarrow> string + string" where
  "random_hex rnd = (case rnd of Inl e \<Rightarrow> Inl e | Inr bs \<Rightarrow> Inr (hex_encode bs))"

definition new_uuid :: "(string + nat list) \<Rightarrow> (string + nat list) \<Rightarrow> string" where
  "new_uuid rnd rnd2 =
     (case rnd of
        Inl _ \<Rightarrow> (case random_hex rnd2 of Inl _ \<Rightarrow> [] | Inr h \<Rightarrow> h)
      | Inr b0 \<Rightarrow>
          (let b = b0[6 := b0 ! 6 mod 16 + 64, 8 := b0 ! 8 mod 64 + 128] in
           join ''-'' [hex_encode (take 4 b), hex_encode (take 2 (drop 4 b)), hex_encode (take 2 (drop 6 b)),
             hex_encode (take 2 (drop 8 b)), hex_encode (take 6 (drop 10 b))]))"

definition header_request_id :: string where "header_request_id = ''X-Request-ID''"

definition request_id :: "string \<Rightarrow> request \<Rightarrow> string" where
  "request_id uuid r =
     (let rid0 = trim_space (header_get r header_request_id);
          rid = (if rid0 = [] \<or> \<not> looks_like_request_id rid0 then uuid else rid0)
      in if 64 < length rid then take 64 rid else rid)"

section \<open>Response headers\<close>

definition origin_allowed :: "unicode \<Rightarrow> string list \<Rightarrow> string \<Rightarrow> bool" where
  "origin_allowed U origins origin = list_ex (\<lambda>a. a = ''*'' \<or> equal_fold U a origin) origins"

definition cors_headers :: "unicode \<Rightarrow> string list \<Rightarrow> request \<Rightarrow> (string \<times> string) list" where
  "cors_headers U origins r =
     (let origin = header_get r ''Origin'' in
      if origin \<noteq> [] \<and> origin_allowed U origins origin
      then [(''Access-Control-Allow-Origin'', origin), (''Vary'', ''Origin''),
            (''Access-Control-Allow-Credentials'', ''true''),
            (''Access-Control-Allow-Headers'', ''Authorization, Content-Type, X-API-Token, X-CSRF-Token, X-Request-ID''),
            (''Access-Control-Allow-Methods'', ''GET, POST, PUT, PATCH, OPTIONS''),
            (''Access-Control-Max-Age'', ''600''), (''Access-Control-Expose-Headers'', header_request_id)]
      else [])"

definition csp :: string where
  "csp = ''default-src '' @ [CHR 0x27] @ ''none'' @ [CHR 0x27] @ ''; script-src '' @ [CHR 0x27] @ ''unsafe-inline'' @ [CHR 0x27]
    @ ''; style-src '' @ [CHR 0x27] @ ''unsafe-inline'' @ [CHR 0x27] @ ''; img-src '' @ [CHR 0x27] @ ''none'' @ [CHR 0x27]
    @ ''; connect-src '' @ [CHR 0x27] @ ''self'' @ [CHR 0x27] @ ''; base-uri '' @ [CHR 0x27] @ ''none'' @ [CHR 0x27]
    @ ''; form-action '' @ [CHR 0x27] @ ''self'' @ [CHR 0x27] @ ''; frame-ancestors '' @ [CHR 0x27] @ ''none'' @ [CHR 0x27]"

definition security_headers :: "string \<Rightarrow> (string \<times> string) list" where
  "security_headers path =
     [(''X-Content-Type-Options'', ''nosniff''), (''X-Frame-Options'', ''DENY''), (''Referrer-Policy'', ''no-referrer''),
      (''Permissions-Policy'', ''geolocation=(), microphone=(), camera=(), payment=(), usb=(), interest-cohort=()''),
      (''Cross-Origin-Opener-Policy'', ''same-origin''), (''Cross-Origin-Resource-Policy'', ''same-origin'')]
     @ (if has_prefix path ''/api/'' then [(''Cache-Control'', ''no-store'')] else [])
     @ (if path = ''/'' then [(''Content-Security-Policy'', csp)] else [])"

text \<open>Which successful requests the access log shows at info level.\<close>

definition is_important_http_request :: "string \<Rightarrow> string \<Rightarrow> bool" where
  "is_important_http_request meth path =
     (path \<in> set [''/api/v1/command'', ''/api/v1/ha/rediscover'', ''/api/v1/session'', ''/api/v1/config/restore'',
        ''/api/v1/tokens'', ''/api/v1/sessions'', ''/api/v1/webhooks'']
      \<or> path = ''/api/v1/config'' \<and> (meth = ''PUT'' \<or> meth = ''PATCH'' \<or> meth = ''POST''))"

section \<open>The server\<close>

record server =
  sv_app :: app
  sv_runtime :: runtime_manager
  sv_sessions :: store
  sv_login :: login_limiter
  sv_hooks :: webhook_manager
  sv_hub :: raw_hub
  sv_cors :: "string list"
  sv_trusted :: "ip_net list"

abbreviation opts :: "server \<Rightarrow> options" where "opts S \<equiv> rm_opts (sv_runtime S)"

text \<open>The decoders of the request bodies. A decoder of \<open>Unmarshal\<close> with an ignored error always has a value.\<close>

record config_request =
  cq_FriendlyNames :: "string option"
  cq_IgnoreList :: "string option"
  cq_HWIDMap :: "string option"
  cq_HADiscovery :: "bool option"
  cq_HADiscoveryPrefix :: "string option"
  cq_HAButtons :: "string option"
  cq_HASwitches :: "string option"

record token_request =
  tq_Name :: string
  tq_Expire :: string
  tq_Scopes :: "string list"

record http_lib =
  hl_env :: env
  hl_driver :: driver
  hl_quoting :: quoting
  hl_rt :: rt_lib
  hl_fs :: fs_env
  hl_login_token :: "string \<Rightarrow> string"
  hl_command :: "string \<Rightarrow> string option"
  hl_config :: "string \<Rightarrow> config_request option"
  hl_slot :: "string \<Rightarrow> int option"
  hl_revoke :: "string \<Rightarrow> string \<times> bool"
  hl_hook :: "string \<Rightarrow> webhook option"
  hl_hook_id :: "string \<Rightarrow> string"
  hl_token :: "string \<Rightarrow> token_request option"
  hl_token_name :: "string \<Rightarrow> string"
  hl_mux :: "request \<Rightarrow> response option"
  hl_gui :: string

abbreviation hl_tab :: "http_lib \<Rightarrow> unicode" where "hl_tab L \<equiv> rl_tab (hl_rt L)"

text \<open>
  \<open>hl_mux\<close> is the redirect with which \<open>http.ServeMux\<close> itself answers a path that is not clean. One request
  draws: the clock, what \<open>crypto/rand\<close> gives to each use, and whether the library upgrades the connection to
  a WebSocket, or the status with which it refuses.
\<close>

record draws =
  d_now :: instant
  d_session_id :: "string + nat list"
  d_csrf :: "string + nat list"
  d_secret :: "string + nat list"
  d_hook_id :: "string + nat list"
  d_uuid :: "string + nat list"
  d_uuid2 :: "string + nat list"
  d_upgrade :: "nat option"
  d_evict_rank :: "nat \<Rightarrow> string \<Rightarrow> nat"
  d_rank :: "string \<Rightarrow> nat"

section \<open>Authentication\<close>

text \<open>The request context after \<open>checkAuth\<close>: \<open>ctxAuthKind\<close> with \<open>ctxAPIToken\<close>.\<close>

datatype auth = BySession | ByToken api_token

definition bearer_token :: "unicode \<Rightarrow> request \<Rightarrow> string" where
  "bearer_token U r =
     (let got = header_get r ''X-API-Token''; auth = header_get r ''Authorization'' in
      if got \<noteq> [] then got
      else if 7 \<le> length auth \<and> equal_fold U (take 7 auth) ''bearer '' then trim_space (drop 7 auth)
      else [])"

text \<open>\<open>sessions.Get\<close> of the request's cookie, which removes an expired session.\<close>

definition request_session :: "instant \<Rightarrow> request \<Rightarrow> store \<Rightarrow> store \<times> bool" where
  "request_session now r st =
     (let sid = session_id_from_request r in
      if sid = [] then (st, False) else (case session_get now sid st of (st', s) \<Rightarrow> (st', s \<noteq> None)))"

definition check_token :: "http_lib \<Rightarrow> instant \<Rightarrow> string \<Rightarrow> options \<Rightarrow> api_token option" where
  "check_token L now got o' =
     (if got = [] then None
      else (case valid_api_token (hl_rt L) now got o' of (Some t, True) \<Rightarrow> Some t | _ \<Rightarrow> None))"

definition check_auth :: "http_lib \<Rightarrow> instant \<Rightarrow> request \<Rightarrow> server \<Rightarrow> server \<times> auth option" where
  "check_auth L now r S =
     (case request_session now r (sv_sessions S) of
        (st, True) \<Rightarrow> (S\<lparr>sv_sessions := st\<rparr>, Some BySession)
      | (st, False) \<Rightarrow>
          (S\<lparr>sv_sessions := st\<rparr>, map_option ByToken (check_token L now (bearer_token (hl_tab L) r) (opts S))))"

definition scope_for_path :: "string \<Rightarrow> string \<Rightarrow> string" where
  "scope_for_path meth path =
     (if path \<in> set [''/api/v1/health'', ''/api/v1/sensors'', ''/api/v1/rflink/raw'', ''/api/v1/rate_limit'',
           ''/api/v1/serial'', ''/api/v1/config/backups''] then ''read''
      else if path = ''/api/v1/config'' then (if meth = ''GET'' then ''read'' else ''admin'')
      else if path = ''/api/v1/config/restore'' then ''admin''
      else if path \<in> set [''/api/v1/command'', ''/api/v1/ha/rediscover''] then ''command''
      else if path \<in> set [''/api/v1/tokens'', ''/api/v1/sessions''] then ''admin''
      else if has_prefix path ''/api/v1/'' then ''read'' else [])"

text \<open>The refusal of a request whose token lacks the scope.\<close>

definition check_scope :: "unicode \<Rightarrow> auth \<Rightarrow> request \<Rightarrow> response option" where
  "check_scope U kind r =
     (case kind of
        BySession \<Rightarrow> None
      | ByToken tok \<Rightarrow>
          (let need = scope_for_path (hr_Method r) (hr_Path r) in
           if need = [] \<or> has_scope U tok need then None
           else Some (write_json 403 (NObj [(''error'', NText ''insufficient_scope''), (''need'', NText need)]))))"

definition gui_locked :: "options \<Rightarrow> bool" where
  "gui_locked o' = (trim_space (AuthToken (HTTP o')) = [])"

definition effective_read_only :: "options \<Rightarrow> bool" where
  "effective_read_only o' = (ReadOnly (HTTP o') \<or> gui_locked o')"

definition read_only_error :: response where
  "read_only_error = error_json 403 ''read_only''"

definition require_gui_session :: "instant \<Rightarrow> request \<Rightarrow> server \<Rightarrow> server \<times> response option" where
  "require_gui_session now r S =
     (if gui_locked (opts S)
      then (S, Some (write_json 403 (NObj [(''error'', NText ''gui_auth_not_configured''),
                (''hint'', NText ''set HTTP_AUTH_TOKEN to enable GUI administration'')])))
      else (case request_session now r (sv_sessions S) of
              (st, True) \<Rightarrow> (S\<lparr>sv_sessions := st\<rparr>, None)
            | (st, False) \<Rightarrow> (S\<lparr>sv_sessions := st\<rparr>, Some (error_json 401 ''gui_session_required''))))"

section \<open>CSRF\<close>

definition header_csrf :: string where "header_csrf = ''X-CSRF-Token''"
definition cookie_csrf :: string where "cookie_csrf = ''gorflink_csrf''"

text \<open>The value of the CSRF cookie, empty without one, and of the header.\<close>

definition csrf_cookie :: "request \<Rightarrow> string" where
  "csrf_cookie r = (case map_of (hr_Cookies r) cookie_csrf of None \<Rightarrow> [] | Some v \<Rightarrow> v)"

definition csrf_header :: "request \<Rightarrow> string" where
  "csrf_header r = (let h = header_get r header_csrf in if h = [] then header_get r ''X-XSRF-Token'' else h)"

definition check_csrf :: "instant \<Rightarrow> request \<Rightarrow> server \<Rightarrow> server \<times> response option" where
  "check_csrf now r S =
     (case request_session now r (sv_sessions S) of
        (st, True) \<Rightarrow>
          (S\<lparr>sv_sessions := st\<rparr>,
           if csrf_cookie r = []
           then Some (write_json 403 (NObj [(''error'', NText ''csrf_failed''), (''hint'', NText ''missing csrf cookie'')]))
           else if csrf_header r \<noteq> csrf_cookie r then Some (error_json 403 ''csrf_failed'') else None)
      | (st, False) \<Rightarrow> (S\<lparr>sv_sessions := st\<rparr>, None))"

text \<open>The cookie sets \<open>MaxAge\<close> and no \<open>Expires\<close>, here 0.\<close>

definition csrf_token_cookie :: "bool \<Rightarrow> string \<Rightarrow> cookie" where
  "csrf_token_cookie tls tok =
     \<lparr>ck_Name = cookie_csrf, ck_Value = tok, ck_Path = ''/'', ck_HttpOnly = False, ck_SameSiteStrict = True,
      ck_Secure = tls, ck_Expires = 0, ck_MaxAge = 86400\<rparr>"

definition issue_csrf_force :: "draws \<Rightarrow> request \<Rightarrow> bool \<Rightarrow> string \<times> cookie list" where
  "issue_csrf_force d r force_new =
     (if \<not> force_new \<and> 32 \<le> length (csrf_cookie r) then (csrf_cookie r, [])
      else (let tok = (case random_hex (d_csrf d) of Inl _ \<Rightarrow> show_int (d_now d) | Inr h \<Rightarrow> h)
            in (tok, [csrf_token_cookie (hr_TLS r) tok])))"

definition issue_csrf :: "draws \<Rightarrow> request \<Rightarrow> string \<times> cookie list" where
  "issue_csrf d r = issue_csrf_force d r False"

definition handle_csrf :: "draws \<Rightarrow> request \<Rightarrow> response" where
  "handle_csrf d r =
     (if hr_Method r \<noteq> ''GET'' then method_not_allowed
      else (case issue_csrf d r of
              (tok, cs) \<Rightarrow> (write_json 200 (NObj [(''csrf_token'', NText tok)]))\<lparr>rp_Cookies := cs\<rparr>))"

section \<open>The guard of the handlers\<close>

definition mutating :: "string \<Rightarrow> bool" where
  "mutating meth = (meth \<in> set [''POST'', ''PUT'', ''PATCH'', ''DELETE''])"

definition protect ::
  "http_lib \<Rightarrow> draws \<Rightarrow> (request \<Rightarrow> server \<Rightarrow> server \<times> response) \<Rightarrow> request \<Rightarrow> server \<Rightarrow> server \<times> response" where
  "protect L d next_handler r S =
     (case check_auth L (d_now d) r S of
        (S1, None) \<Rightarrow> (S1, error_json 401 ''unauthorized'')
      | (S1, Some kind) \<Rightarrow>
          (case (if mutating (hr_Method r) then check_csrf (d_now d) r S1 else (S1, None)) of
             (S2, Some refusal) \<Rightarrow> (S2, refusal)
           | (S2, None) \<Rightarrow>
               (case check_scope (hl_tab L) kind r of
                  Some refusal \<Rightarrow> (S2, refusal)
                | None \<Rightarrow> next_handler r S2)))"

text \<open>\<open>checkAuthWS\<close> also reads \<open>?token=\<close>, and does not look at scopes.\<close>

definition check_auth_ws :: "http_lib \<Rightarrow> instant \<Rightarrow> request \<Rightarrow> server \<Rightarrow> server \<times> bool" where
  "check_auth_ws L now r S =
     (case request_session now r (sv_sessions S) of
        (st, True) \<Rightarrow> (S\<lparr>sv_sessions := st\<rparr>, True)
      | (st, False) \<Rightarrow>
          (let got = bearer_token (hl_tab L) r; got' = (if got = [] then trim_space (query_get r ''token'') else got)
           in (S\<lparr>sv_sessions := st\<rparr>, check_token L now got' (opts S) \<noteq> None)))"

section \<open>Sessions\<close>

text \<open>\<open>ip\<close> is what \<open>middlewareRealIP\<close> put into the context.\<close>

definition login_address :: "string \<Rightarrow> request \<Rightarrow> string" where
  "login_address ip r = (if ip = [] then hr_RemoteAddr r else ip)"

text \<open>The part of \<open>sessionLogin\<close> before the body is read: the CSRF check, and the limiter.\<close>

definition login_gate :: "instant \<Rightarrow> string \<Rightarrow> request \<Rightarrow> server \<Rightarrow> server \<times> response option" where
  "login_gate now ip r S =
     (if csrf_cookie r \<noteq> [] \<and> csrf_header r \<noteq> csrf_cookie r then (S, Some (error_json 403 ''csrf_failed''))
      else (case login_allow now (login_address ip r) (sv_login S) of
              (l, False, retry) \<Rightarrow>
                (S\<lparr>sv_login := l\<rparr>,
                 Some ((write_json 429 (NObj [(''error'', NText ''too_many_attempts''),
                          (''retry_after_sec'', NInt (whole_seconds retry + 1))]))
                       \<lparr>rp_Headers := [(''Retry-After'', show_int (whole_seconds retry + 1)),
                          (''Content-Type'', ''application/json; charset=utf-8''), (''Cache-Control'', ''no-store'')]\<rparr>))
            | (l, True, _) \<Rightarrow> (S\<lparr>sv_login := l\<rparr>, None)))"

definition login_token :: "http_lib \<Rightarrow> request \<Rightarrow> string" where
  "login_token L r =
     (let body = fst (read_body r); tok = hl_login_token L body in if tok = [] then trim_space body else tok)"

text \<open>The rest: look at the token, note the outcome, create the session.\<close>

definition login_finish :: "http_lib \<Rightarrow> draws \<Rightarrow> string \<Rightarrow> request \<Rightarrow> server \<Rightarrow> server \<times> response" where
  "login_finish L d ip r S =
     (let addr = login_address ip r in
      if gui_locked (opts S) then (S, error_json 400 ''gui_auth_not_configured'')
      else if \<not> gui_token_ok (login_token L r) (opts S)
        then (S\<lparr>sv_login := login_fail (d_now d) (d_now d) addr (sv_login S)\<rparr>, error_json 401 ''unauthorized'')
      else (let S1 = S\<lparr>sv_login := login_success addr (sv_login S)\<rparr> in
            case session_create (d_evict_rank d) (random_session_id (d_session_id d)) (d_now d) addr (sv_sessions S1) of
              (st, Inl e) \<Rightarrow> (S1\<lparr>sv_sessions := st\<rparr>, error_json 500 ''session_create_failed'')
            | (st, Inr s) \<Rightarrow>
                (case issue_csrf_force d r True of
                   (csrf, cs) \<Rightarrow>
                     (S1\<lparr>sv_sessions := st\<rparr>,
                      (write_json 200 (NObj [(''status'', NText ''ok''),
                         (''expires_at'', NText (rl_format (hl_rt L) (ses_ExpiresAt s))),
                         (''ttl_hours'', NInt 72), (''csrf_token'', NText csrf)]))
                      \<lparr>rp_Cookies := set_session_cookie (d_now d) (hr_TLS r) s # cs\<rparr>))))"

definition session_login :: "http_lib \<Rightarrow> draws \<Rightarrow> string \<Rightarrow> request \<Rightarrow> server \<Rightarrow> server \<times> response" where
  "session_login L d ip r S =
     (case login_gate (d_now d) ip r S of
        (S1, Some refusal) \<Rightarrow> (S1, refusal)
      | (S1, None) \<Rightarrow> login_finish L d ip r S1)"

definition session_logout :: "instant \<Rightarrow> request \<Rightarrow> server \<Rightarrow> server \<times> response" where
  "session_logout now r S =
     (case check_csrf now r S of
        (S1, Some refusal) \<Rightarrow> (S1, refusal)
      | (S1, None) \<Rightarrow>
          (let sid = session_id_from_request r;
               S2 = (if sid \<noteq> [] then S1\<lparr>sv_sessions := fst (session_revoke sid (sv_sessions S1))\<rparr> else S1)
           in (S2, (write_json 200 (NObj [(''status'', NText ''ok'')]))\<lparr>rp_Cookies := [clear_session_cookie (hr_TLS r)]\<rparr>)))"

definition session_status :: "http_lib \<Rightarrow> instant \<Rightarrow> request \<Rightarrow> server \<Rightarrow> server \<times> response" where
  "session_status L now r S =
     (case session_get now (session_id_from_request r) (sv_sessions S) of
        (st, None) \<Rightarrow> (S\<lparr>sv_sessions := st\<rparr>, write_json 200 (NObj [(''authenticated'', NFlag False)]))
      | (st, Some s) \<Rightarrow>
          (S\<lparr>sv_sessions := st\<rparr>,
           write_json 200 (NObj [(''authenticated'', NFlag True),
             (''expires_at'', NText (rl_format (hl_rt L) (ses_ExpiresAt s)))])))"

definition handle_session :: "http_lib \<Rightarrow> draws \<Rightarrow> string \<Rightarrow> request \<Rightarrow> server \<Rightarrow> server \<times> response" where
  "handle_session L d ip r S =
     (if hr_Method r = ''POST'' then session_login L d ip r S
      else if hr_Method r = ''DELETE'' then session_logout (d_now d) r S
      else if hr_Method r = ''GET'' then session_status L (d_now d) r S
      else (S, method_not_allowed))"

end
