(* ===== verification/HttpApi.thy ===== *)
theory HttpApi
  imports HttpAuth
begin

text \<open>
  The handlers of \<open>rflink/http_server.go\<close> and \<open>handleRawWS\<close>, the routes of \<open>startHTTPServer\<close> with their
  middleware, and what the guards promise for every request.
\<close>

section \<open>Probes and status\<close>

definition handle_healthz :: "request \<Rightarrow> response" where
  "handle_healthz r =
     (if hr_Method r \<noteq> ''GET'' then method_not_allowed
      else \<lparr>rp_Status = 200, rp_Headers = [(''Content-Type'', ''text/plain; charset=utf-8'')], rp_Cookies = [],
             rp_Reply = RText (''ok'' @ [CHR 0x0A])\<rparr>)"

definition health_of :: "http_lib \<Rightarrow> instant \<Rightarrow> server \<Rightarrow> health_snapshot" where
  "health_of L now S = publisher_snapshot (hl_env L) (opts S) now (ap_pub (sv_app S))"

definition handle_readyz :: "http_lib \<Rightarrow> instant \<Rightarrow> request \<Rightarrow> server \<Rightarrow> response" where
  "handle_readyz L now r S =
     (if hr_Method r \<noteq> ''GET'' then method_not_allowed
      else (let snap = health_of L now S;
                up = [(''mqtt_connected'', NFlag (hs_MQTTConnected snap)), (''serial_connected'', NFlag (hs_SerialConnected snap))]
            in if \<not> hs_MQTTConnected snap \<and> \<not> hs_SerialConnected snap
               then write_json 503 (NObj ((''status'', NText ''not_ready'') # up))
               else write_json 200 (NObj ((''status'', NText ''ready'') # up))))"

definition handle_api_health :: "http_lib \<Rightarrow> draws \<Rightarrow> request \<Rightarrow> server \<Rightarrow> server \<times> response" where
  "handle_api_health L d r S =
     (S, if hr_Method r \<noteq> ''GET'' then method_not_allowed else write_json 200 (NHealth (health_of L (d_now d) S)))"

definition handle_api_sensors :: "http_lib \<Rightarrow> request \<Rightarrow> server \<Rightarrow> server \<times> response" where
  "handle_api_sensors L r S =
     (S, if hr_Method r \<noteq> ''GET'' then method_not_allowed
         else write_json 200 (NObj
           ((''last_seen'', NObj (map (\<lambda>(k, v). (k, NText v)) (sensors_last_seen (hl_env L) (ap_pub (sv_app S)))))
            # (if query_get r ''samples'' = ''1'' \<or> query_get r ''samples'' = ''true''
               then [(''recent'', NSamples (recent_sensor_samples (ap_pub (sv_app S))))] else []))))"

definition handle_api_raw :: "request \<Rightarrow> server \<Rightarrow> server \<times> response" where
  "handle_api_raw r S =
     (S, if hr_Method r \<noteq> ''GET'' then method_not_allowed
         else write_json 200 (NObj [(''lines'', NLines (recent_raw_lines (ap_pub (sv_app S))))]))"

definition gui_warning :: string where
  "gui_warning = ''HTTP_AUTH_TOKEN is not set '' @ [CHR 0xE2, CHR 0x80, CHR 0x94]
     @ '' GUI is locked (read-only, no raw/ws/admin). Set HTTP_AUTH_TOKEN and restart.''"

definition handle_meta :: "http_lib \<Rightarrow> instant \<Rightarrow> request \<Rightarrow> server \<Rightarrow> server \<times> response" where
  "handle_meta L now r S =
     (if hr_Method r \<noteq> ''GET'' then (S, method_not_allowed)
      else (case request_session now r (sv_sessions S) of
              (st, authed) \<Rightarrow>
                (S\<lparr>sv_sessions := st\<rparr>,
                 (let gui_auth = \<not> gui_locked (opts S) in
                  write_json 200 (NObj
                    [(''gui_auth_required'', NFlag gui_auth), (''gui_auth_configured'', NFlag gui_auth),
                     (''gui_locked'', NFlag (\<not> gui_auth)), (''api_auth_required'', NFlag True),
                     (''authenticated'', NFlag authed), (''read_only'', NFlag (effective_read_only (opts S))),
                     (''http_read_only'', NFlag (ReadOnly (HTTP (opts S)))), (''gui'', NFlag (GUI (HTTP (opts S)))),
                     (''runtime_path'', NText (rm_path (sv_runtime S))), (''version'', NText (e_version (hl_env L))),
                     (''git_sha'', NText (e_git_sha (hl_env L))),
                     (''warning'', NText (if \<not> gui_auth then gui_warning else []))])))))"

definition handle_api_rate_limit :: "draws \<Rightarrow> request \<Rightarrow> server \<Rightarrow> server \<times> response" where
  "handle_api_rate_limit d r S =
     (if hr_Method r \<noteq> ''GET'' then (S, method_not_allowed)
      else (case command_rate_status (opts S) (d_now d) (sv_app S) of
              (a, per_sec, left, unlim) \<Rightarrow>
                (S\<lparr>sv_app := a\<rparr>,
                 write_json 200 (NObj [(''unlimited'', NFlag unlim), (''limit_per_sec'', NInt per_sec),
                   (''remaining'', NNum left), (''read_only'', NFlag (effective_read_only (opts S)))]))))"

definition handle_serial_info :: "http_lib \<Rightarrow> draws \<Rightarrow> request \<Rightarrow> server \<Rightarrow> server \<times> response" where
  "handle_serial_info L d r S =
     (S, if hr_Method r \<noteq> ''GET'' then method_not_allowed
         else (let s = Serial (opts S); snap = health_of L (d_now d) S in
           write_json 200 (NObj
             [(''device'', NText (Device s)), (''baud'', NInt (Baud s)), (''read_timeout_sec'', NInt (ReadTimeoutSec s)),
              (''reconnect_min_sec'', NInt (ReconnectMinDelaySec s)), (''reconnect_max_sec'', NInt (ReconnectMaxDelaySec s)),
              (''watchdog_sec'', NInt (WatchdogSec s)), (''ping_interval_sec'', NInt (PingIntervalSec s)),
              (''ping_timeout_sec'', NInt (PingTimeoutSec s)), (''ping_fail_threshold'', NInt (PingFailThreshold s)),
              (''connected'', NFlag (hs_SerialConnected snap)), (''last_serial_at'', NText (hs_LastSerialAt snap)),
              (''last_pong_at'', NText (hs_LastPongAt snap)), (''rflink_unresponsive'', NFlag (hs_RFLinkUnresponsive snap)),
              (''note'', NText ''SERIAL_* is deploy-time config (env only); change requires restart'')])))"

section \<open>Commands\<close>

definition command_payload :: "http_lib \<Rightarrow> string \<Rightarrow> string" where
  "command_payload L body =
     (let payload = trim_space body in
      if has_prefix payload ''{''
      then (case hl_command L body of Some c \<Rightarrow> if c \<noteq> [] then c else payload | None \<Rightarrow> payload)
      else payload)"

definition command_status :: "string \<Rightarrow> nat" where
  "command_status s =
     (if s = ''rejected'' \<or> s = ''rate_limited'' then 400 else if s = ''serial_down'' \<or> s = ''error'' then 503 else 200)"

definition handle_api_command :: "http_lib \<Rightarrow> draws \<Rightarrow> request \<Rightarrow> server \<Rightarrow> server \<times> response" where
  "handle_api_command L d r S =
     (if hr_Method r \<noteq> ''POST'' then (S, method_not_allowed)
      else if effective_read_only (opts S) then (S, read_only_error)
      else (case read_body r of
              (body, True) \<Rightarrow> (S, error_json 400 ''read body failed'')
            | (body, False) \<Rightarrow>
                (let payload = command_payload L body in
                 if payload = [] then (S, error_json 400 ''empty command'')
                 else (case execute_command (hl_env L) (hl_driver L) (hl_quoting L) (opts S) (d_now d) payload (sv_app S) of
                         (a, res) \<Rightarrow> (S\<lparr>sv_app := a\<rparr>, write_json (command_status (cr_Status res)) (NCommand res))))))"

definition handle_api_rediscover :: "http_lib \<Rightarrow> request \<Rightarrow> server \<Rightarrow> server \<times> response" where
  "handle_api_rediscover L r S =
     (if hr_Method r \<noteq> ''POST'' then (S, method_not_allowed)
      else if effective_read_only (opts S) then (S, read_only_error)
      else (S\<lparr>sv_app := with_pub (clear_ha_discovery (hl_env L) (opts S)) (sv_app S)\<rparr>,
            write_json 200 (NObj [(''status'', NText ''ok'')])))"

section \<open>Settings\<close>

text \<open>A save, and the callback that reloads the webhooks.\<close>

definition save_runtime ::
  "http_lib \<Rightarrow> draws \<Rightarrow> runtime_file \<Rightarrow> server \<Rightarrow> server \<times> (rt_error + string list)" where
  "save_runtime L d patch S =
     (case save_overlay (hl_rt L) (hl_fs L) (d_now d) patch (sv_runtime S) of
        (m, Inl e) \<Rightarrow> (S\<lparr>sv_runtime := m\<rparr>, Inl e)
      | (m, Inr keys) \<Rightarrow>
          (S\<lparr>sv_runtime := m, sv_hooks := hooks_reload (hl_tab L) (rm_opts m) (sv_hooks S)\<rparr>, Inr keys))"

definition effective_csv :: "string \<Rightarrow> string option \<Rightarrow> string \<Rightarrow> string" where
  "effective_csv src file_value env_value =
     (if src = ''runtime'' then (case file_value of Some v \<Rightarrow> v | None \<Rightarrow> env_value) else env_value)"

definition effective_friendly_csv :: "server \<Rightarrow> string" where
  "effective_friendly_csv S = (case runtime_snapshot (sv_runtime S) of
     (file, src) \<Rightarrow> effective_csv (src_FriendlyNames src) (rf_FriendlyNames file) (FriendlyNames (Publish (opts S))))"

definition effective_ignore_csv :: "server \<Rightarrow> string" where
  "effective_ignore_csv S = (case runtime_snapshot (sv_runtime S) of
     (file, src) \<Rightarrow> effective_csv (src_IgnoreList src) (rf_IgnoreList file) (IgnoreList (Publish (opts S))))"

definition effective_hwid_csv :: "server \<Rightarrow> string" where
  "effective_hwid_csv S = (case runtime_snapshot (sv_runtime S) of
     (file, src) \<Rightarrow> effective_csv (src_HWIDMap src) (rf_HWIDMap file) (HWIDMap (Publish (opts S))))"

text \<open>The answer after a save.\<close>

definition save_reply :: "server \<times> (rt_error + string list) \<Rightarrow> (string list \<Rightarrow> (string \<times> json) list) \<Rightarrow> server \<times> response" where
  "save_reply x ok =
     (fst x, case snd x of Inl e \<Rightarrow> write_json 500 (NObj [(''error'', NRtError e)])
             | Inr keys \<Rightarrow> write_json 200 (NObj (ok keys)))"

text \<open>A slice that is \<open>nil\<close> when it has no elements.\<close>

definition nil_list :: "json list \<Rightarrow> json" where
  "nil_list js = (if js = [] then NNull else NList js)"

definition backups_json :: "http_lib \<Rightarrow> server \<Rightarrow> json" where
  "backups_json L S = nil_list (map (\<lambda>(slot, path, size, t). NObj [(''slot'', NInt (int slot)), (''path'', NText path),
     (''size'', NInt (int size)), (''mod_time'', NText (rl_format (hl_rt L) t))]) (list_backups (hl_fs L) (sv_runtime S)))"

definition settings_json :: "server \<Rightarrow> (string \<times> json) list" where
  "settings_json S =
     [(''friendly_names'', NText (effective_friendly_csv S)), (''ignore_list'', NText (effective_ignore_csv S)),
      (''hwid_map'', NText (effective_hwid_csv S)),
      (''ha_discovery'', NFlag (HomeAssistantDiscovery (Publish (opts S)))),
      (''ha_discovery_prefix'', NText (HADiscoveryPrefix (Publish (opts S)))),
      (''ha_buttons'', NText (HAButtons (Publish (opts S)))), (''ha_switches'', NText (HASwitches (Publish (opts S)))),
      (''source'', NSource (snd (runtime_snapshot (sv_runtime S))))]"

definition get_config :: "http_lib \<Rightarrow> server \<Rightarrow> response" where
  "get_config L S = write_json 200 (NObj (settings_json S @
     [(''runtime_path'', NText (rm_path (sv_runtime S))), (''backups'', backups_json L S),
      (''note'', NText ''When a key is stored in runtime file it fully overrides env for that key'')]))"

text \<open>A field of the request: its error, or its value for the patch.\<close>

definition config_field :: "(string \<Rightarrow> csv_error + unit) \<Rightarrow> string option \<Rightarrow> csv_error list \<times> string option" where
  "config_field check x =
     (case x of
        None \<Rightarrow> ([], None)
      | Some s \<Rightarrow> (let v = trim_space s in case check v of Inl e \<Rightarrow> ([e], None) | Inr _ \<Rightarrow> ([], Some v)))"

definition config_errors :: "config_request \<Rightarrow> csv_error list" where
  "config_errors q =
     fst (config_field validate_friendly_names_csv (cq_FriendlyNames q))
     @ fst (config_field validate_ignore_list_csv (cq_IgnoreList q))
     @ fst (config_field validate_hwid_map_csv (cq_HWIDMap q))
     @ fst (config_field validate_ha_discovery_prefix (cq_HADiscoveryPrefix q))
     @ fst (config_field validate_ha_buttons_csv (cq_HAButtons q))
     @ fst (config_field validate_ha_switches_csv (cq_HASwitches q))"

text \<open>Discovery with an empty prefix gets the default one.\<close>

definition config_prefix :: "options \<Rightarrow> config_request \<Rightarrow> string option" where
  "config_prefix o' q =
     (let disc = (case cq_HADiscovery q of Some b \<Rightarrow> b | None \<Rightarrow> HomeAssistantDiscovery (Publish o'));
          pfx = (case cq_HADiscoveryPrefix q of Some s \<Rightarrow> trim_space s | None \<Rightarrow> HADiscoveryPrefix (Publish o'))
      in if disc \<and> pfx = [] then Some ''homeassistant''
         else snd (config_field validate_ha_discovery_prefix (cq_HADiscoveryPrefix q)))"

definition nil_runtime_file :: runtime_file where
  "nil_runtime_file = empty_runtime_file\<lparr>rf_Version := 0\<rparr>"

definition config_patch :: "options \<Rightarrow> config_request \<Rightarrow> runtime_file" where
  "config_patch o' q = nil_runtime_file\<lparr>
     rf_FriendlyNames := snd (config_field validate_friendly_names_csv (cq_FriendlyNames q)),
     rf_IgnoreList := snd (config_field validate_ignore_list_csv (cq_IgnoreList q)),
     rf_HWIDMap := snd (config_field validate_hwid_map_csv (cq_HWIDMap q)),
     rf_HADiscovery := cq_HADiscovery q, rf_HADiscoveryPrefix := config_prefix o' q,
     rf_HAButtons := snd (config_field validate_ha_buttons_csv (cq_HAButtons q)),
     rf_HASwitches := snd (config_field validate_ha_switches_csv (cq_HASwitches q))\<rparr>"

definition first_time_warning :: "string list \<Rightarrow> string" where
  "first_time_warning keys =
     (if keys = [] then []
      else ''These keys are now owned by runtime file (env ignored for them): '' @ join '', '' keys)"

definition put_config :: "http_lib \<Rightarrow> draws \<Rightarrow> request \<Rightarrow> server \<Rightarrow> server \<times> response" where
  "put_config L d r S =
     (if effective_read_only (opts S) then (S, read_only_error)
      else (case read_body r of
              (body, True) \<Rightarrow> (S, error_json 400 ''read body failed'')
            | (body, False) \<Rightarrow>
                (case hl_config L body of
                   None \<Rightarrow> (S, error_json 400 ''invalid json'')
                 | Some q \<Rightarrow>
                     if config_errors q \<noteq> []
                     then (S, write_json 400 (NObj [(''error'', NText ''validation_failed''),
                            (''details'', NCsvErrors (config_errors q))]))
                     else (let saved = save_runtime L d (config_patch (opts S) q) S; S1 = fst saved in
                           save_reply saved (\<lambda>keys. settings_json S1 @
                             [(''first_time_keys'', NTexts keys), (''warning'', NText (first_time_warning keys)),
                              (''runtime_path'', NText (rm_path (sv_runtime S1))), (''backups'', backups_json L S1)])))))"

definition handle_api_config :: "http_lib \<Rightarrow> draws \<Rightarrow> request \<Rightarrow> server \<Rightarrow> server \<times> response" where
  "handle_api_config L d r S =
     (if hr_Method r = ''GET'' then (S, get_config L S)
      else if hr_Method r = ''PUT'' \<or> hr_Method r = ''PATCH'' then put_config L d r S
      else (S, method_not_allowed))"

definition handle_config_backups :: "http_lib \<Rightarrow> request \<Rightarrow> server \<Rightarrow> server \<times> response" where
  "handle_config_backups L r S =
     (S, if hr_Method r \<noteq> ''GET'' then method_not_allowed else write_json 200 (NObj [(''backups'', backups_json L S)]))"

definition handle_config_restore :: "http_lib \<Rightarrow> draws \<Rightarrow> request \<Rightarrow> server \<Rightarrow> server \<times> response" where
  "handle_config_restore L d r S =
     (if hr_Method r \<noteq> ''POST'' then (S, method_not_allowed)
      else if effective_read_only (opts S) then (S, read_only_error)
      else (case hl_slot L (fst (read_body r)) of
              None \<Rightarrow> (S, error_json 400 ''slot required (1-3)'')
            | Some slot \<Rightarrow>
                if slot < 1 then (S, error_json 400 ''slot required (1-3)'')
                else (case restore_backup (hl_rt L) (hl_fs L) (d_now d) slot (sv_runtime S) of
                        (m, Some e) \<Rightarrow> (S\<lparr>sv_runtime := m\<rparr>, write_json 400 (NObj [(''error'', NRtError e)]))
                      | (m, None) \<Rightarrow>
                          (let S1 = S\<lparr>sv_runtime := m\<rparr> in
                           (S1, write_json 200 (NObj [(''status'', NText ''restored''), (''slot'', NInt slot),
                              (''friendly_names'', NText (effective_friendly_csv S1)),
                              (''ignore_list'', NText (effective_ignore_csv S1)),
                              (''source'', NSource (snd (runtime_snapshot m)))]))))))"

section \<open>Sessions and webhooks\<close>

definition session_json :: "http_lib \<Rightarrow> string \<Rightarrow> string \<times> string \<times> string \<times> instant \<times> instant \<Rightarrow> json" where
  "session_json L cur row = (case row of (sid, pre, ip, created, expires) \<Rightarrow>
     NObj ([(''id'', NText sid), (''id_prefix'', NText pre), (''ip'', NText ip),
       (''created_at'', NText (rl_format (hl_rt L) created)), (''expires_at'', NText (rl_format (hl_rt L) expires))]
       @ (if sid = cur then [(''current'', NFlag True)] else [])))"

definition delete_sessions :: "http_lib \<Rightarrow> request \<Rightarrow> server \<Rightarrow> server \<times> response" where
  "delete_sessions L r S =
     (case hl_revoke L (fst (read_body r)) of (req_id, req_all) \<Rightarrow>
        (let all_others = (req_all \<or> query_get r ''all'' = ''1'' \<or> equal_fold (hl_tab L) (query_get r ''all'') ''true'');
             sid0 = trim_space req_id; sid = (if sid0 = [] then trim_space (query_get r ''id'') else sid0);
             cur = session_id_from_request r in
         if all_others
         then (case revoke_all_except cur (sv_sessions S) of
                 (st, n) \<Rightarrow> (S\<lparr>sv_sessions := st\<rparr>,
                   write_json 200 (NObj [(''status'', NText ''revoked''), (''count'', NInt (int n))])))
         else if sid = [] then (S, error_json 400 ''id or all required'')
         else (case session_revoke sid (sv_sessions S) of
                 (st, True) \<Rightarrow> (S\<lparr>sv_sessions := st\<rparr>,
                   (write_json 200 (NObj [(''status'', NText ''revoked'')]))
                     \<lparr>rp_Cookies := (if sid = cur then [clear_session_cookie (hr_TLS r)] else [])\<rparr>)
               | (st, False) \<Rightarrow> (S\<lparr>sv_sessions := st\<rparr>, error_json 404 ''not_found''))))"

definition handle_sessions :: "http_lib \<Rightarrow> draws \<Rightarrow> request \<Rightarrow> server \<Rightarrow> server \<times> response" where
  "handle_sessions L d r S =
     (case require_gui_session (d_now d) r S of
        (S1, Some refusal) \<Rightarrow> (S1, refusal)
      | (S1, None) \<Rightarrow>
          if hr_Method r = ''GET'' then
            (let list = list_sessions (d_rank d) (d_now d) (sv_sessions S1) in
             (S1, write_json 200 (NObj [(''sessions'', NList (map (session_json L (session_id_from_request r)) list)),
                (''count'', NInt (int (length list)))])))
          else if hr_Method r = ''DELETE'' then delete_sessions L r S1
          else (S1, method_not_allowed))"

definition load_webhook_list :: "server \<Rightarrow> webhook list" where
  "load_webhook_list S =
     (case runtime_snapshot (sv_runtime S) of (file, src) \<Rightarrow>
        if src_Webhooks src = ''runtime'' then (case rf_Webhooks file of Some hs \<Rightarrow> hs | None \<Rightarrow> [])
        else webhooks (opts S))"

text \<open>More than \<open>maxWebhooks\<close> are not saved.\<close>

definition persist_webhooks ::
  "http_lib \<Rightarrow> draws \<Rightarrow> webhook list \<Rightarrow> server \<Rightarrow> server \<times> (rt_error option + string list)" where
  "persist_webhooks L d hs S =
     (if max_webhooks < length hs then (S, Inl None)
      else (case save_runtime L d (nil_runtime_file\<lparr>rf_Webhooks := Some hs\<rparr>) S of
              (S1, Inl e) \<Rightarrow> (S1, Inl (Some e))
            | (S1, Inr keys) \<Rightarrow> (S1, Inr keys)))"

definition persist_error :: "rt_error option \<Rightarrow> response" where
  "persist_error e = (case e of None \<Rightarrow> error_json 500 ''too many webhooks (max 8)''
     | Some x \<Rightarrow> write_json 500 (NObj [(''error'', NRtError x)]))"

definition same_name :: "unicode \<Rightarrow> string \<Rightarrow> string \<Rightarrow> bool" where
  "same_name U a b = (to_lower U a = to_lower U b)"

definition new_webhook_id :: "string + nat list \<Rightarrow> instant \<Rightarrow> string" where
  "new_webhook_id rnd now = (case rnd of Inl _ \<Rightarrow> show_int now | Inr bs \<Rightarrow> hex_encode bs)"

definition create_webhook :: "http_lib \<Rightarrow> draws \<Rightarrow> request \<Rightarrow> server \<Rightarrow> server \<times> response" where
  "create_webhook L d r S =
     (if effective_read_only (opts S) then (S, read_only_error)
      else (case hl_hook L (fst (read_body r)) of
              None \<Rightarrow> (S, error_json 400 ''invalid json'')
            | Some req0 \<Rightarrow>
                (case validate_webhook_config (hl_tab L) (rl_net (hl_rt L)) (d_rank d) req0 of
                   Inl e \<Rightarrow> (S, write_json 400 (NObj [(''error'', NHookError e)]))
                 | Inr req1 \<Rightarrow>
                     (let req = req1\<lparr>wh_ID := new_webhook_id (d_hook_id d) (d_now d), wh_CreatedAt := rl_format (hl_rt L) (d_now d)\<rparr>;
                          list = load_webhook_list S in
                      if max_webhooks \<le> length list then (S, error_json 400 ''max webhooks reached'')
                      else if list_ex (\<lambda>h. same_name (hl_tab L) (wh_Name h) (wh_Name req)) list
                        then (S, error_json 409 ''name already exists'')
                      else (case persist_webhooks L d (list @ [req]) S of
                              (S1, Inl e) \<Rightarrow> (S1, persist_error e)
                            | (S1, Inr keys) \<Rightarrow>
                                (S1, write_json 200 (NObj [(''webhook'', NView (webhook_public_view req)),
                                   (''first_time_keys'', NTexts keys), (''warning'', NText (first_time_warning keys))])))))))"

text \<open>The loop that replaces the hook; its creation time stays, and its headers if none are sent.\<close>

fun replace_hook :: "webhook \<Rightarrow> webhook list \<Rightarrow> (webhook \<times> webhook list) option" where
  "replace_hook req [] = None"
| "replace_hook req (h # hs) =
     (if wh_ID h = wh_ID req
      then (let req' = req\<lparr>wh_CreatedAt := wh_CreatedAt h,
              wh_Headers := (if wh_Headers req = [] \<and> wh_Headers h \<noteq> [] then wh_Headers h else wh_Headers req)\<rparr>
            in Some (req', req' # hs))
      else (case replace_hook req hs of None \<Rightarrow> None | Some (req', hs') \<Rightarrow> Some (req', h # hs')))"

definition update_webhook :: "http_lib \<Rightarrow> draws \<Rightarrow> request \<Rightarrow> server \<Rightarrow> server \<times> response" where
  "update_webhook L d r S =
     (if effective_read_only (opts S) then (S, read_only_error)
      else (case hl_hook L (fst (read_body r)) of
              None \<Rightarrow> (S, error_json 400 ''id required'')
            | Some req0 \<Rightarrow>
                if trim_space (wh_ID req0) = [] then (S, error_json 400 ''id required'')
                else (case validate_webhook_config (hl_tab L) (rl_net (hl_rt L)) (d_rank d) req0 of
                   Inl e \<Rightarrow> (S, write_json 400 (NObj [(''error'', NHookError e)]))
                 | Inr req \<Rightarrow>
                     (let list = load_webhook_list S in
                      if list_ex (\<lambda>h. wh_ID h \<noteq> wh_ID req \<and> same_name (hl_tab L) (wh_Name h) (wh_Name req)) list
                      then (S, error_json 409 ''name already exists'')
                      else (case replace_hook req list of
                              None \<Rightarrow> (S, error_json 404 ''not_found'')
                            | Some (req', list') \<Rightarrow>
                                (case persist_webhooks L d list' S of
                                   (S1, Inl e) \<Rightarrow> (S1, persist_error e)
                                 | (S1, Inr _) \<Rightarrow>
                                     (S1, write_json 200 (NObj [(''webhook'', NView (webhook_public_view req'))]))))))))"

definition delete_webhook :: "http_lib \<Rightarrow> draws \<Rightarrow> request \<Rightarrow> server \<Rightarrow> server \<times> response" where
  "delete_webhook L d r S =
     (if effective_read_only (opts S) then (S, read_only_error)
      else (let q = trim_space (query_get r ''id'');
                hid = (if q = [] then trim_space (hl_hook_id L (fst (read_body r))) else q);
                list = load_webhook_list S; filtered = filter (\<lambda>h. wh_ID h \<noteq> hid) list in
            if hid = [] then (S, error_json 400 ''id required'')
            else if length filtered = length list then (S, error_json 404 ''not_found'')
            else (case persist_webhooks L d filtered S of
                    (S1, Inl e) \<Rightarrow> (S1, persist_error e)
                  | (S1, Inr _) \<Rightarrow> (S1, write_json 200 (NObj [(''status'', NText ''ok'')])))))"

definition handle_webhooks :: "http_lib \<Rightarrow> draws \<Rightarrow> request \<Rightarrow> server \<Rightarrow> server \<times> response" where
  "handle_webhooks L d r S =
     (case require_gui_session (d_now d) r S of
        (S1, Some refusal) \<Rightarrow> (S1, refusal)
      | (S1, None) \<Rightarrow>
          if hr_Method r = ''GET'' then
            (S1, write_json 200 (NObj [(''webhooks'', NList (map (\<lambda>h. NView (webhook_public_view h)) (load_webhook_list S1))),
               (''source'', NText (src_Webhooks (snd (runtime_snapshot (sv_runtime S1))))), (''max'', NInt (int max_webhooks))]))
          else if hr_Method r = ''POST'' then create_webhook L d r S1
          else if hr_Method r = ''PUT'' then update_webhook L d r S1
          else if hr_Method r = ''DELETE'' then delete_webhook L d r S1
          else (S1, method_not_allowed))"

section \<open>API tokens\<close>

text \<open>A token of the environment as an entry of the file.\<close>

definition token_entry :: "http_lib \<Rightarrow> api_token \<Rightarrow> runtime_token" where
  "token_entry L t = \<lparr>rt_Name = tok_Name t, rt_TokenHash = tok_Hash t, rt_TokenSuffix = tok_Suffix t,
     rt_ExpiresAt = map_option (rl_format (hl_rt L)) (tok_ExpiresAt t),
     rt_CreatedAt = rl_format (hl_rt L) (tok_CreatedAt t), rt_Scopes = tok_Scopes t\<rparr>"

definition stored_tokens :: "http_lib \<Rightarrow> server \<Rightarrow> runtime_token list" where
  "stored_tokens L S =
     (case runtime_snapshot (sv_runtime S) of (file, src) \<Rightarrow>
        if src_APITokens src = ''runtime'' then (case rf_APITokens file of Some ts \<Rightarrow> ts | None \<Rightarrow> [])
        else map (token_entry L) (apiTokens (opts S)))"

definition null_or_text :: "string option \<Rightarrow> json" where
  "null_or_text x = (case x of None \<Rightarrow> NNull | Some s \<Rightarrow> NText s)"

definition list_api_tokens :: "http_lib \<Rightarrow> server \<Rightarrow> response" where
  "list_api_tokens L S =
     (let from_env = src_APITokens (snd (runtime_snapshot (sv_runtime S))) \<noteq> ''runtime'' in
      write_json 200 (NObj [(''tokens'', nil_list (map (\<lambda>t. NObj
        ([(''name'', NText (rt_Name t)), (''suffix'', NText (rt_TokenSuffix t)),
          (''expires_at'', null_or_text (rt_ExpiresAt t)), (''created_at'', NText (rt_CreatedAt t))]
         @ (if from_env then [(''from_env'', NFlag True)] else []) @ [(''scopes'', NTexts (rt_Scopes t))]))
        (stored_tokens L S))), (''source'', NText (src_APITokens (snd (runtime_snapshot (sv_runtime S)))))]))"

definition new_token_scopes :: "http_lib \<Rightarrow> string list \<Rightarrow> string list" where
  "new_token_scopes L scopes =
     (if scopes = [] then default_api_token_scopes else parse_scope_list (hl_tab L) (join '','' scopes))"

definition new_token_entry :: "http_lib \<Rightarrow> instant \<Rightarrow> string \<Rightarrow> token_request \<Rightarrow> string \<Rightarrow> runtime_token" where
  "new_token_entry L now pepper q secret =
     \<lparr>rt_Name = trim_space (tq_Name q), rt_TokenHash = hash_api_token (hl_rt L) secret pepper,
      rt_TokenSuffix = drop (length secret - 4) secret,
      rt_ExpiresAt = map_option (rl_format (hl_rt L)) (parse_token_expiry (hl_rt L) now [[], [], tq_Expire q] 2),
      rt_CreatedAt = rl_format (hl_rt L) now, rt_Scopes = new_token_scopes L (tq_Scopes q)\<rparr>"

definition create_api_token :: "http_lib \<Rightarrow> draws \<Rightarrow> request \<Rightarrow> server \<Rightarrow> server \<times> response" where
  "create_api_token L d r S =
     (if effective_read_only (opts S) then (S, read_only_error)
      else (case hl_token L (fst (read_body r)) of
              None \<Rightarrow> (S, error_json 400 ''name required'')
            | Some q \<Rightarrow>
                if trim_space (tq_Name q) = [] then (S, error_json 400 ''name required'')
                else (case generate_api_token_secret (d_secret d) of
                        Inl _ \<Rightarrow> (S, error_json 500 ''token_generate_failed'')
                      | Inr secret \<Rightarrow>
                          (let entry = new_token_entry L (d_now d) (APITokenPepper (opts S)) q secret;
                               list = stored_tokens L S in
                           if list_ex (\<lambda>t. same_name (hl_tab L) (rt_Name t) (rt_Name entry)) list
                           then (S, error_json 409 ''name already exists'')
                           else save_reply (save_runtime L d (nil_runtime_file\<lparr>rf_APITokens := Some (list @ [entry])\<rparr>) S)
                                  (\<lambda>keys. [(''name'', NText (rt_Name entry)), (''token'', NText secret),
                                    (''suffix'', NText (rt_TokenSuffix entry)),
                                    (''expires_at'', null_or_text (rt_ExpiresAt entry)),
                                    (''scopes'', NTexts (rt_Scopes entry)), (''first_time_keys'', NTexts keys),
                                    (''warning'', NText (first_time_warning keys)),
                                    (''note'', NText ''Store this token now; it will not be shown again'')])))))"

text \<open>
  The list of a runtime file is filtered in place, on the array that the manager's file shares: its entries
  move to the front, and the old ones stay behind them.
\<close>

definition compact :: "('a \<Rightarrow> bool) \<Rightarrow> 'a list \<Rightarrow> 'a list" where
  "compact keep xs = filter keep xs @ drop (length (filter keep xs)) xs"

definition filter_shared :: "(runtime_token \<Rightarrow> bool) \<Rightarrow> server \<Rightarrow> server" where
  "filter_shared keep S =
     (if src_APITokens (rm_sources (sv_runtime S)) = ''runtime''
      then S\<lparr>sv_runtime := (sv_runtime S)\<lparr>rm_file := (rm_file (sv_runtime S))
              \<lparr>rf_APITokens := map_option (compact keep) (rf_APITokens (rm_file (sv_runtime S)))\<rparr>\<rparr>\<rparr>
      else S)"

text \<open>An empty list filtered in place is \<open>nil\<close> if it was \<open>nil\<close>: without tokens the key is not patched.\<close>

definition delete_api_token :: "http_lib \<Rightarrow> request \<Rightarrow> draws \<Rightarrow> server \<Rightarrow> server \<times> response" where
  "delete_api_token L r d S =
     (if effective_read_only (opts S) then (S, read_only_error)
      else (let q = trim_space (query_get r ''name'');
                name = (if q = [] then trim_space (hl_token_name L (fst (read_body r))) else q);
                keep = (\<lambda>t. \<not> equal_fold (hl_tab L) (rt_Name t) name) in
            if name = [] then (S, error_json 400 ''name required'')
            else (let list = stored_tokens L S;
                      patch = (if list = [] \<and> src_APITokens (rm_sources (sv_runtime S)) \<noteq> ''runtime'' then None
                               else Some (filter keep list)) in
                  save_reply (save_runtime L d (nil_runtime_file\<lparr>rf_APITokens := patch\<rparr>) (filter_shared keep S))
                    (\<lambda>_. [(''status'', NText ''ok'')]))))"

definition handle_api_tokens :: "http_lib \<Rightarrow> draws \<Rightarrow> request \<Rightarrow> server \<Rightarrow> server \<times> response" where
  "handle_api_tokens L d r S =
     (case require_gui_session (d_now d) r S of
        (S1, Some refusal) \<Rightarrow> (S1, refusal)
      | (S1, None) \<Rightarrow>
          if hr_Method r = ''GET'' then (S1, list_api_tokens L S1)
          else if hr_Method r = ''POST'' then create_api_token L d r S1
          else if hr_Method r = ''DELETE'' then delete_api_token L r d S1
          else (S1, method_not_allowed))"

section \<open>The raw feed and the page\<close>

text \<open>An upgraded connection has the status 101; \<open>serve_ws\<close> says what it then carries.\<close>

definition handle_raw_ws :: "http_lib \<Rightarrow> draws \<Rightarrow> request \<Rightarrow> server \<Rightarrow> server \<times> response" where
  "handle_raw_ws L d r S =
     (if hr_Method r \<noteq> ''GET'' then (S, method_not_allowed)
      else (case check_auth_ws L (d_now d) r S of
              (S1, False) \<Rightarrow> (S1, http_error ''unauthorized'' 401)
            | (S1, True) \<Rightarrow>
                (case d_upgrade d of
                   Some status \<Rightarrow> (S1, http_error [] status)
                 | None \<Rightarrow> (S1\<lparr>sv_hub := fst (hub_subscribe (sv_hub S1))\<rparr>,
                     \<lparr>rp_Status = 101, rp_Headers = [], rp_Cookies = [], rp_Reply = RNone\<rparr>))))"

definition not_found :: response where
  "not_found = http_error ''404 page not found'' 404"

definition handle_gui :: "http_lib \<Rightarrow> draws \<Rightarrow> request \<Rightarrow> response" where
  "handle_gui L d r =
     (if hr_Path r \<noteq> ''/'' then not_found
      else if hr_Method r \<noteq> ''GET'' then method_not_allowed
      else \<lparr>rp_Status = 200, rp_Headers = [(''Content-Type'', ''text/html; charset=utf-8''), (''Cache-Control'', ''no-store'')],
             rp_Cookies = snd (issue_csrf d r), rp_Reply = RText (hl_gui L)\<rparr>)"

definition gui_disabled :: "request \<Rightarrow> response" where
  "gui_disabled r = (if hr_Path r \<noteq> ''/'' then not_found else http_error ''GUI disabled (HTTP_GUI=false)'' 404)"

section \<open>Routes and middleware\<close>

definition protected_routes ::
  "http_lib \<Rightarrow> draws \<Rightarrow> (string \<times> (request \<Rightarrow> server \<Rightarrow> server \<times> response)) list" where
  "protected_routes L d =
     [(''/api/v1/health'', handle_api_health L d), (''/api/v1/sensors'', handle_api_sensors L),
      (''/api/v1/rflink/raw'', handle_api_raw), (''/api/v1/command'', handle_api_command L d),
      (''/api/v1/ha/rediscover'', handle_api_rediscover L), (''/api/v1/config'', handle_api_config L d),
      (''/api/v1/config/restore'', handle_config_restore L d), (''/api/v1/config/backups'', handle_config_backups L),
      (''/api/v1/tokens'', handle_api_tokens L d), (''/api/v1/webhooks'', handle_webhooks L d),
      (''/api/v1/sessions'', handle_sessions L d), (''/api/v1/serial'', handle_serial_info L d),
      (''/api/v1/rate_limit'', handle_api_rate_limit d)]"

definition open_routes ::
  "http_lib \<Rightarrow> draws \<Rightarrow> string \<Rightarrow> (string \<times> (request \<Rightarrow> server \<Rightarrow> server \<times> response)) list" where
  "open_routes L d ip =
     [(''/healthz'', \<lambda>r S. (S, handle_healthz r)), (''/readyz'', \<lambda>r S. (S, handle_readyz L (d_now d) r S)),
      (''/api/v1/csrf'', \<lambda>r S. (S, handle_csrf d r)), (''/api/v1/meta'', handle_meta L (d_now d)),
      (''/api/v1/session'', handle_session L d ip), (''/api/v1/rflink/raw/ws'', handle_raw_ws L d)]"

definition dispatch :: "http_lib \<Rightarrow> draws \<Rightarrow> string \<Rightarrow> request \<Rightarrow> server \<Rightarrow> server \<times> response" where
  "dispatch L d ip r S =
     (case map_of (protected_routes L d) (hr_Path r) of
        Some h \<Rightarrow> protect L d h r S
      | None \<Rightarrow>
          (case map_of (open_routes L d ip) (hr_Path r) of
             Some h \<Rightarrow> h r S
           | None \<Rightarrow> (S, if GUI (HTTP (opts S)) then handle_gui L d r else gui_disabled r)))"

text \<open>
  The middleware, outside in: request id, client address, security headers, CORS, which answers every
  \<open>OPTIONS\<close> request, and the routes. The recovery only acts on a panic, and no handler here has one.
\<close>

definition serve :: "http_lib \<Rightarrow> draws \<Rightarrow> request \<Rightarrow> server \<Rightarrow> server \<times> response" where
  "serve L d r S =
     (let ip = client_ip (rl_net (hl_rt L)) (sv_trusted S) r;
          hdrs = (header_request_id, request_id (new_uuid (d_uuid d) (d_uuid2 d)) r)
            # security_headers (hr_Path r) @ cors_headers (hl_tab L) (sv_cors S) r;
          res = (if hr_Method r = ''OPTIONS''
                 then (S, \<lparr>rp_Status = 204, rp_Headers = [], rp_Cookies = [], rp_Reply = RNone\<rparr>)
                 else (case hl_mux L r of Some redirect \<Rightarrow> (S, redirect) | None \<Rightarrow> dispatch L d ip r S))
      in (fst res, (snd res)\<lparr>rp_Headers := hdrs @ rp_Headers (snd res)\<rparr>))"

text \<open>
  \<open>startHTTPServer\<close> fails without an address; it takes over the hook of the raw lines, which feeds the
  hub and the webhooks.
\<close>

definition start_http_server :: "http_lib \<Rightarrow> (string \<Rightarrow> ip_net option) \<Rightarrow> app \<Rightarrow> runtime_manager \<Rightarrow> store \<Rightarrow>
  webhook_manager \<Rightarrow> server option" where
  "start_http_server L parse_cidr a m st hooks =
     (let h = HTTP (rm_opts m) in
      if trim_space (Listen h) = [] then None
      else Some \<lparr>sv_app = with_pub (set_raw_line_hook True) a, sv_runtime = m, sv_sessions = st,
             sv_login = new_login_limiter, sv_hooks = hooks, sv_hub = new_raw_hub,
             sv_cors = parse_csv_list (CORSOrigins h),
             sv_trusted = parse_trusted_proxies (rl_net (hl_rt L)) parse_cidr (TrustedProxies h)\<rparr>)"

definition raw_line_hook :: "http_lib \<Rightarrow> raw_entry \<Rightarrow> server \<Rightarrow> server" where
  "raw_line_hook L e S =
     S\<lparr>sv_hub := hub_broadcast e (sv_hub S), sv_hooks := notify_raw (hl_env L) e (sv_hooks S)\<rparr>"

section \<open>What a handler may change\<close>

text \<open>
  The sessions aside, a handler works on the state behind the guard: the application, the settings, the
  webhooks. \<open>behind\<close> is that part of a server.
\<close>

definition behind :: "server \<Rightarrow> app \<times> runtime_manager \<times> webhook_manager" where
  "behind S = (sv_app S, sv_runtime S, sv_hooks S)"

definition live_session :: "instant \<Rightarrow> request \<Rightarrow> server \<Rightarrow> bool" where
  "live_session now r S = snd (request_session now r (sv_sessions S))"

text \<open>Who a request comes from, if it is let through: a session, on a mutating method with the CSRF token in cookie
  and header; or a valid API token with the scope of the path, if there is no live session.\<close>

definition authorised :: "http_lib \<Rightarrow> instant \<Rightarrow> request \<Rightarrow> server \<Rightarrow> bool" where
  "authorised L now r S =
     (if live_session now r S
      then mutating (hr_Method r) \<longrightarrow> csrf_cookie r \<noteq> [] \<and> csrf_header r = csrf_cookie r
      else (case check_token L now (bearer_token (hl_tab L) r) (opts S) of
              None \<Rightarrow> False
            | Some t \<Rightarrow> scope_for_path (hr_Method r) (hr_Path r) = []
                \<or> has_scope (hl_tab L) t (scope_for_path (hr_Method r) (hr_Path r))))"

lemma rp_Status_simps [simp]:
  "rp_Status (write_json n v) = n" "rp_Status (error_json n msg) = n" "rp_Status (http_error msg n) = n"
  by (simp_all add: write_json_def error_json_def http_error_def)

lemma session_get_again:
  "session_get now i st = (st', x) \<Longrightarrow> session_get now i st' = (st', x)"
  by (auto simp: session_get_def delete_conv' split: if_splits option.splits)

lemma request_session_again:
  "request_session now r st = (st', b) \<Longrightarrow> request_session now r st' = (st', b)"
  by (auto simp: request_session_def Let_def dest: session_get_again split: if_splits prod.splits)

text \<open>What the guard does: it lets the request through with at most the expired session removed, or refuses it.\<close>

definition seen :: "instant \<Rightarrow> request \<Rightarrow> server \<Rightarrow> server" where
  "seen now r S = S\<lparr>sv_sessions := fst (request_session now r (sv_sessions S))\<rparr>"

lemma seen_simps [simp]:
  "sv_app (seen now r S) = sv_app S" "sv_runtime (seen now r S) = sv_runtime S" "sv_hooks (seen now r S) = sv_hooks S"
  "sv_hub (seen now r S) = sv_hub S" "sv_login (seen now r S) = sv_login S" "behind (seen now r S) = behind S"
  by (simp_all add: seen_def behind_def)

lemma request_session_seen:
  "request_session now r (sv_sessions (seen now r S)) = (sv_sessions (seen now r S), live_session now r S)"
  by (cases "request_session now r (sv_sessions S)") (simp add: seen_def live_session_def request_session_again)

lemma live_session_seen [simp]: "live_session now r (seen now r S) = live_session now r S"
  using request_session_seen [of now r S] by (simp add: live_session_def)

lemma seen_seen [simp]: "seen now r (seen now r S) = seen now r S"
  using request_session_seen [of now r S] by (simp add: seen_def)

lemma check_auth_eq:
  "check_auth L now r S = (seen now r S,
     if live_session now r S then Some BySession
     else map_option ByToken (check_token L now (bearer_token (hl_tab L) r) (opts S)))"
  by (simp add: check_auth_def seen_def live_session_def split: prod.split bool.split)

lemma check_csrf_eq:
  "fst (check_csrf now r S) = seen now r S"
  "snd (check_csrf now r S) = None \<longleftrightarrow>
     (live_session now r S \<longrightarrow> csrf_cookie r \<noteq> [] \<and> csrf_header r = csrf_cookie r)"
  "snd (check_csrf now r S) = Some rp \<Longrightarrow> rp_Status rp = 403"
proof -
  obtain st b where q: "request_session now r (sv_sessions S) = (st, b)" by fastforce
  note defs = check_csrf_def seen_def live_session_def q
  show "fst (check_csrf now r S) = seen now r S" by (cases b) (simp_all add: defs)
  show "snd (check_csrf now r S) = None \<longleftrightarrow>
     (live_session now r S \<longrightarrow> csrf_cookie r \<noteq> [] \<and> csrf_header r = csrf_cookie r)" by (cases b) (simp_all add: defs)
  show "snd (check_csrf now r S) = Some rp \<Longrightarrow> rp_Status rp = 403"
    by (cases b) (auto simp add: defs split: if_splits)
qed

lemma check_scope_status: "check_scope U kind r = Some rp \<Longrightarrow> rp_Status rp = 403"
  by (auto simp: check_scope_def Let_def write_json_def split: auth.splits if_splits)

lemma protect_cases:
  obtains (through) "authorised L (d_now d) r S" "protect L d h r S = h r (seen (d_now d) r S)"
  | (refused) rp where "\<not> authorised L (d_now d) r S" "protect L d h r S = (seen (d_now d) r S, rp)"
      "rp_Status rp = 401 \<or> rp_Status rp = 403"
proof -
  let ?now = "d_now d"
  obtain S2 x where g: "(if mutating (hr_Method r) then check_csrf ?now r (seen ?now r S) else (seen ?now r S, None)) = (S2, x)"
    by fastforce
  have S2: "S2 = seen ?now r S" using g check_csrf_eq(1) [of ?now r "seen ?now r S"] by (auto split: if_splits)
  have x: "x = None \<longleftrightarrow> (mutating (hr_Method r) \<longrightarrow> live_session ?now r S \<longrightarrow> csrf_cookie r \<noteq> [] \<and> csrf_header r = csrf_cookie r)"
    using g check_csrf_eq(2) [of ?now r "seen ?now r S"] by (auto split: if_splits)
  have st: "rp_Status rp = 403" if "x = Some rp" for rp
    using that g check_csrf_eq(3) [of ?now r "seen ?now r S"] by (auto split: if_splits)
  show ?thesis
  proof (cases "live_session ?now r S")
    case True
    show ?thesis
    proof (cases x)
      case None
      with True x have "authorised L ?now r S" by (simp add: authorised_def)
      moreover have "protect L d h r S = h r (seen ?now r S)"
        using True None S2 g by (simp add: protect_def check_auth_eq check_scope_def)
      ultimately show ?thesis by (rule through)
    next
      case (Some rp)
      then have "\<not> authorised L ?now r S" using True x by (auto simp: authorised_def)
      moreover have "protect L d h r S = (seen ?now r S, rp)"
        using True Some S2 g by (simp add: protect_def check_auth_eq)
      ultimately show ?thesis using st Some by (intro refused) auto
    qed
  next
    case False
    then have xN: "x = None" using x by simp
    show ?thesis
    proof (cases "check_token L ?now (bearer_token (hl_tab L) r) (opts S)")
      case None
      then have "protect L d h r S = (seen ?now r S, error_json 401 ''unauthorized'')" "\<not> authorised L ?now r S"
        using False by (simp_all add: protect_def check_auth_eq authorised_def)
      then show ?thesis by (intro refused [of "error_json 401 ''unauthorized''"]) simp_all
    next
      case (Some t)
      show ?thesis
      proof (cases "check_scope (hl_tab L) (ByToken t) r")
        case None
        then have "authorised L ?now r S" using False Some by (auto simp: authorised_def check_scope_def Let_def split: if_splits)
        moreover have "protect L d h r S = h r (seen ?now r S)"
          using False Some None S2 g xN by (simp add: protect_def check_auth_eq)
        ultimately show ?thesis by (rule through)
      next
        case (Some rp)
        then have "\<not> authorised L ?now r S" using False \<open>check_token L ?now (bearer_token (hl_tab L) r) (opts S) = Some t\<close>
          by (auto simp: authorised_def check_scope_def Let_def split: if_splits)
        moreover have "protect L d h r S = (seen ?now r S, rp)"
          using False Some \<open>check_token L ?now (bearer_token (hl_tab L) r) (opts S) = Some t\<close> S2 g xN
          by (simp add: protect_def check_auth_eq)
        ultimately show ?thesis using check_scope_status [OF Some] by (intro refused) auto
      qed
    qed
  qed
qed

section \<open>What each handler may change\<close>

lemma fst_save_reply [simp]: "fst (save_reply x ok) = fst x"
  by (simp add: save_reply_def)

lemma save_runtime_keeps:
  assumes "save_runtime L d patch S = (S', x)"
  shows "sv_app S' = sv_app S" and "sv_sessions S' = sv_sessions S" and "sv_login S' = sv_login S" and "sv_hub S' = sv_hub S"
  using assms by (auto simp: save_runtime_def split: prod.splits sum.splits)

lemma save_runtime_app [simp]: "sv_app (fst (save_runtime L d patch S)) = sv_app S"
  by (cases "save_runtime L d patch S") (simp add: save_runtime_keeps)

text \<open>Commands leave the settings alone, and the settings leave the application alone.\<close>

lemma command_frame:
  "sv_runtime (fst (handle_api_command L d r S)) = sv_runtime S"
  "sv_hooks (fst (handle_api_command L d r S)) = sv_hooks S"
  "effective_read_only (opts S) \<Longrightarrow> fst (handle_api_command L d r S) = S"
  by (auto simp: handle_api_command_def Let_def split: prod.splits bool.splits)

lemma rediscover_frame:
  "sv_runtime (fst (handle_api_rediscover L r S)) = sv_runtime S"
  "sv_hooks (fst (handle_api_rediscover L r S)) = sv_hooks S"
  "effective_read_only (opts S) \<Longrightarrow> fst (handle_api_rediscover L r S) = S"
  by (auto simp: handle_api_rediscover_def)

lemma rate_limit_frame:
  "fst (handle_api_rate_limit d r S) = S \<or>
   fst (handle_api_rate_limit d r S) = S\<lparr>sv_app := fst (command_rate_status (opts S) (d_now d) (sv_app S))\<rparr>"
  by (auto simp: handle_api_rate_limit_def split: prod.splits)

lemma rate_status_keeps [simp]:
  "ap_serial (fst (command_rate_status o' now a)) = ap_serial a" "ap_pub (fst (command_rate_status o' now a)) = ap_pub a"
  by (simp_all add: command_rate_status_def refill_cmd_tokens_def Let_def)

lemma put_config_frame:
  "sv_app (fst (put_config L d r S)) = sv_app S"
  "effective_read_only (opts S) \<Longrightarrow> fst (put_config L d r S) = S"
  by (simp_all add: put_config_def Let_def split: prod.split bool.split option.split)

lemma config_frame:
  "sv_app (fst (handle_api_config L d r S)) = sv_app S"
  "effective_read_only (opts S) \<Longrightarrow> fst (handle_api_config L d r S) = S"
  "hr_Method r = ''GET'' \<Longrightarrow> fst (handle_api_config L d r S) = S"
  by (simp_all add: handle_api_config_def put_config_frame)

lemma restore_frame:
  "sv_app (fst (handle_config_restore L d r S)) = sv_app S"
  "effective_read_only (opts S) \<Longrightarrow> fst (handle_config_restore L d r S) = S"
  by (auto simp: handle_config_restore_def Let_def split: prod.splits option.splits)

lemma reading_frame:
  "fst (handle_api_health L d r S) = S" "fst (handle_api_sensors L r S) = S" "fst (handle_api_raw r S) = S"
  "fst (handle_serial_info L d r S) = S" "fst (handle_config_backups L r S) = S"
  by (simp_all add: handle_api_health_def handle_api_sensors_def handle_api_raw_def handle_serial_info_def
      handle_config_backups_def)

lemma require_gui_session_eq:
  "fst (require_gui_session now r S) = (if gui_locked (opts S) then S else seen now r S)"
  "snd (require_gui_session now r S) = None \<longleftrightarrow> \<not> gui_locked (opts S) \<and> live_session now r S"
  "snd (require_gui_session now r S) = Some rp \<Longrightarrow> rp_Status rp = 401 \<or> rp_Status rp = 403"
  by (auto simp: require_gui_session_def seen_def live_session_def split: prod.splits bool.splits if_splits)

lemma persist_webhooks_app [simp]: "sv_app (fst (persist_webhooks L d hs S)) = sv_app S"
  by (simp add: persist_webhooks_def split_def split: sum.split)

lemmas fst_of_cases = Let_def split_def if_distrib [of fst] option.case_distrib [of fst] sum.case_distrib [of fst] fst_conv

lemma create_webhook_frame:
  "sv_app (fst (create_webhook L d r S)) = sv_app S"
  "effective_read_only (opts S) \<Longrightarrow> fst (create_webhook L d r S) = S"
  unfolding create_webhook_def fst_of_cases by (simp_all split: option.split sum.split)

lemma update_webhook_frame:
  "sv_app (fst (update_webhook L d r S)) = sv_app S"
  "effective_read_only (opts S) \<Longrightarrow> fst (update_webhook L d r S) = S"
  unfolding update_webhook_def fst_of_cases by (simp_all split: option.split sum.split)

lemma delete_webhook_frame:
  "sv_app (fst (delete_webhook L d r S)) = sv_app S"
  "effective_read_only (opts S) \<Longrightarrow> fst (delete_webhook L d r S) = S"
  unfolding delete_webhook_def fst_of_cases by (simp_all split: sum.split)

lemma create_api_token_frame:
  "sv_app (fst (create_api_token L d r S)) = sv_app S"
  "effective_read_only (opts S) \<Longrightarrow> fst (create_api_token L d r S) = S"
  unfolding create_api_token_def fst_of_cases fst_save_reply by (simp_all split: option.split sum.split)

lemma filter_shared_app [simp]: "sv_app (filter_shared keep S) = sv_app S"
  by (simp add: filter_shared_def)

lemma delete_api_token_frame:
  "sv_app (fst (delete_api_token L r d S)) = sv_app S"
  "effective_read_only (opts S) \<Longrightarrow> fst (delete_api_token L r d S) = S"
proof -
  show "sv_app (fst (delete_api_token L r d S)) = sv_app S"
    unfolding delete_api_token_def Let_def if_distrib [of fst] fst_save_reply fst_conv
    by (simp only: if_distrib [of sv_app] save_runtime_app filter_shared_app if_cancel)
  show "fst (delete_api_token L r d S) = S" if "effective_read_only (opts S)"
    using that unfolding delete_api_token_def by (simp only: if_True fst_conv)
qed

lemma behind_sessions [simp]: "behind (S\<lparr>sv_sessions := st\<rparr>) = behind S"
  by (simp add: behind_def)

lemma delete_sessions_frame: "behind (fst (delete_sessions L r S)) = behind S"
  unfolding delete_sessions_def Let_def split_def if_distrib [of fst] bool.case_distrib [of fst] fst_conv
    if_distrib [of behind] bool.case_distrib [of behind] behind_sessions
  by (simp add: split: bool.split)

text \<open>The three endpoints of the administration: the frame, and that they need a live session.\<close>

lemma admin_frame:
  assumes "h = handle_api_tokens L d \<or> h = handle_webhooks L d \<or> h = handle_sessions L d"
  shows "sv_app (fst (h r S)) = sv_app S"
    and "effective_read_only (opts S) \<Longrightarrow> behind (fst (h r S)) = behind S"
    and "\<not> live_session (d_now d) r S \<Longrightarrow> behind (fst (h r S)) = behind S"
proof -
  obtain S1 x where g: "require_gui_session (d_now d) r S = (S1, x)" by fastforce
  have S1: "S1 = S \<or> S1 = seen (d_now d) r S" and x: "\<not> live_session (d_now d) r S \<Longrightarrow> x \<noteq> None"
    using require_gui_session_eq(1,2) [of "d_now d" r S] g by (auto split: if_splits)
  have k: "sv_app S1 = sv_app S" "opts S1 = opts S" "behind S1 = behind S" using S1 by auto
  have b: "behind A = behind B \<Longrightarrow> sv_app A = sv_app B" for A B by (simp add: behind_def)
  note defs = handle_api_tokens_def handle_webhooks_def handle_sessions_def g
    create_api_token_frame delete_api_token_frame create_webhook_frame update_webhook_frame delete_webhook_frame
    delete_sessions_frame b [OF delete_sessions_frame] k Let_def
  show "sv_app (fst (h r S)) = sv_app S" using assms by (auto simp: defs split: option.split)
  show "behind (fst (h r S)) = behind S" if "effective_read_only (opts S)"
    using assms that by (auto simp: defs split: option.split)
  show "behind (fst (h r S)) = behind S" if "\<not> live_session (d_now d) r S"
    using assms x [OF that] k by (auto simp: defs)
qed

lemma check_auth_ws_keeps: "check_auth_ws L now r S = (S1, b) \<Longrightarrow> behind S1 = behind S"
  by (auto simp: check_auth_ws_def behind_def Let_def split: prod.splits bool.splits)

lemma login_gate_keeps: "login_gate now ip r S = (S1, x) \<Longrightarrow> behind S1 = behind S"
  by (auto simp: login_gate_def behind_def split: prod.splits bool.splits if_splits)

lemma login_finish_keeps: "behind (fst (login_finish L d ip r S)) = behind S"
proof -
  have l: "behind (S\<lparr>sv_login := l\<rparr>) = behind S" for l by (simp add: behind_def)
  obtain st x where c: "session_create (d_evict_rank d) (random_session_id (d_session_id d)) (d_now d) (login_address ip r)
      (sv_sessions S) = (st, x)" by fastforce
  show ?thesis by (cases x) (simp_all add: login_finish_def Let_def c l split_def)
qed

lemma handle_session_keeps: "behind (fst (handle_session L d ip r S)) = behind S"
proof -
  have "behind (fst (session_login L d ip r S)) = behind S"
    by (auto simp: session_login_def login_finish_keeps dest: login_gate_keeps split: prod.splits option.splits)
  moreover have "behind (fst (session_logout now r S)) = behind S" for now
    using check_csrf_eq(1) [of now r S] by (auto simp: session_logout_def behind_def Let_def split: prod.splits option.splits)
  moreover have "behind (fst (session_status L now r S)) = behind S" for now
    by (auto simp: session_status_def behind_def split: prod.splits option.splits)
  ultimately show ?thesis by (simp add: handle_session_def)
qed

lemma handle_meta_keeps: "behind (fst (handle_meta L now r S)) = behind S"
  by (simp add: handle_meta_def split_def if_distrib [of fst] if_distrib [of behind])

lemma raw_ws_keeps: "behind (fst (handle_raw_ws L d r S)) = behind S"
proof -
  obtain S1 b where g: "check_auth_ws L (d_now d) r S = (S1, b)" by fastforce
  have "behind (S1\<lparr>sv_hub := h\<rparr>) = behind S1" for h by (simp add: behind_def)
  then show ?thesis using check_auth_ws_keeps [OF g] by (auto simp: handle_raw_ws_def g split: bool.split option.split)
qed

lemma open_route_keeps: "(p, h) \<in> set (open_routes L d ip) \<Longrightarrow> behind (fst (h r S)) = behind S"
  unfolding open_routes_def by (auto simp: handle_session_keeps handle_meta_keeps raw_ws_keeps)

section \<open>A sample server\<close>

text \<open>A server with the GUI password \<open>gate\<close>, no sessions and no tokens, and a request without credentials.\<close>

definition sample_http :: http_lib where
  "sample_http = \<lparr>hl_env = sample_env, hl_driver = sample_driver, hl_quoting = sample_quoting, hl_rt = sample_lib,
     hl_fs = no_faults, hl_login_token = (\<lambda>_. []), hl_command = (\<lambda>_. None), hl_config = (\<lambda>_. None),
     hl_slot = (\<lambda>_. None), hl_revoke = (\<lambda>_. ([], False)), hl_hook = (\<lambda>_. None), hl_hook_id = (\<lambda>_. []),
     hl_token = (\<lambda>_. None), hl_token_name = (\<lambda>_. []), hl_mux = (\<lambda>_. None), hl_gui = []\<rparr>"

definition sample_draws :: draws where
  "sample_draws = \<lparr>d_now = 9, d_session_id = Inr [1, 2, 3, 4], d_csrf = Inr [5], d_secret = Inr [6, 7], d_hook_id = Inr [7],
     d_uuid = Inr (replicate 16 0), d_uuid2 = Inr [], d_upgrade = None, d_evict_rank = (\<lambda>_ _. 0), d_rank = (\<lambda>_. 0)\<rparr>"

definition sample_server :: server where
  "sample_server = \<lparr>sv_app = first_app,
     sv_runtime = sample_manager\<lparr>rm_opts := sample_config\<lparr>HTTP := (HTTP sample_config)\<lparr>AuthToken := ''gate'', ReadOnly := False\<rparr>\<rparr>\<rparr>,
     sv_sessions = new_session_store, sv_login = new_login_limiter, sv_hooks = new_webhook_manager,
     sv_hub = new_raw_hub, sv_cors = [], sv_trusted = []\<rparr>"

definition sample_request :: "string \<Rightarrow> string \<Rightarrow> string \<Rightarrow> request" where
  "sample_request meth path body = \<lparr>hr_Method = meth, hr_Path = path, hr_Header = Map.empty, hr_Cookies = [],
     hr_Query = Map.empty, hr_Body = body, hr_BodyErr = False, hr_RemoteAddr = ''10.0.0.9:4711'', hr_TLS = False\<rparr>"

lemma sample_request_simps [simp]:
  "hr_Method (sample_request meth path body) = meth" "hr_Path (sample_request meth path body) = path"
  "session_id_from_request (sample_request meth path body) = []"
  "csrf_cookie (sample_request meth path body) = []" "header_get (sample_request meth path body) name = []"
  "query_get (sample_request meth path body) name = []"
  "read_body (sample_request meth path body) = (take max_body_bytes body, False)"
  by (simp_all add: sample_request_def session_id_from_request_def csrf_cookie_def header_get_def query_get_def read_body_def)

lemma sample_no_session [simp]: "\<not> live_session now (sample_request meth path body) S"
  by (simp add: live_session_def request_session_def)

lemma sample_opts:
  "opts sample_server = sample_config\<lparr>HTTP := (HTTP sample_config)\<lparr>AuthToken := ''gate'', ReadOnly := False\<rparr>\<rparr>"
  by (simp add: sample_server_def)

lemma sample_unlocked: "\<not> gui_locked (opts sample_server)" "\<not> effective_read_only (opts sample_server)"
  by (simp_all add: sample_opts gui_locked_def effective_read_only_def) code_simp+

lemma sample_unauthorised: "\<not> authorised L now (sample_request meth path body) S"
  by (simp add: authorised_def check_token_def bearer_token_def Let_def)

end
