(* ===== verification/HttpAdmin.thy ===== *)
theory HttpAdmin
  imports HttpApi
begin

text \<open>
  What the administration endpoints achieve: a created API token authenticates until it expires, a saved
  configuration is in force, and a refused or failed request leaves the settings as they were.
\<close>

section \<open>Created tokens\<close>

lemma hex_digit_plain: "n < 16 \<Longrightarrow> \<not> ascii_space (hex_digit n) \<and> byte (hex_digit n) < (128::nat)"
  by (auto simp: ascii_space_def byte_hex_digit)

lemma secret_trimmed: "trimmed (''grflnk_'' @ hex_encode bs)"
proof (rule trimmedI)
  show "byte (hd (''grflnk_'' @ hex_encode bs)) < (128::nat)" "\<not> ascii_space (hd (''grflnk_'' @ hex_encode bs))"
    by (simp_all add: ascii_space_def)
  have "last (''grflnk_'' @ hex_encode bs) = CHR ''_'' \<or> (\<exists>n < 16. last (''grflnk_'' @ hex_encode bs) = hex_digit n)"
  proof (cases bs rule: rev_cases)
    case (snoc ys b)
    then have "last (''grflnk_'' @ hex_encode bs) = hex_digit (b mod 16)" by (simp add: hex_encode_def)
    then show ?thesis by (intro disjI2 exI [of _ "b mod 16"]) simp
  qed (simp add: hex_encode_def)
  then show "byte (last (''grflnk_'' @ hex_encode bs)) < (128::nat)" "\<not> ascii_space (last (''grflnk_'' @ hex_encode bs))"
    using hex_digit_plain by (auto simp: ascii_space_def)
qed simp

lemma save_runtime_saved:
  assumes "save_runtime L d patch S = (S', Inr keys)"
  shows "rm_file (sv_runtime S') = (merge_patch patch (rm_file (sv_runtime S)))
      \<lparr>rf_UpdatedAt := rl_format (hl_rt L) (d_now d), rf_Version := runtime_file_version\<rparr>"
    and "opts S' = fst (apply_runtime (hl_rt L) (d_now d) (rm_file (sv_runtime S')) (opts S))"
    and "keys = first_time_keys patch (rm_file (sv_runtime S))"
proof -
  obtain m where m: "save_overlay (hl_rt L) (hl_fs L) (d_now d) patch (sv_runtime S) = (m, Inr keys)" "sv_runtime S' = m"
    using assms by (auto simp: save_runtime_def split: prod.splits sum.splits)
  from saved_state [OF m(1)] m(2)
  show "rm_file (sv_runtime S') = (merge_patch patch (rm_file (sv_runtime S)))
      \<lparr>rf_UpdatedAt := rl_format (hl_rt L) (d_now d), rf_Version := runtime_file_version\<rparr>"
    and "opts S' = fst (apply_runtime (hl_rt L) (d_now d) (rm_file (sv_runtime S')) (opts S))"
    and "keys = first_time_keys patch (rm_file (sv_runtime S))"
    by simp_all
qed

lemma save_reply_status: "rp_Status (snd (save_reply x ok)) = 200 \<longleftrightarrow> (\<exists>keys. snd x = Inr keys)"
  by (simp add: save_reply_def split: sum.split)

lemma created_token:
  assumes "create_api_token L d r S = (S', rp)" and "rp_Status rp = 200"
  obtains q secret keys where "hl_token L (fst (read_body r)) = Some q" "generate_api_token_secret (d_secret d) = Inr secret"
    "trim_space (tq_Name q) \<noteq> []"
    "save_runtime L d (nil_runtime_file\<lparr>rf_APITokens :=
        Some (stored_tokens L S @ [new_token_entry L (d_now d) (APITokenPepper (opts S)) q secret])\<rparr>) S = (S', Inr keys)"
    "list_all (\<lambda>t. \<not> same_name (hl_tab L) (rt_Name t) (trim_space (tq_Name q))) (stored_tokens L S)"
proof -
  obtain q where q: "hl_token L (fst (read_body r)) = Some q" "\<not> effective_read_only (opts S)"
    using assms by (auto simp: create_api_token_def read_only_error_def split: if_splits option.splits)
  have n: "trim_space (tq_Name q) \<noteq> []"
    using assms q by (auto simp: create_api_token_def)
  obtain secret where g: "generate_api_token_secret (d_secret d) = Inr secret"
    using assms q n by (auto simp: create_api_token_def split: sum.splits)
  let ?e = "new_token_entry L (d_now d) (APITokenPepper (opts S)) q secret"
  have e: "rt_Name ?e = trim_space (tq_Name q)" by (simp add: new_token_entry_def)
  have u: "\<not> list_ex (\<lambda>t. same_name (hl_tab L) (rt_Name t) (rt_Name ?e)) (stored_tokens L S)"
    using assms q n g by (auto simp: create_api_token_def Let_def split: if_splits)
  obtain ok where "save_reply (save_runtime L d (nil_runtime_file\<lparr>rf_APITokens := Some (stored_tokens L S @ [?e])\<rparr>) S) ok = (S', rp)"
    using assms q n g u by (auto simp: create_api_token_def Let_def)
  then have "fst (save_runtime L d (nil_runtime_file\<lparr>rf_APITokens := Some (stored_tokens L S @ [?e])\<rparr>) S) = S'"
    "\<exists>keys. snd (save_runtime L d (nil_runtime_file\<lparr>rf_APITokens := Some (stored_tokens L S @ [?e])\<rparr>) S) = Inr keys"
    using assms(2) save_reply_status fst_save_reply by (metis fst_conv, metis snd_conv)
  then obtain keys where "save_runtime L d (nil_runtime_file\<lparr>rf_APITokens := Some (stored_tokens L S @ [?e])\<rparr>) S = (S', Inr keys)"
    by (metis prod.collapse)
  moreover have "list_all (\<lambda>t. \<not> same_name (hl_tab L) (rt_Name t) (trim_space (tq_Name q))) (stored_tokens L S)"
    using u unfolding e by (simp add: list_all_iff list_ex_iff)
  ultimately show thesis using q(1) g n by (intro that)
qed

lemma parse_scope_list_nonempty: "parse_scope_list U raw \<noteq> []"
  by (simp add: parse_scope_list_def default_api_token_scopes_def Let_def)

lemma new_token_scopes_nonempty: "new_token_scopes L scopes \<noteq> []"
  by (simp add: new_token_scopes_def parse_scope_list_nonempty) (simp add: default_api_token_scopes_def)

lemma tokens_hash:
  "t \<in> set (api_tokens_from_runtime L now ts) \<Longrightarrow> \<exists>e \<in> set ts. tok_Hash t = rt_TokenHash e"
  unfolding api_tokens_from_runtime_def map_filter_member by (fastforce simp: runtime_token_entry_def split: if_splits)

lemma api_tokens_append:
  "api_tokens_from_runtime L now (ts @ us) = api_tokens_from_runtime L now ts @ api_tokens_from_runtime L now us"
  by (simp add: api_tokens_from_runtime_def List.map_filter_def)

lemma find_append_last: "(\<And>x. x \<in> set xs \<Longrightarrow> \<not> P x) \<Longrightarrow> P y \<Longrightarrow> List.find P (xs @ [y]) = Some y"
  by (induction xs) auto

lemma apply_runtime_pepper: "APITokenPepper (fst (apply_runtime L now f o')) = APITokenPepper o'"
  by (simp add: apply_runtime_def Let_def)

definition whole_second :: "instant \<Rightarrow> instant" where
  "whole_second t = t - t mod nanos_per_second"


text \<open>A save succeeds when nothing fails.\<close>

lemma save_runtime_succeeds:
  assumes "hl_fs L = no_faults" and "rl_marshal (hl_rt L) = (\<lambda>_. Some data)"
  shows "\<exists>S' keys. save_runtime L d patch S = (S', Inr keys)"
proof -
  have "\<exists>dk. persist (hl_rt L) (hl_fs L) t path f d0 = (dk, None)" for t path f d0
    using assms by (simp add: persist_def no_faults_def ensure_data_dir_def Let_def)
  then obtain dk where "persist (hl_rt L) (hl_fs L) (d_now d) (rm_path (sv_runtime S))
      ((merge_patch patch (rm_file (sv_runtime S)))\<lparr>rf_UpdatedAt := rl_format (hl_rt L) (d_now d), rf_Version := runtime_file_version\<rparr>)
      (rm_disk (sv_runtime S)) = (dk, None)" by blast
  then show ?thesis by (simp add: save_runtime_def save_overlay_def Let_def)
qed

text \<open>Time stamps in unary, with a sign.\<close>

definition unary_stamp :: "instant \<Rightarrow> string" where
  "unary_stamp t = (if whole_second t < 0 then CHR ''-'' else CHR ''+'') # replicate (nat \<bar>whole_second t\<bar>) (CHR ''1'')"

definition read_unary :: "string \<Rightarrow> instant option" where
  "read_unary s = (case s of [] \<Rightarrow> None | c # cs \<Rightarrow> Some (if c = CHR ''-'' then - int (length cs) else int (length cs)))"

definition token_http :: http_lib where
  "token_http = sample_http\<lparr>hl_rt := sample_lib\<lparr>rl_format := unary_stamp, rl_rfc3339 := read_unary\<rparr>,
     hl_token := (\<lambda>_. Some \<lparr>tq_Name = ''bot'', tq_Expire = [], tq_Scopes = [''read'']\<rparr>)\<rparr>"


section \<open>A saved configuration\<close>

text \<open>The answer 200 means that every field was valid, the file saved and applied.\<close>

lemma config_field_ok: "fst (config_field check (Some s)) = [] \<Longrightarrow> check (trim_space s) = Inr () \<and> snd (config_field check (Some s)) = Some (trim_space s)"
  by (auto simp: config_field_def Let_def split: sum.splits)

lemma put_config_saved:
  assumes "put_config L d r S = (S', rp)" and "rp_Status rp = 200"
  obtains q keys where "hl_config L (fst (read_body r)) = Some q" "config_errors q = []"
    "save_runtime L d (config_patch (opts S) q) S = (S', Inr keys)"
proof -
  obtain body where b: "read_body r = (body, False)" "\<not> effective_read_only (opts S)"
    using assms by (auto simp: put_config_def read_only_error_def split: if_splits prod.splits bool.splits)
  obtain q where q: "hl_config L body = Some q" using assms b by (auto simp: put_config_def split: option.splits)
  have e: "config_errors q = []" using assms b q by (auto simp: put_config_def split: if_splits)
  obtain ok where "save_reply (save_runtime L d (config_patch (opts S) q) S) ok = (S', rp)"
    using assms b q e by (auto simp: put_config_def Let_def)
  then have "fst (save_runtime L d (config_patch (opts S) q) S) = S'"
    "\<exists>keys. snd (save_runtime L d (config_patch (opts S) q) S) = Inr keys"
    using assms(2) save_reply_status fst_save_reply by (metis fst_conv, metis snd_conv)
  then show thesis using that b q e by (metis fst_conv prod.collapse)
qed

lemma field_in_patch:
  assumes "fst (config_field check x) = []" and "key = patch_key (snd (config_field check x)) kept" and "x = Some s"
  shows "check (trim_space s) = Inr () \<and> key = Some (trim_space s)"
  using assms config_field_ok [of check s] by (auto simp: patch_key_def)

lemma config_file:
  assumes "save_runtime L d (config_patch (opts S) q) S = (S', Inr keys)"
  defines "f \<equiv> rm_file (sv_runtime S')" and "old \<equiv> rm_file (sv_runtime S)"
  shows "rf_FriendlyNames f = patch_key (snd (config_field validate_friendly_names_csv (cq_FriendlyNames q))) (rf_FriendlyNames old)"
    "rf_IgnoreList f = patch_key (snd (config_field validate_ignore_list_csv (cq_IgnoreList q))) (rf_IgnoreList old)"
    "rf_HWIDMap f = patch_key (snd (config_field validate_hwid_map_csv (cq_HWIDMap q))) (rf_HWIDMap old)"
    "rf_HAButtons f = patch_key (snd (config_field validate_ha_buttons_csv (cq_HAButtons q))) (rf_HAButtons old)"
    "rf_HASwitches f = patch_key (snd (config_field validate_ha_switches_csv (cq_HASwitches q))) (rf_HASwitches old)"
    "rf_HADiscovery f = patch_key (cq_HADiscovery q) (rf_HADiscovery old)"
  by (simp_all add: save_runtime_saved(1) [OF assms(1)] f_def old_def merge_patch_def config_patch_def)

lemma shown_csv:
  assumes "save_runtime L d patch S = (S', Inr keys)"
  shows "rf_FriendlyNames (rm_file (sv_runtime S')) = Some s \<Longrightarrow> effective_friendly_csv S' = s"
    and "rf_IgnoreList (rm_file (sv_runtime S')) = Some s \<Longrightarrow> effective_ignore_csv S' = s"
    and "rf_HWIDMap (rm_file (sv_runtime S')) = Some s \<Longrightarrow> effective_hwid_csv S' = s"
proof -
  have src: "rm_sources (sv_runtime S') = snd (apply_runtime (hl_rt L) (d_now d) (rm_file (sv_runtime S')) (opts S))"
    using assms by (auto simp: save_runtime_def save_overlay_def Let_def split: prod.splits option.splits sum.splits)
  note defs = effective_friendly_csv_def effective_ignore_csv_def effective_hwid_csv_def runtime_snapshot_def
    src apply_runtime_def Let_def src_of_def effective_csv_def
  show "rf_FriendlyNames (rm_file (sv_runtime S')) = Some s \<Longrightarrow> effective_friendly_csv S' = s"
    and "rf_IgnoreList (rm_file (sv_runtime S')) = Some s \<Longrightarrow> effective_ignore_csv S' = s"
    and "rf_HWIDMap (rm_file (sv_runtime S')) = Some s \<Longrightarrow> effective_hwid_csv S' = s"
    by (simp_all add: defs)
qed

lemma save_runtime_failed:
  assumes "save_runtime L d patch S = (S', Inl e)"
  shows "opts S' = opts S \<and> rm_file (sv_runtime S') = rm_file (sv_runtime S) \<and> sv_hooks S' = sv_hooks S \<and>
    rm_disk (sv_runtime S') (rm_path (sv_runtime S)) = rm_disk (sv_runtime S) (rm_path (sv_runtime S))"
proof -
  obtain dk where p: "persist (hl_rt L) (hl_fs L) (d_now d) (rm_path (sv_runtime S))
      ((merge_patch patch (rm_file (sv_runtime S)))\<lparr>rf_UpdatedAt := rl_format (hl_rt L) (d_now d), rf_Version := runtime_file_version\<rparr>)
      (rm_disk (sv_runtime S)) = (dk, Some e)" and S': "S' = S\<lparr>sv_runtime := (sv_runtime S)\<lparr>rm_disk := dk\<rparr>\<rparr>"
    using assms by (auto simp: save_runtime_def save_overlay_def Let_def split: prod.splits option.splits sum.splits)
  have "dk (rm_path (sv_runtime S)) = rm_disk (sv_runtime S) (rm_path (sv_runtime S))"
    by (intro persist_failed_keeps [OF p]) auto
  then show ?thesis by (simp add: S')
qed

lemma put_config_refused:
  assumes "put_config L d r S = (S', rp)" and "rp_Status rp \<noteq> 200"
  shows "S' = S \<or> (\<exists>q e. save_runtime L d (config_patch (opts S) q) S = (S', Inl e))"
proof (rule ccontr)
  assume n: "\<not> ?thesis"
  obtain body where b: "read_body r = (body, False)" "\<not> effective_read_only (opts S)"
    using assms n by (auto simp: put_config_def split: if_splits prod.splits bool.splits)
  obtain q where q: "hl_config L body = Some q" using assms b n by (auto simp: put_config_def split: option.splits)
  have e: "config_errors q = []" using assms b q n by (auto simp: put_config_def split: if_splits)
  obtain ok where k: "save_reply (save_runtime L d (config_patch (opts S) q) S) ok = (S', rp)"
    using assms b q e by (auto simp: put_config_def Let_def)
  then have "fst (save_runtime L d (config_patch (opts S) q) S) = S'" by (metis fst_conv fst_save_reply)
  moreover have "\<nexists>keys. snd (save_runtime L d (config_patch (opts S) q) S) = Inr keys"
    using k assms(2) save_reply_status [of "save_runtime L d (config_patch (opts S) q) S" ok] by simp
  ultimately show False using n by (metis prod.collapse sum.exhaust)
qed

lemma config_in_force:
  assumes "config_errors q = []" and saved: "save_runtime L d (config_patch (opts S) q) S = (S', Inr keys)"
  shows "cq_FriendlyNames q = Some s \<Longrightarrow> validate_friendly_names_csv (trim_space s) = Inr () \<and>
      friendlyNameMap (opts S') = parse_colon_map (hl_tab L) (trim_space s) \<and> effective_friendly_csv S' = trim_space s"
    and "cq_IgnoreList q = Some s \<Longrightarrow> validate_ignore_list_csv (trim_space s) = Inr () \<and>
      ignoreSet (opts S') = parse_ignore_list (hl_tab L) (trim_space s) \<and> effective_ignore_csv S' = trim_space s"
    and "cq_HWIDMap q = Some s \<Longrightarrow> validate_hwid_map_csv (trim_space s) = Inr () \<and>
      hwidMap (opts S') = parse_colon_map (hl_tab L) (trim_space s) \<and> effective_hwid_csv S' = trim_space s"
    and "cq_HAButtons q = Some s \<Longrightarrow> validate_ha_buttons_csv (trim_space s) = Inr () \<and>
      haButtons (opts S') = parse_ha_buttons (trim_space s)"
    and "cq_HASwitches q = Some s \<Longrightarrow> validate_ha_switches_csv (trim_space s) = Inr () \<and>
      haSwitches (opts S') = parse_ha_switches (trim_space s)"
    and "cq_HADiscovery q = Some b \<Longrightarrow> HomeAssistantDiscovery (Publish (opts S')) = b"
proof -
  note sv = save_runtime_saved(2) [OF saved] and f = config_file [OF saved]
  have e: "fst (config_field validate_friendly_names_csv (cq_FriendlyNames q)) = []"
    "fst (config_field validate_ignore_list_csv (cq_IgnoreList q)) = []"
    "fst (config_field validate_hwid_map_csv (cq_HWIDMap q)) = []"
    "fst (config_field validate_ha_buttons_csv (cq_HAButtons q)) = []"
    "fst (config_field validate_ha_switches_csv (cq_HASwitches q)) = []"
    using assms(1) by (simp_all add: config_errors_def)
  show "cq_FriendlyNames q = Some s \<Longrightarrow> validate_friendly_names_csv (trim_space s) = Inr () \<and>
      friendlyNameMap (opts S') = parse_colon_map (hl_tab L) (trim_space s) \<and> effective_friendly_csv S' = trim_space s"
    using field_in_patch [OF e(1) f(1)] apply_runtime_keys(1) shown_csv(1) [OF saved] sv by metis
  show "cq_IgnoreList q = Some s \<Longrightarrow> validate_ignore_list_csv (trim_space s) = Inr () \<and>
      ignoreSet (opts S') = parse_ignore_list (hl_tab L) (trim_space s) \<and> effective_ignore_csv S' = trim_space s"
    using field_in_patch [OF e(2) f(2)] apply_runtime_keys(2) shown_csv(2) [OF saved] sv by metis
  show "cq_HWIDMap q = Some s \<Longrightarrow> validate_hwid_map_csv (trim_space s) = Inr () \<and>
      hwidMap (opts S') = parse_colon_map (hl_tab L) (trim_space s) \<and> effective_hwid_csv S' = trim_space s"
    using field_in_patch [OF e(3) f(3)] apply_runtime_keys(3) shown_csv(3) [OF saved] sv by metis
  show "cq_HAButtons q = Some s \<Longrightarrow> validate_ha_buttons_csv (trim_space s) = Inr () \<and>
      haButtons (opts S') = parse_ha_buttons (trim_space s)"
    using field_in_patch [OF e(4) f(4)] apply_runtime_keys(6) sv by metis
  show "cq_HASwitches q = Some s \<Longrightarrow> validate_ha_switches_csv (trim_space s) = Inr () \<and>
      haSwitches (opts S') = parse_ha_switches (trim_space s)"
    using field_in_patch [OF e(5) f(5)] apply_runtime_keys(7) sv by metis
  show "cq_HADiscovery q = Some b \<Longrightarrow> HomeAssistantDiscovery (Publish (opts S')) = b"
    using f(6) apply_runtime_keys(8) sv by (metis option.simps(5) patch_key_def)
qed


text \<open>A request that sets one friendly name.\<close>

definition config_http :: http_lib where
  "config_http = sample_http\<lparr>hl_config := (\<lambda>_. Some \<lparr>cq_FriendlyNames = Some '' A1:Door '', cq_IgnoreList = None,
     cq_HWIDMap = None, cq_HADiscovery = None, cq_HADiscoveryPrefix = None, cq_HAButtons = None, cq_HASwitches = None\<rparr>)\<rparr>"


section \<open>A deletion that fails\<close>

text \<open>The entries that a deletion keeps.\<close>

definition kept_token :: "http_lib \<Rightarrow> string \<Rightarrow> runtime_token \<Rightarrow> bool" where
  "kept_token L name t = (\<not> equal_fold (hl_tab L) (rt_Name t) name)"

lemma delete_token_file:
  assumes "delete_api_token L r d S = (S', rp)" and "rp_Status rp = 500"
    and "src_APITokens (rm_sources (sv_runtime S)) = ''runtime''" and "rf_APITokens (rm_file (sv_runtime S)) = Some ts"
  shows "\<exists>name. rf_APITokens (rm_file (sv_runtime S')) = Some (compact (kept_token L name) ts) \<and> opts S' = opts S \<and>
    rm_disk (sv_runtime S') (rm_path (sv_runtime S)) = rm_disk (sv_runtime S) (rm_path (sv_runtime S))"
proof -
  let ?n = "let q = trim_space (query_get r ''name'') in if q = [] then trim_space (hl_token_name L (fst (read_body r))) else q"
  let ?keep = "kept_token L ?n"
  let ?p = "nil_runtime_file\<lparr>rf_APITokens := Some (filter ?keep (stored_tokens L S))\<rparr>"
  have ro: "\<not> effective_read_only (opts S)" "?n \<noteq> []"
    using assms(1,2) by (auto simp: delete_api_token_def read_only_error_def Let_def split: if_splits)
  obtain ok where k: "save_reply (save_runtime L d ?p (filter_shared ?keep S)) ok = (S', rp)"
    using assms(1,3) ro unfolding delete_api_token_def kept_token_def [abs_def] by (simp add: Let_def)
  have f: "fst (save_runtime L d ?p (filter_shared ?keep S)) = S'" using k by (metis fst_conv fst_save_reply)
  have "\<nexists>keys. snd (save_runtime L d ?p (filter_shared ?keep S)) = Inr keys"
    using k assms(2) save_reply_status [of "save_runtime L d ?p (filter_shared ?keep S)" ok] by simp
  then obtain e where "save_runtime L d ?p (filter_shared ?keep S) = (S', Inl e)"
    using f by (metis prod.collapse sum.exhaust)
  from save_runtime_failed [OF this] show ?thesis
    using assms(3,4) by (intro exI [of _ ?n]) (simp add: filter_shared_def)
qed

lemma compact_cases:
  "set (compact keep xs) \<subseteq> set xs" "compact keep [x, y] = (if keep x then [x, y] else if keep y then [y, y] else [x, y])"
  by (auto simp: compact_def dest: in_set_dropD)

text \<open>The deletion answered with 500 shows in the list at once and is in force from the next save on, whatever that changes.\<close>

lemma failed_deletion_takes_effect_later:
  assumes "delete_api_token L r d S = (S', rp)" and "rp_Status rp = 500"
    and "src_APITokens (rm_sources (sv_runtime S)) = ''runtime''" and "rf_APITokens (rm_file (sv_runtime S)) = Some ts"
    and "save_runtime L d' (config_patch (opts S') q) S' = (S'', Inr keys)"
  shows "\<exists>name. apiTokens (opts S'') = api_tokens_from_runtime (hl_rt L) (d_now d') (compact (kept_token L name) ts)"
proof -
  obtain name where n: "rf_APITokens (rm_file (sv_runtime S')) = Some (compact (kept_token L name) ts)"
    using delete_token_file [OF assms(1-4)] by blast
  have "rf_APITokens (rm_file (sv_runtime S'')) = Some (compact (kept_token L name) ts)"
    by (simp add: save_runtime_saved(1) [OF assms(5)] merge_patch_def patch_key_def config_patch_def nil_runtime_file_def
        empty_runtime_file_def n)
  from apply_runtime_keys(4) [OF this] show ?thesis using save_runtime_saved(2) [OF assms(5)] by metis
qed

end
