(* ===== verification/HttpGuard.thy ===== *)
theory HttpGuard
  imports HttpApi
begin

text \<open>
  What the HTTP interface promises, for every request and every state: who may act, what a read-only server
  does, what an API token can reach, and the invariant that any sequence of requests keeps.
\<close>

section \<open>Routes\<close>

lemma protected_cases:
  assumes "map_of (protected_routes L d) p = Some h"
  obtains (reads) "h \<in> {handle_api_health L d, handle_api_sensors L, handle_api_raw, handle_serial_info L d, handle_config_backups L}"
  | (rate) "h = handle_api_rate_limit d"
  | (command) "p \<in> {''/api/v1/command'', ''/api/v1/ha/rediscover''}" "h = handle_api_command L d \<or> h = handle_api_rediscover L"
  | (config) "p = ''/api/v1/config''" "h = handle_api_config L d"
  | (restore) "p = ''/api/v1/config/restore''" "h = handle_config_restore L d"
  | (admin) "h = handle_api_tokens L d \<or> h = handle_webhooks L d \<or> h = handle_sessions L d"
proof -
  from assms have "(p, h) \<in> set (protected_routes L d)" by (rule map_of_SomeD)
  then show thesis by (auto simp: protected_routes_def intro: that)
qed

definition protected_path :: "string \<Rightarrow> bool" where
  "protected_path p = (p \<in> set [''/api/v1/health'', ''/api/v1/sensors'', ''/api/v1/rflink/raw'', ''/api/v1/command'',
     ''/api/v1/ha/rediscover'', ''/api/v1/config'', ''/api/v1/config/restore'', ''/api/v1/config/backups'',
     ''/api/v1/tokens'', ''/api/v1/webhooks'', ''/api/v1/sessions'', ''/api/v1/serial'', ''/api/v1/rate_limit''])"

lemma protected_path_eq: "protected_path p \<longleftrightarrow> p \<in> set (map fst (protected_routes L d))"
  by (simp add: protected_path_def protected_routes_def)

lemma protected_path_handler: "protected_path p \<Longrightarrow> \<exists>h. map_of (protected_routes L d) p = Some h"
proof -
  assume "protected_path p"
  then have "p \<in> fst ` set (protected_routes L d)" using protected_path_eq [of p L d] by simp
  then show ?thesis by (cases "map_of (protected_routes L d) p") (auto simp: map_of_eq_None_iff)
qed

text \<open>A request is either let through to a protected handler, or changes nothing behind the guard.\<close>

lemma serve_cases:
  obtains (through) h where "map_of (protected_routes L d) (hr_Path r) = Some h" "authorised L (d_now d) r S"
      "fst (serve L d r S) = fst (h r (seen (d_now d) r S))" "rp_Status (snd (serve L d r S)) = rp_Status (snd (h r (seen (d_now d) r S)))"
  | (unchanged) "behind (fst (serve L d r S)) = behind S"
      "protected_path (hr_Path r) \<Longrightarrow> hr_Method r \<noteq> ''OPTIONS'' \<Longrightarrow> hl_mux L r = None \<Longrightarrow>
        \<not> authorised L (d_now d) r S \<and> rp_Status (snd (serve L d r S)) \<in> {401, 403}"
proof (cases "hr_Method r = ''OPTIONS'' \<or> hl_mux L r \<noteq> None")
  case True
  then show thesis by (intro unchanged) (auto simp: serve_def Let_def)
next
  case False
  let ?ip = "client_ip (rl_net (hl_rt L)) (sv_trusted S) r"
  have s: "fst (serve L d r S) = fst (dispatch L d ?ip r S)" "rp_Status (snd (serve L d r S)) = rp_Status (snd (dispatch L d ?ip r S))"
    using False by (simp_all add: serve_def Let_def)
  show thesis
  proof (cases "map_of (protected_routes L d) (hr_Path r)")
    case (Some h)
    have dp: "dispatch L d ?ip r S = protect L d h r S" using Some by (simp add: dispatch_def)
    show thesis
    proof (cases rule: protect_cases [of L d r S h])
      case through
      then show thesis using that(1) [OF Some] s dp by simp
    next
      case (refused rp)
      then show thesis by (intro unchanged) (auto simp: s dp)
    qed
  next
    case None
    have "\<not> protected_path (hr_Path r)" using None protected_path_handler [of "hr_Path r" L d] by auto
    moreover have "behind (fst (dispatch L d ?ip r S)) = behind S"
    proof (cases "map_of (open_routes L d ?ip) (hr_Path r)")
      case (Some h)
      then show ?thesis using None open_route_keeps [OF map_of_SomeD [OF Some]] by (simp add: dispatch_def)
    qed (use None in \<open>simp add: dispatch_def\<close>)
    ultimately show thesis by (intro unchanged) (simp_all add: s)
  qed
qed

section \<open>Invariants of requests\<close>

text \<open>A condition on the state behind the guard that every protected handler keeps is kept by every request.\<close>

locale request_invariant =
  fixes L :: http_lib and keeps :: "server \<Rightarrow> bool"
  assumes handler: "map_of (protected_routes L d) p = Some h \<Longrightarrow> keeps S \<Longrightarrow> keeps (fst (h r S))"
    and behind_only: "behind S' = behind S \<Longrightarrow> keeps S \<Longrightarrow> keeps S'"
begin

lemma served: "keeps S \<Longrightarrow> keeps (fst (serve L d r S))"
proof (cases rule: serve_cases [of L d r S])
  case (through h)
  assume "keeps S"
  then have "keeps (seen (d_now d) r S)" by (rule behind_only [rotated]) simp
  then show ?thesis using handler [OF through(1)] through(3) by simp
qed (rule behind_only)

lemma served_all: "keeps S \<Longrightarrow> keeps (foldl (\<lambda>S (d, r). fst (serve L d r S)) S rs)"
proof (induction rs arbitrary: S)
  case (Cons x rs)
  then show ?case using served by (cases x) simp
qed simp

end

section \<open>Who may act\<close>

text \<open>C1: Only an authorised request reaches the application, the settings or the webhooks: one with a live session,
  whose mutating methods carry the CSRF token in cookie and header, or one without whose API token is valid
  and has the scope of the path. Every other request to a protected path is answered with 401 or 403.\<close>
theorem only_authorised_requests_act:
  "(behind (fst (serve L d r S)) \<noteq> behind S \<longrightarrow> protected_path (hr_Path r) \<and> authorised L (d_now d) r S) \<and>
   (\<not> authorised L (d_now d) r S \<and> protected_path (hr_Path r) \<and> hr_Method r \<noteq> ''OPTIONS'' \<and> hl_mux L r = None \<longrightarrow>
     behind (fst (serve L d r S)) = behind S \<and> rp_Status (snd (serve L d r S)) \<in> {401, 403})"
proof (cases rule: serve_cases [of L d r S])
  case (through h)
  have "hr_Path r \<in> set (map fst (protected_routes L d))" using map_of_SomeD [OF through(1)] by force
  then show ?thesis using through(2) protected_path_eq [of "hr_Path r" L d] by simp
qed auto

lemma only_authorised_requests_act_witness:
  "behind (fst (serve sample_http sample_draws (sample_request ''POST'' ''/api/v1/command'' ''10;PING;'') sample_server)) =
     behind sample_server \<and>
   rp_Status (snd (serve sample_http sample_draws (sample_request ''POST'' ''/api/v1/command'' ''10;PING;'') sample_server)) \<in> {401, 403}"
proof -
  let ?r = "sample_request ''POST'' ''/api/v1/command'' ''10;PING;''"
  have "\<not> authorised sample_http (d_now sample_draws) ?r sample_server" by (rule sample_unauthorised)
  moreover have "protected_path (hr_Path ?r)" "hr_Method ?r \<noteq> ''OPTIONS''" "hl_mux sample_http ?r = None"
    by (simp_all add: protected_path_def sample_http_def)
  ultimately show ?thesis
    using only_authorised_requests_act [of sample_http sample_draws ?r sample_server] by blast
qed

section \<open>A read-only server\<close>

text \<open>C5: On a read-only server, which a server without a GUI password always is, no request writes to the serial port,
  publishes, or changes settings, tokens or webhooks; a query of the rate limit may refill the bucket.\<close>
theorem read_only_changes_nothing:
  assumes "effective_read_only (opts S)"
  shows "sv_runtime (fst (serve L d r S)) = sv_runtime S \<and> sv_hooks (fst (serve L d r S)) = sv_hooks S \<and>
    ap_serial (sv_app (fst (serve L d r S))) = ap_serial (sv_app S) \<and> ap_pub (sv_app (fst (serve L d r S))) = ap_pub (sv_app S)"
proof (cases rule: serve_cases [of L d r S])
  case (through h)
  let ?S = "seen (d_now d) r S"
  have ro: "effective_read_only (opts ?S)" using assms by simp
  from through(1) have "behind (fst (h r ?S)) = behind S \<or>
    fst (h r ?S) = ?S\<lparr>sv_app := fst (command_rate_status (opts ?S) (d_now d) (sv_app ?S))\<rparr>"
  proof (cases rule: protected_cases)
    case reads
    then show ?thesis by (auto simp: reading_frame)
  next
    case rate
    then show ?thesis using rate_limit_frame [of d r ?S] by auto
  next
    case command
    then show ?thesis using command_frame(3) [OF ro] rediscover_frame(3) [OF ro] by auto
  next
    case config
    then show ?thesis using config_frame(2) [OF ro] by simp
  next
    case restore
    then show ?thesis using restore_frame(2) [OF ro] by simp
  next
    case admin
    then show ?thesis using admin_frame(2) [OF admin ro] by simp
  qed
  then show ?thesis unfolding through(3) by (auto simp: behind_def)
qed (auto simp: behind_def)

definition locked_server :: server where
  "locked_server = sample_server\<lparr>sv_runtime := sample_manager\<rparr>"

lemma locked_read_only: "effective_read_only (opts locked_server)"
  by (simp add: locked_server_def sample_manager_def effective_read_only_def gui_locked_def sample_config_def sample_options_def)

lemma read_only_changes_nothing_witness:
  "sv_runtime (fst (serve sample_http sample_draws (sample_request ''PUT'' ''/api/v1/config'' ''x'') locked_server)) =
     sv_runtime locked_server"
  using read_only_changes_nothing [OF locked_read_only, of sample_http sample_draws "sample_request ''PUT'' ''/api/v1/config'' ''x''"]
  by blast

section \<open>API tokens\<close>



end
