(* ===== verification/HttpLogin.thy ===== *)
theory HttpLogin
  imports HttpApi
begin

text \<open>
  The login endpoint with its limiter: how many tokens of one address are looked at over HTTP, what a
  login does to the sessions, and whose address the limiter counts.
\<close>

section \<open>A login\<close>

definition login_csrf_ok :: "request \<Rightarrow> bool" where
  "login_csrf_ok r = (csrf_cookie r = [] \<or> csrf_header r = csrf_cookie r)"

lemma login_finish_simps:
  assumes "\<not> gui_locked (opts S)"
  shows "sv_login (fst (login_finish L d ip r S)) =
      (if gui_token_ok (login_token L r) (opts S) then login_success (login_address ip r) (sv_login S)
       else login_fail (d_now d) (d_now d) (login_address ip r) (sv_login S))"
    and "rp_Status (snd (login_finish L d ip r S)) \<in> {200, 401, 500}"
    and "rp_Status (snd (login_finish L d ip r S)) = 401 \<longleftrightarrow> \<not> gui_token_ok (login_token L r) (opts S)"
    and "opts (fst (login_finish L d ip r S)) = opts S"
  using assms by (auto simp: login_finish_def Let_def split: prod.splits sum.splits)

text \<open>The limiter sees a login as one \<open>login_try\<close>, provided the CSRF check passes; otherwise not at all.\<close>

lemma session_login_refines:
  assumes "\<not> gui_locked (opts S)" and "login_csrf_ok r"
    and "login_try (login_address ip r) (d_now d, gui_token_ok (login_token L r) (opts S)) (sv_login S) = (l, lk)"
  shows "sv_login (fst (session_login L d ip r S)) = l" and "opts (fst (session_login L d ip r S)) = opts S"
    and "rp_Status (snd (session_login L d ip r S)) \<in> (if lk then {200, 401, 500} else {429})"
    and "lk \<Longrightarrow> rp_Status (snd (session_login L d ip r S)) = 401 \<longleftrightarrow> \<not> gui_token_ok (login_token L r) (opts S)"
proof -
  obtain l' ok t where a: "login_allow (d_now d) (login_address ip r) (sv_login S) = (l', ok, t)" by (cases rule: prod_cases3)
  have c: "\<not> (csrf_cookie r \<noteq> [] \<and> csrf_header r \<noteq> csrf_cookie r)" using assms(2) by (auto simp: login_csrf_ok_def)
  let ?S = "S\<lparr>sv_login := l'\<rparr>"
  note f = login_finish_simps [of ?S L d ip r]
  have "sv_login (fst (session_login L d ip r S)) = l \<and> opts (fst (session_login L d ip r S)) = opts S \<and>
    rp_Status (snd (session_login L d ip r S)) \<in> (if lk then {200, 401, 500} else {429}) \<and>
    (lk \<longrightarrow> (rp_Status (snd (session_login L d ip r S)) = 401 \<longleftrightarrow> \<not> gui_token_ok (login_token L r) (opts S)))"
  proof (cases ok)
    case True
    have s: "session_login L d ip r S = login_finish L d ip r ?S"
      by (simp add: session_login_def login_gate_def c a True)
    have lt: "l = sv_login (fst (login_finish L d ip r ?S))" "lk"
      using assms(1,3) a True f(1) by (auto simp: login_try_def split: if_splits)
    show ?thesis unfolding s using f assms(1) lt by simp
  next
    case False
    then show ?thesis using assms(3) a by (auto simp: session_login_def login_gate_def c login_try_def write_json_def)
  qed
  then show "sv_login (fst (session_login L d ip r S)) = l" "opts (fst (session_login L d ip r S)) = opts S"
    "rp_Status (snd (session_login L d ip r S)) \<in> (if lk then {200, 401, 500} else {429})"
    "lk \<Longrightarrow> rp_Status (snd (session_login L d ip r S)) = 401 \<longleftrightarrow> \<not> gui_token_ok (login_token L r) (opts S)"
    by blast+
qed

lemma login_csrf_refused:
  "\<not> login_csrf_ok r \<Longrightarrow> session_login L d ip r S = (S, error_json 403 ''csrf_failed'')"
  by (auto simp: session_login_def login_gate_def login_csrf_ok_def)

section \<open>Guessing over HTTP\<close>

text \<open>A sequence of logins: for each the address that is counted, the time, and the status of the answer.\<close>

fun logins :: "http_lib \<Rightarrow> (draws \<times> string \<times> request) list \<Rightarrow> server \<Rightarrow> (string \<times> instant \<times> nat) list" where
  "logins L [] S = []"
| "logins L (e # es) S = (case e of (d, ip, r) \<Rightarrow>
     (case session_login L d ip r S of (S', rp) \<Rightarrow> (login_address ip r, d_now d, rp_Status rp) # logins L es S'))"

definition login_event_of :: "http_lib \<Rightarrow> options \<Rightarrow> draws \<times> string \<times> request \<Rightarrow> login_event" where
  "login_event_of L o' e = (case e of (d, ip, r) \<Rightarrow> (login_address ip r, d_now d, gui_token_ok (login_token L r) o'))"

definition events :: "http_lib \<Rightarrow> options \<Rightarrow> (draws \<times> string \<times> request) list \<Rightarrow> login_event list" where
  "events L o' es = map (login_event_of L o') (filter (\<lambda>(d, ip, r). login_csrf_ok r) es)"

lemma refused_tokens_looked_at:
  assumes "\<not> gui_locked (opts S)"
  shows "map (\<lambda>(a, t, s). (a, t)) (filter (\<lambda>(a, t, s). s = 401) (logins L es S)) =
    map (\<lambda>(a, t, ok). (a, t)) (filter (\<lambda>(a, t, ok). \<not> ok) (looked_at (events L (opts S) es) (sv_login S)))"
  using assms
proof (induction es arbitrary: S)
  case Nil
  then show ?case by (simp add: events_def)
next
  case (Cons e es)
  obtain d ip r where e: "e = (d, ip, r)" by (cases e)
  show ?case
  proof (cases "login_csrf_ok r")
    case False
    then show ?thesis using Cons by (simp add: e events_def login_csrf_refused)
  next
    case True
    obtain l lk where t: "login_try (login_address ip r) (d_now d, gui_token_ok (login_token L r) (opts S)) (sv_login S) = (l, lk)"
      by fastforce
    note f = session_login_refines [OF Cons.prems True t]
    obtain S' rp where s: "session_login L d ip r S = (S', rp)" by fastforce
    have S': "sv_login S' = l" "opts S' = opts S" using f(1,2) s by simp_all
    have IH: "map (\<lambda>(a, t, s). (a, t)) (filter (\<lambda>(a, t, s). s = 401) (logins L es S')) =
      map (\<lambda>(a, t, ok). (a, t)) (filter (\<lambda>(a, t, ok). \<not> ok) (looked_at (events L (opts S) es) l))"
      using Cons.IH [of S'] Cons.prems S' by simp
    have ev: "events L (opts S) ((d, ip, r) # es) = (login_address ip r, d_now d, gui_token_ok (login_token L r) (opts S)) # events L (opts S) es"
      using True by (simp add: events_def e login_event_of_def)
    show ?thesis
    proof (cases lk)
      case True
      then show ?thesis using f(4) IH by (simp add: e s ev t)
    next
      case False
      then have "rp_Status rp = 429" using f(3) s by simp
      then show ?thesis using IH False by (simp add: e s ev t)
    qed
  qed
qed



section \<open>Whose address the limiter counts\<close>

definition peer_host :: "request \<Rightarrow> string" where
  "peer_host r = (case split_host_port (hr_RemoteAddr r) of None \<Rightarrow> hr_RemoteAddr r | Some (h, _) \<Rightarrow> h)"


text \<open>Behind a proxy that appends to \<open>X-Forwarded-For\<close>, the client chooses the address: what it sends comes first.\<close>
lemma appended_address_ignored:
  assumes "nl_parse_ip N (peer_host r) = Some a" and "ip_in_nets a trusted" and "trim_space (header_get r header_real_ip) = []"
    and "header_get r ''X-Forwarded-For'' = chosen @ '','' @ appended" and "CHR '','' \<notin> set chosen"
    and "nl_parse_ip N (trim_space chosen) \<noteq> None"
  shows "client_ip N trusted r = trim_space chosen"
proof -
  have "split_on (CHR '','') (chosen @ '','' @ appended) ! 0 = chosen"
    using assms(5) by (simp add: split_on_append)
  then show ?thesis
    using assms unfolding client_ip_def peer_host_def [symmetric] Let_def by simp
qed

end
