(* ===== verification/HttpSessions.thy ===== *)
theory HttpSessions
  imports HttpGuard HttpLogin
begin

text \<open>
  The sessions across requests: no request but a login with the GUI password adds one, and any sequence of
  requests keeps the invariants of the session store and of the hub of the raw feed.
\<close>

section \<open>The sessions and the hub in every handler\<close>

definition front :: "server \<Rightarrow> store \<times> raw_hub \<times> (webhook \<times> string) list" where
  "front S = (sv_sessions S, sv_hub S, hm_pushes (sv_hooks S))"

lemma front_simps [simp]:
  "front (S\<lparr>sv_app := a\<rparr>) = front S" "front (S\<lparr>sv_runtime := m\<rparr>) = front S" "front (S\<lparr>sv_login := l\<rparr>) = front S"
  by (simp_all add: front_def)

lemma save_runtime_front [simp]: "front (fst (save_runtime L d patch S)) = front S"
proof -
  have "hm_pushes (sv_hooks (fst (save_runtime L d patch S))) = hm_pushes (sv_hooks S)"
    by (simp add: save_runtime_def hooks_reload_def hooks_stop_def split: prod.split sum.split)
  then show ?thesis by (cases "save_runtime L d patch S") (simp add: front_def save_runtime_keeps)
qed

lemma persist_webhooks_front [simp]: "front (fst (persist_webhooks L d hs S)) = front S"
  by (simp add: persist_webhooks_def split_def split: sum.split)

lemma filter_shared_front [simp]: "front (filter_shared keep S) = front S"
  by (simp add: filter_shared_def)

lemma create_webhook_front: "front (fst (create_webhook L d r S)) = front S"
  unfolding create_webhook_def fst_of_cases by (simp split: option.split sum.split)

lemma update_webhook_front: "front (fst (update_webhook L d r S)) = front S"
  unfolding update_webhook_def fst_of_cases by (simp split: option.split sum.split)

lemma delete_webhook_front: "front (fst (delete_webhook L d r S)) = front S"
  unfolding delete_webhook_def fst_of_cases by (simp split: sum.split)

lemma create_api_token_front: "front (fst (create_api_token L d r S)) = front S"
  unfolding create_api_token_def fst_of_cases fst_save_reply by (simp split: option.split sum.split)

lemma delete_api_token_front: "front (fst (delete_api_token L r d S)) = front S"
  unfolding delete_api_token_def Let_def if_distrib [of fst] fst_save_reply fst_conv
  by (simp only: if_distrib [of front] save_runtime_front filter_shared_front if_cancel)

lemma put_config_front: "front (fst (put_config L d r S)) = front S"
  by (simp add: put_config_def Let_def split: prod.split bool.split option.split)

lemma restore_front: "front (fst (handle_config_restore L d r S)) = front S"
  by (auto simp: handle_config_restore_def Let_def split: prod.splits option.splits)

lemma command_front: "front (fst (handle_api_command L d r S)) = front S"
  by (auto simp: handle_api_command_def Let_def split: prod.splits bool.splits)

lemma rediscover_front: "front (fst (handle_api_rediscover L r S)) = front S"
  by (simp add: handle_api_rediscover_def)

text \<open>A store that has lost sessions.\<close>

definition fewer :: "store \<Rightarrow> store \<Rightarrow> bool" where
  "fewer st' st \<longleftrightarrow> (\<exists>P. st' = filter P st)"

lemma fewer_refl [simp, intro]: "fewer st st"
  by (auto simp: fewer_def intro: exI [of _ "\<lambda>_. True"])

lemma fewer_trans: "fewer st3 st2 \<Longrightarrow> fewer st2 st1 \<Longrightarrow> fewer st3 st1"
  by (auto simp: fewer_def)

lemma fewer_inv: "fewer st' st \<Longrightarrow> store_inv st \<Longrightarrow> store_inv st'"
  by (auto simp: fewer_def store_inv_filter)

lemma fewer_set: "fewer st' st \<Longrightarrow> x \<in> set st' \<Longrightarrow> x \<in> set st"
  by (auto simp: fewer_def)

lemma fewer_filter [intro]: "fewer (filter P st) st"
  by (auto simp: fewer_def)

lemma fewer_delete [intro]: "fewer (AList.delete i st) st"
  unfolding AList.delete_eq by (rule fewer_filter)

lemma fewer_get: "fewer (fst (session_get now i st)) st"
  by (auto simp: session_get_def split: option.split)

lemma fewer_revoke: "fewer (fst (session_revoke i st)) st"
  by (auto simp: session_revoke_def split: option.split)

lemma fewer_revoke_all: "fewer (fst (revoke_all_except i st)) st"
  by (auto simp: revoke_all_except_def)

lemma fewer_request: "fewer (fst (request_session now r st)) st"
  using fewer_get [of now "session_id_from_request r" st] by (auto simp: request_session_def Let_def split: prod.splits)

lemma fewer_seen: "fewer (sv_sessions (seen now r S)) (sv_sessions S)"
  by (simp add: seen_def fewer_request)

lemma delete_sessions_effect:
  "fewer (sv_sessions (fst (delete_sessions L r S))) (sv_sessions S)" "sv_hub (fst (delete_sessions L r S)) = sv_hub S"
  "sv_hooks (fst (delete_sessions L r S)) = sv_hooks S"
  using fewer_revoke fewer_revoke_all
  unfolding delete_sessions_def Let_def split_def if_distrib [of fst] bool.case_distrib [of fst] fst_conv
  by (simp_all split: bool.split)

text \<open>What a protected handler does to the sessions: at most it removes some.\<close>

lemma admin_front:
  assumes "h = handle_api_tokens L d \<or> h = handle_webhooks L d \<or> h = handle_sessions L d"
  shows "fewer (sv_sessions (fst (h r S))) (sv_sessions S)" and "sv_hub (fst (h r S)) = sv_hub S"
    and "hm_pushes (sv_hooks (fst (h r S))) = hm_pushes (sv_hooks S)"
proof -
  obtain S1 x where g: "require_gui_session (d_now d) r S = (S1, x)" by fastforce
  have S1: "fewer (sv_sessions S1) (sv_sessions S)" "sv_hub S1 = sv_hub S" "sv_hooks S1 = sv_hooks S"
    using require_gui_session_eq(1) [of "d_now d" r S] g fewer_seen [of "d_now d" r S] by (auto split: if_splits)
  have f: "sv_sessions A = sv_sessions B \<and> sv_hub A = sv_hub B \<and> hm_pushes (sv_hooks A) = hm_pushes (sv_hooks B)" if "front A = front B" for A B
    using that by (simp add: front_def)
  note defs = handle_api_tokens_def handle_webhooks_def handle_sessions_def g Let_def
    create_api_token_front [THEN f] delete_api_token_front [THEN f] create_webhook_front [THEN f]
    update_webhook_front [THEN f] delete_webhook_front [THEN f] delete_sessions_effect S1
  show "sv_hub (fst (h r S)) = sv_hub S" "hm_pushes (sv_hooks (fst (h r S))) = hm_pushes (sv_hooks S)"
    using assms by (auto simp: defs split: option.split)
  show "fewer (sv_sessions (fst (h r S))) (sv_sessions S)"
    using assms fewer_trans [OF delete_sessions_effect(1) S1(1)] by (auto simp: defs split: option.split)
qed

lemma protected_front:
  assumes "map_of (protected_routes L d) p = Some h"
  shows "fewer (sv_sessions (fst (h r S))) (sv_sessions S)" and "sv_hub (fst (h r S)) = sv_hub S"
    and "hm_pushes (sv_hooks (fst (h r S))) = hm_pushes (sv_hooks S)"
proof -
  have "front (fst (h r S)) = front S \<or> (h = handle_api_tokens L d \<or> h = handle_webhooks L d \<or> h = handle_sessions L d)"
    using assms
  proof (cases rule: protected_cases)
    case reads
    then show ?thesis by (auto simp: reading_frame)
  next
    case rate
    then show ?thesis using rate_limit_frame [of d r S] by auto
  next
    case command
    then show ?thesis by (auto simp: command_front rediscover_front)
  next
    case config
    then show ?thesis by (simp add: handle_api_config_def put_config_front)
  next
    case restore
    then show ?thesis by (simp add: restore_front)
  qed blast
  then show "fewer (sv_sessions (fst (h r S))) (sv_sessions S)" "sv_hub (fst (h r S)) = sv_hub S"
    "hm_pushes (sv_hooks (fst (h r S))) = hm_pushes (sv_hooks S)"
    using admin_front [of h L d r S] by (auto simp: front_def)
qed

section \<open>The open routes\<close>

lemma fewer_evict: "fewer (evict rank st) st"
proof (induction rank st rule: evict.induct)
  case (1 rank st)
  show ?case
  proof (cases "\<not> length st < max_sessions \<and> (\<exists>e. oldest (range_order (rank (length st)) st) = Some e \<and> fst e \<noteq> [])")
    case True
    then obtain e where e: "\<not> length st < max_sessions" "oldest (range_order (rank (length st)) st) = Some e" "fst e \<noteq> []"
      by blast
    then have "evict rank st = evict rank (AList.delete (fst e) st)" by (simp add: evict.simps [of rank st])
    then show ?thesis using fewer_trans [OF 1 [OF e] fewer_delete] by simp
  next
    case False
    then have "evict rank st = st" by (auto simp: evict.simps [of rank st] split: option.split)
    then show ?thesis by simp
  qed
qed

lemma created_session:
  assumes "session_create rank rnd now ip st = (st', x)" and "e \<in> set st'" and "e \<notin> set st"
  shows "\<exists>i. rnd = Inr i \<and> x = Inr (snd e) \<and>
    e = (i, \<lparr>ses_ID = i, ses_CreatedAt = now, ses_ExpiresAt = now + session_ttl, ses_IP = ip\<rparr>)"
  using assms fewer_set [OF fewer_evict, of e rank st]
  by (auto simp: session_create_def Let_def split: sum.splits elim: set_update_cases)

text \<open>The session that a login creates.\<close>

definition login_session :: "draws \<Rightarrow> string \<Rightarrow> request \<Rightarrow> string \<Rightarrow> session" where
  "login_session d ip r i = \<lparr>ses_ID = i, ses_CreatedAt = d_now d, ses_ExpiresAt = d_now d + session_ttl,
     ses_IP = login_address ip r\<rparr>"

definition right_login :: "http_lib \<Rightarrow> instant \<Rightarrow> string \<Rightarrow> request \<Rightarrow> server \<Rightarrow> bool" where
  "right_login L now ip r S \<longleftrightarrow> \<not> gui_locked (opts S) \<and> gui_token_ok (login_token L r) (opts S) \<and> login_csrf_ok r \<and>
     fst (snd (login_allow now (login_address ip r) (sv_login S)))"

lemma login_session_added:
  assumes "session_login L d ip r S = (S', rp)" and "e \<in> set (sv_sessions S')" and "e \<notin> set (sv_sessions S)"
  shows "right_login L (d_now d) ip r S \<and> rp_Status rp = 200 \<and> random_session_id (d_session_id d) = Inr (fst e) \<and>
    snd e = login_session d ip r (fst e)"
proof -
  obtain l ok t where a: "login_allow (d_now d) (login_address ip r) (sv_login S) = (l, ok, t)" by (cases rule: prod_cases3)
  have c: "login_csrf_ok r" "ok" and f: "login_finish L d ip r (S\<lparr>sv_login := l\<rparr>) = (S', rp)"
    using assms a by (auto simp: session_login_def login_gate_def login_csrf_ok_def split: if_splits bool.splits)
  have g: "\<not> gui_locked (opts S)" "gui_token_ok (login_token L r) (opts S)"
    using f assms(2,3) by (auto simp: login_finish_def Let_def split: if_splits)
  obtain st x where s: "session_create (d_evict_rank d) (random_session_id (d_session_id d)) (d_now d) (login_address ip r)
      (sv_sessions S) = (st, x)" by fastforce
  have st: "sv_sessions S' = st" "rp_Status rp = 200 \<longleftrightarrow> (\<exists>s. x = Inr s)"
    using f g s by (auto simp: login_finish_def Let_def split: sum.splits prod.splits)
  show ?thesis
    using created_session [OF s] assms(2,3) g c a st by (fastforce simp: right_login_def login_session_def)
qed

lemma login_finish_hub: "sv_hub (fst (login_finish L d ip r S)) = sv_hub S"
  by (simp add: login_finish_def Let_def split: prod.splits sum.splits)

lemma login_finish_inv:
  assumes "store_inv (sv_sessions S)" and "d_session_id d \<noteq> Inr []"
  shows "store_inv (sv_sessions (fst (login_finish L d ip r S)))"
proof -
  have n: "\<forall>i. random_session_id (d_session_id d) = Inr i \<longrightarrow> i \<noteq> []"
    using assms(2) by (auto simp: random_session_id_def hex_encode_def split: sum.splits)
  note store_inv_create [OF assms(1) n, where rank = "d_evict_rank d" and now = "d_now d" and ip = "login_address ip r"]
  then show ?thesis using assms(1) by (auto simp: login_finish_def Let_def split: prod.splits sum.splits)
qed

lemma session_login_hub: "sv_hub (fst (session_login L d ip r S)) = sv_hub S"
proof -
  obtain S1 x where g: "login_gate (d_now d) ip r S = (S1, x)" by fastforce
  have "sv_hub S1 = sv_hub S" using g by (auto simp: login_gate_def split: prod.splits bool.splits if_splits)
  then show ?thesis using login_finish_hub [of L d ip r S1] by (simp add: session_login_def g split: option.split)
qed

lemma session_login_inv:
  assumes "store_inv (sv_sessions S)" and "d_session_id d \<noteq> Inr []"
  shows "store_inv (sv_sessions (fst (session_login L d ip r S)))"
proof -
  obtain S1 x where g: "login_gate (d_now d) ip r S = (S1, x)" by fastforce
  have S1: "sv_sessions S1 = sv_sessions S" using g by (auto simp: login_gate_def split: prod.splits bool.splits if_splits)
  show ?thesis
    using login_finish_inv [of S1 d L ip r] assms S1 by (simp add: session_login_def g split: option.split)
qed

lemma logout_fewer:
  "fewer (sv_sessions (fst (session_logout now r S))) (sv_sessions S)" "sv_hub (fst (session_logout now r S)) = sv_hub S"
proof -
  obtain S1 x where g: "check_csrf now r S = (S1, x)" by fastforce
  have S1: "S1 = seen now r S" using check_csrf_eq(1) [of now r S] g by simp
  show "sv_hub (fst (session_logout now r S)) = sv_hub S"
    by (auto simp: session_logout_def g S1 Let_def split: option.split)
  show "fewer (sv_sessions (fst (session_logout now r S))) (sv_sessions S)"
    using fewer_trans [OF fewer_revoke fewer_seen [of now r S]] fewer_seen [of now r S]
    by (auto simp: session_logout_def g S1 Let_def split: option.split)
qed

lemma open_fewer:
  "fewer (sv_sessions (fst (session_status L now r S))) (sv_sessions S)" "sv_hub (fst (session_status L now r S)) = sv_hub S"
  "fewer (sv_sessions (fst (handle_meta L now r S))) (sv_sessions S)" "sv_hub (fst (handle_meta L now r S)) = sv_hub S"
  using fewer_get [of now "session_id_from_request r" "sv_sessions S"] fewer_request [of now r "sv_sessions S"]
  by (auto simp: session_status_def handle_meta_def Let_def split: prod.splits option.splits)

lemma raw_ws_fewer:
  "fewer (sv_sessions (fst (handle_raw_ws L d r S))) (sv_sessions S) \<and>
   (sv_hub (fst (handle_raw_ws L d r S)) = sv_hub S \<or>
    sv_hub (fst (handle_raw_ws L d r S)) = fst (hub_subscribe (sv_hub S)))"
proof -
  obtain S1 b where g: "check_auth_ws L (d_now d) r S = (S1, b)" by fastforce
  have "S1 = seen (d_now d) r S"
    using g by (auto simp: check_auth_ws_def seen_def Let_def split: prod.splits bool.splits)
  then show ?thesis
    using fewer_seen [of "d_now d" r S] by (auto simp: handle_raw_ws_def g split: bool.split option.split)
qed

text \<open>Every request removes sessions, subscribes to the feed, or is a login.\<close>

lemma serve_front:
  obtains (others) "fewer (sv_sessions (fst (serve L d r S))) (sv_sessions S)"
      "sv_hub (fst (serve L d r S)) = sv_hub S \<or> sv_hub (fst (serve L d r S)) = fst (hub_subscribe (sv_hub S))"
  | (login) S' rp where "hr_Path r = ''/api/v1/session''" "hr_Method r = ''POST''"
      "session_login L d (client_ip (rl_net (hl_rt L)) (sv_trusted S) r) r S = (S', rp)"
      "fst (serve L d r S) = S'" "rp_Status (snd (serve L d r S)) = rp_Status rp"
proof (cases "hr_Method r = ''OPTIONS'' \<or> hl_mux L r \<noteq> None")
  case True
  then have "fst (serve L d r S) = S" by (auto simp: serve_def Let_def)
  then show thesis by (intro others) simp_all
next
  case False
  let ?ip = "client_ip (rl_net (hl_rt L)) (sv_trusted S) r"
  have s: "fst (serve L d r S) = fst (dispatch L d ?ip r S)" "rp_Status (snd (serve L d r S)) = rp_Status (snd (dispatch L d ?ip r S))"
    using False by (simp_all add: serve_def Let_def)
  show thesis
  proof (cases "map_of (protected_routes L d) (hr_Path r)")
    case (Some h)
    have dp: "dispatch L d ?ip r S = protect L d h r S" using Some by (simp add: dispatch_def)
    show thesis
    proof (cases rule: protect_cases [of L d r S h])
      case through
      show thesis
        using protected_front [OF Some, of r "seen (d_now d) r S"] fewer_trans [OF _ fewer_seen] s dp through
        by (intro others) simp_all
    next
      case (refused rp)
      then show thesis using fewer_seen [of "d_now d" r S] by (intro others) (simp_all add: s dp)
    qed
  next
    case None
    show thesis
    proof (cases "map_of (open_routes L d ?ip) (hr_Path r)")
      case N: None
      then show thesis using None by (intro others) (simp_all add: s dispatch_def)
    next
      case (Some h)
      have dp: "dispatch L d ?ip r S = h r S" using None Some by (simp add: dispatch_def)
      from map_of_SomeD [OF Some]
      consider "fst (h r S) = S" | "h = handle_meta L (d_now d)" | "h = handle_raw_ws L d"
        | "h = handle_session L d ?ip" "hr_Path r = ''/api/v1/session''"
        by (auto simp: open_routes_def)
      then show thesis
      proof cases
        case 4
        show thesis
        proof (cases "hr_Method r = ''POST''")
          case True
          then show thesis using login [OF 4(2) True] s by (cases "session_login L d ?ip r S") (simp add: dp 4 handle_session_def)
        next
          case False
          then show thesis using logout_fewer open_fewer
            by (intro others) (simp_all add: s dp 4 handle_session_def)
        qed
      qed (use open_fewer raw_ws_fewer [of L d r S] in \<open>intro others; simp add: s dp\<close>)+
    qed
  qed
qed

section \<open>Only a login makes a session\<close>

text \<open>C4: A session comes into being only by a login: a POST to the session endpoint with the GUI password, from an
  address that the limiter allows, whose CSRF header matches its cookie if it has one, and answered with 200.
  It is recorded under a fresh random identifier, for the address that the limiter counted, and expires after
  the lifetime of sessions. Every other request, whatever its body, leaves only sessions that were there.\<close>
theorem sessions_only_by_login:
  assumes "e \<in> set (sv_sessions (fst (serve L d r S)))" and "e \<notin> set (sv_sessions S)"
  shows "hr_Method r = ''POST'' \<and> hr_Path r = ''/api/v1/session'' \<and>
    right_login L (d_now d) (client_ip (rl_net (hl_rt L)) (sv_trusted S) r) r S \<and>
    rp_Status (snd (serve L d r S)) = 200 \<and> random_session_id (d_session_id d) = Inr (fst e) \<and>
    snd e = login_session d (client_ip (rl_net (hl_rt L)) (sv_trusted S) r) r (fst e)"
proof (cases rule: serve_front [of L d r S])
  case others
  then show ?thesis using fewer_set assms by blast
next
  case (login S' rp)
  then show ?thesis using login_session_added [OF login(3)] assms by simp
qed

lemma login_finish_sessions:
  assumes "\<not> gui_locked (opts S)" and "gui_token_ok (login_token L r) (opts S)"
  shows "sv_sessions (fst (login_finish L d ip r S)) = fst (session_create (d_evict_rank d) (random_session_id (d_session_id d))
    (d_now d) (login_address ip r) (sv_sessions S))"
  using assms by (simp add: login_finish_def Let_def split: prod.split sum.split)

lemma login_accepts_password:
  "sv_sessions (fst (serve sample_http sample_draws (sample_request ''POST'' ''/api/v1/session'' ''gate'') sample_server)) =
     [(''01020304'', login_session sample_draws ''10.0.0.9'' (sample_request ''POST'' ''/api/v1/session'' ''gate'') ''01020304'')]"
proof -
  let ?r = "sample_request ''POST'' ''/api/v1/session'' ''gate''"
  have ip: "client_ip (rl_net (hl_rt sample_http)) (sv_trusted sample_server) ?r = ''10.0.0.9''"
    by (simp add: sample_server_def sample_request_def sample_http_def) code_simp
  have tok: "gui_token_ok (login_token sample_http ?r) (opts sample_server)"
    unfolding sample_opts by (simp add: gui_token_ok_def Let_def) code_simp
  have mux: "hl_mux sample_http = (\<lambda>_. None)" by (simp add: sample_http_def)
  have "snd (login_allow 9 ''10.0.0.9'' new_login_limiter) = (True, 0)" by code_simp
  then obtain l where al: "login_allow 9 ''10.0.0.9'' new_login_limiter = (l, True, 0)"
    by (metis prod.collapse)
  have id: "random_session_id (Inr [1, 2, 3, 4]) = Inr ''01020304''" by code_simp
  have ev: "evict rank [] = []" for rank by (simp add: evict.simps max_sessions_def)
  have lg: "session_login sample_http sample_draws ''10.0.0.9'' ?r sample_server =
      login_finish sample_http sample_draws ''10.0.0.9'' ?r (sample_server\<lparr>sv_login := l\<rparr>)"
    using al by (simp add: session_login_def login_gate_def login_address_def sample_draws_def sample_server_def)
  have "sv_sessions (fst (login_finish sample_http sample_draws ''10.0.0.9'' ?r (sample_server\<lparr>sv_login := l\<rparr>))) =
      fst (session_create (\<lambda>_ _. 0) (Inr ''01020304'') 9 ''10.0.0.9'' [])"
    using tok sample_unlocked(1) id
    by (subst login_finish_sessions) (simp_all add: sample_draws_def sample_server_def new_session_store_def login_address_def)
  also have "\<dots> = [(''01020304'', login_session sample_draws ''10.0.0.9'' ?r ''01020304'')]"
    by (simp add: session_create_def ev Let_def login_session_def sample_draws_def login_address_def)
  finally have "sv_sessions (fst (session_login sample_http sample_draws ''10.0.0.9'' ?r sample_server)) =
      [(''01020304'', login_session sample_draws ''10.0.0.9'' ?r ''01020304'')]" unfolding lg .
  then show ?thesis
    by (simp add: serve_def Let_def ip dispatch_def protected_routes_def open_routes_def handle_session_def mux)
qed

lemma sessions_only_by_login_witness:
  "right_login sample_http 9 ''10.0.0.9'' (sample_request ''POST'' ''/api/v1/session'' ''gate'') sample_server \<and>
   rp_Status (snd (serve sample_http sample_draws (sample_request ''POST'' ''/api/v1/session'' ''gate'') sample_server)) = 200"
proof -
  let ?r = "sample_request ''POST'' ''/api/v1/session'' ''gate''"
  let ?e = "(''01020304'', login_session sample_draws ''10.0.0.9'' ?r ''01020304'')"
  have ip: "client_ip (rl_net (hl_rt sample_http)) (sv_trusted sample_server) ?r = ''10.0.0.9''"
    by (simp add: sample_server_def sample_request_def sample_http_def) code_simp
  have "?e \<in> set (sv_sessions (fst (serve sample_http sample_draws ?r sample_server)))"
    unfolding login_accepts_password by simp
  moreover have "?e \<notin> set (sv_sessions sample_server)" by (simp add: sample_server_def new_session_store_def)
  moreover have "d_now sample_draws = 9" by (simp add: sample_draws_def)
  ultimately show ?thesis using sessions_only_by_login [of ?e sample_http sample_draws ?r sample_server] ip by simp
qed

end
