(* ===== verification/Overlay.thy ===== *)
theory Overlay
  imports HttpSessions
begin

text \<open>
  The settings while the gateway runs. Every change goes through \<open>ApplyRuntime\<close> of \<open>rflink/runtime_config.go\<close>:
  what applying an overlay keeps is kept by every request and by the watcher of the file. Two conditions are
  of this kind: that the settings are normalised, and what they were at the start apart from the keys of the overlay.
\<close>

section \<open>What an overlay keeps\<close>

locale overlay_invariant =
  fixes keeps :: "options \<Rightarrow> bool"
  assumes applied [simp]: "keeps o' \<Longrightarrow> keeps (fst (apply_runtime R now f o'))"
begin

lemma load_and_apply_keeps: "keeps (rm_opts m) \<Longrightarrow> keeps (rm_opts (fst (load_and_apply R F now m)))"
  by (auto simp: load_and_apply_def split: sum.split rt_error.split option.split)

lemma watch_tick_keeps: "keeps (rm_opts m) \<Longrightarrow> keeps (rm_opts (watch_tick R F now m))"
  using load_and_apply_keeps [of "m\<lparr>rm_last_mod := x\<rparr>" R F now for x]
  by (auto simp: watch_tick_def split: option.splits prod.splits) (metis fst_conv)+

lemma restore_backup_keeps: "keeps (rm_opts m) \<Longrightarrow> keeps (rm_opts (fst (restore_backup R F now slot m)))"
  by (auto simp: restore_backup_def split: sum.split option.split prod.split)

lemma save_runtime_holds [simp]: "keeps (opts S) \<Longrightarrow> keeps (opts (fst (save_runtime L d patch S)))"
  by (auto simp: save_runtime_def save_overlay_def Let_def split: prod.split option.split)

lemma persist_webhooks_keeps [simp]: "keeps (opts S) \<Longrightarrow> keeps (opts (fst (persist_webhooks L d hs S)))"
  by (simp add: persist_webhooks_def split_def split: sum.split)

lemma create_webhook_keeps: "keeps (opts S) \<Longrightarrow> keeps (opts (fst (create_webhook L d r S)))"
  unfolding create_webhook_def fst_of_cases by (simp split: option.split sum.split)

lemma update_webhook_keeps: "keeps (opts S) \<Longrightarrow> keeps (opts (fst (update_webhook L d r S)))"
  unfolding update_webhook_def fst_of_cases by (simp split: option.split sum.split)

lemma delete_webhook_keeps: "keeps (opts S) \<Longrightarrow> keeps (opts (fst (delete_webhook L d r S)))"
  unfolding delete_webhook_def fst_of_cases by (simp split: sum.split)

lemma create_api_token_keeps: "keeps (opts S) \<Longrightarrow> keeps (opts (fst (create_api_token L d r S)))"
  unfolding create_api_token_def fst_of_cases fst_save_reply by (simp split: option.split sum.split)

lemma filter_shared_keeps: "keeps (opts S) \<Longrightarrow> keeps (opts (filter_shared sel S))"
  by (simp add: filter_shared_def)

lemma delete_api_token_keeps: "keeps (opts S) \<Longrightarrow> keeps (opts (fst (delete_api_token L r d S)))"
  unfolding delete_api_token_def Let_def if_distrib [of fst] fst_save_reply fst_conv
  by (simp only: if_distrib [of sv_runtime] if_distrib [of rm_opts] if_distrib [of keeps]
      save_runtime_holds filter_shared_keeps if_cancel if_True)

lemma put_config_keeps: "keeps (opts S) \<Longrightarrow> keeps (opts (fst (put_config L d r S)))"
  by (simp add: put_config_def Let_def split: prod.split bool.split option.split)

lemma restore_keeps: "keeps (opts S) \<Longrightarrow> keeps (opts (fst (handle_config_restore L d r S)))"
  using restore_backup_keeps [of "sv_runtime S"]
  by (auto simp: handle_config_restore_def Let_def split: prod.splits option.splits) (metis fst_conv)+

lemma admin_keeps:
  assumes "h = handle_api_tokens L d \<or> h = handle_webhooks L d \<or> h = handle_sessions L d" and "keeps (opts S)"
  shows "keeps (opts (fst (h r S)))"
proof -
  obtain S1 x where g: "require_gui_session (d_now d) r S = (S1, x)" by fastforce
  have S1: "keeps (opts S1)"
    using require_gui_session_eq(1) [of "d_now d" r S] g assms(2) by (auto split: if_splits)
  have b: "behind A = behind B \<Longrightarrow> sv_runtime A = sv_runtime B" for A B by (simp add: behind_def)
  note defs = handle_api_tokens_def handle_webhooks_def handle_sessions_def g Let_def create_api_token_keeps
    delete_api_token_keeps create_webhook_keeps update_webhook_keeps delete_webhook_keeps b [OF delete_sessions_frame] S1
  show ?thesis using assms(1) by (auto simp: defs split: option.split)
qed

lemma protected_keeps:
  assumes "map_of (protected_routes L d) p = Some h" and "keeps (opts S)"
  shows "keeps (opts (fst (h r S)))"
  using assms(1)
proof (cases rule: protected_cases)
  case reads
  then show ?thesis using assms(2) by (auto simp: reading_frame)
next
  case rate
  then show ?thesis using rate_limit_frame [of d r S] assms(2) by auto
next
  case command
  then show ?thesis using assms(2) by (auto simp: command_frame rediscover_frame)
next
  case config
  then show ?thesis using assms(2) put_config_keeps by (simp add: handle_api_config_def)
next
  case restore
  then show ?thesis using assms(2) restore_keeps by simp
next
  case admin
  then show ?thesis using admin_keeps assms(2) by blast
qed

end

sublocale overlay_invariant \<subseteq> requests: request_invariant L "\<lambda>S. keeps (opts S)" for L
  by unfold_locales (auto simp: behind_def protected_keeps)

section \<open>Normalised settings\<close>

lemma apply_runtime_ok: "options_ok o' \<Longrightarrow> options_ok (fst (apply_runtime R now f o'))"
proof -
  assume ok: "options_ok o'"
  have m: "Serial (apply_maps R now f o') = Serial o'" "HTTP (apply_maps R now f o') = HTTP o'"
    by (simp_all add: apply_maps_def)
  have "publish_ok (Publish (apply_ha f (apply_maps R now f o')))"
    using apply_ha_framed [of "apply_maps R now f o'" f] ok by (simp add: ha_frame_def options_ok_def)
  then show ?thesis using ok m by (simp add: apply_runtime_def Let_def options_ok_def)
qed

interpretation settings: overlay_invariant options_ok
  by unfold_locales (rule apply_runtime_ok)

section \<open>Settings of the deployment\<close>

text \<open>The settings without the keys that an overlay can set.\<close>

definition deployed :: "options \<Rightarrow> options" where
  "deployed o' = o'\<lparr>Publish := (Publish o')\<lparr>HomeAssistantDiscovery := False, HADiscoveryPrefix := [], HAButtons := [],
       HASwitches := []\<rparr>,
     friendlyNameMap := Map.empty, hwidMap := Map.empty, ignoreSet := {}, haButtons := [], haSwitches := [],
     apiTokens := [], webhooks := []\<rparr>"

lemma deployed_let: "deployed s = k \<Longrightarrow> (\<And>x. deployed x = k \<Longrightarrow> deployed (f x) = k) \<Longrightarrow> deployed (Let s f) = k"
  by (simp add: Let_def)

lemma deployed_case: "deployed a = k \<Longrightarrow> (\<And>b. deployed (g b) = k) \<Longrightarrow> deployed (case x of None \<Rightarrow> a | Some b \<Rightarrow> g b) = k"
  by (cases x) simp_all

lemma deployed_if: "deployed a = k \<Longrightarrow> deployed b = k \<Longrightarrow> deployed (if c then a else b) = k"
  by simp

lemma deployed_keys:
  "deployed (o1\<lparr>Publish := (Publish o1)\<lparr>HomeAssistantDiscovery := b\<rparr>\<rparr>) = deployed o1"
  "deployed (o1\<lparr>Publish := (Publish o1)\<lparr>HADiscoveryPrefix := s\<rparr>\<rparr>) = deployed o1"
  "deployed (o1\<lparr>Publish := (Publish o1)\<lparr>HAButtons := s\<rparr>, haButtons := bs\<rparr>) = deployed o1"
  "deployed (o1\<lparr>Publish := (Publish o1)\<lparr>HASwitches := s\<rparr>, haSwitches := ss\<rparr>) = deployed o1"
  "deployed (o1\<lparr>webhooks := hs\<rparr>) = deployed o1"
  by (simp_all add: deployed_def)

lemma deployed_apply_ha [simp]: "deployed (apply_ha f o') = deployed o'"
  unfolding apply_ha_def by (intro deployed_let deployed_case deployed_if) (simp_all only: deployed_keys)

lemma deployed_apply [simp]: "deployed (fst (apply_runtime R now f o')) = deployed o'"
proof -
  have m: "deployed (apply_maps R now f o') = deployed o'" by (simp add: apply_maps_def deployed_def)
  show ?thesis by (simp add: apply_runtime_def Let_def deployed_keys m)
qed

interpretation deployment: overlay_invariant "\<lambda>o'. deployed o' = o0" for o0
  by unfold_locales simp

text \<open>What commands depend on is deployed.\<close>

lemma deployed_commands:
  assumes "deployed o1 = deployed o2"
  shows "CommandRateLimit (Publish o1) = CommandRateLimit (Publish o2)" and "command_allowed o1 c = command_allowed o2 c"
    and "max_command_len o1 = max_command_len o2" and "normalize_command o1 payload = normalize_command o2 payload"
    and "Serial o1 = Serial o2" and "HTTP o1 = HTTP o2"
proof -
  have lim: "CommandRateLimit (Publish o1) = CommandRateLimit (Publish o2)"
    and len: "CommandMaxLen (Publish o1) = CommandMaxLen (Publish o2)"
    using arg_cong [OF assms, of "\<lambda>x. CommandRateLimit (Publish x)"] arg_cong [OF assms, of "\<lambda>x. CommandMaxLen (Publish x)"]
    by (simp_all add: deployed_def)
  have wl: "commandWhitelist o1 = commandWhitelist o2"
    using arg_cong [OF assms, of commandWhitelist] by (simp add: deployed_def)
  show "CommandRateLimit (Publish o1) = CommandRateLimit (Publish o2)" and "command_allowed o1 c = command_allowed o2 c"
    and "max_command_len o1 = max_command_len o2" and "normalize_command o1 payload = normalize_command o2 payload"
    by (simp_all add: lim len wl command_allowed_def max_command_len_def normalize_command_def Let_def)
  show "Serial o1 = Serial o2" "HTTP o1 = HTTP o2"
    using arg_cong [OF assms, of Serial] arg_cong [OF assms, of HTTP] by (simp_all add: deployed_def)
qed

end
