(* ===== verification/Shutdown.thy ===== *)
theory Shutdown
  imports AppRun
begin

text \<open>
  The serial worker of \<open>rflink/app.go\<close> after the context has ended: \<open>Stop\<close> cancels it and waits for the
  worker, which is asked only when the scanner has a line or an error. How many reads that takes.
\<close>

section \<open>The cancelled worker\<close>

text \<open>
  The worker runs alone on a cancelled context, on the given reads: nothing when they do not suffice for it to
  return, otherwise the state in which it has returned.
\<close>

fun cancelled_session ::
  "env \<Rightarrow> driver \<Rightarrow> options \<Rightarrow> instant \<Rightarrow> read_event list \<Rightarrow> app \<Rightarrow> app option" where
  "cancelled_session E D o' now evs a =
     (case ap_phase a of
        Starting \<Rightarrow> Some (session_start E D o' now True a)
      | Sleeping \<Rightarrow> Some (session_wake o' True True a)
      | Stopped \<Rightarrow> Some a
      | Reading sc \<Rightarrow>
          (let a1 = session_round E D o' now True True True sc a in
           case ap_phase a1 of
             Reading sc' \<Rightarrow>
               (case evs of [] \<Rightarrow> None | ev # evs' \<Rightarrow> cancelled_session E D o' now evs' (session_read ev sc' a1))
           | _ \<Rightarrow> Some a1))"

declare cancelled_session.simps [simp del]

text \<open>Every step of it is a step of the application.\<close>

lemma cancelled_session_run:
  assumes "cancelled_session E D o' now evs a = Some b"
  shows "\<exists>n. app_run E D Q o' a (replicate n Quiet) b"
proof -
  have "app_run E D Q o' a0 (replicate n Quiet) a \<Longrightarrow> cancelled_session E D o' now evs a = Some b \<Longrightarrow>
      \<exists>n. app_run E D Q o' a0 (replicate n Quiet) b" for a0 n
  proof (induction E D o' now evs a arbitrary: n rule: cancelled_session.induct)
    case (1 E D o' now evs a)
    have one: "app_run E D Q o' a0 (replicate (Suc n) Quiet) c" if "app_step E D Q o' a Quiet c" for c
      using app_run.step [OF "1.prems"(1) that] by (simp add: replicate_append_same)
    show ?case
    proof (cases "ap_phase a")
      case Starting
      then have "b = session_start E D o' now True a"
        using "1.prems"(2) by (simp add: cancelled_session.simps [of _ _ _ _ _ a])
      then show ?thesis using one app_step.start [OF Starting] by blast
    next
      case Sleeping
      then have "b = session_wake o' True True a"
        using "1.prems"(2) by (simp add: cancelled_session.simps [of _ _ _ _ _ a])
      then show ?thesis using one app_step.wake [OF Sleeping] by blast
    next
      case Stopped
      then have "b = a" using "1.prems"(2) by (simp add: cancelled_session.simps [of _ _ _ _ _ a])
      then show ?thesis using "1.prems"(1) by blast
    next
      case (Reading sc)
      let ?a1 = "session_round E D o' now True True True sc a"
      obtain sc' k where r: "read_next True sc = (sc', k)" by fastforce
      have "(\<exists>e. k = Returns e) \<or> k = ReadMore"
        using r by (auto simp: read_next_def split: option.splits scan_err.splits)
      then show ?thesis
      proof
        assume "\<exists>e. k = Returns e"
        then obtain e where e: "read_next True sc = (sc', Returns e)" using r by blast
        have "ap_phase ?a1 = Stopped" by (simp add: session_round_returned [OF e] session_end_def)
        then have "b = ?a1" using "1.prems"(2) Reading by (simp add: cancelled_session.simps [of _ _ _ _ _ a])
        then show ?thesis using one app_step.returned [OF Reading e] by blast
      next
        assume m: "k = ReadMore"
        then have a1: "?a1 = a\<lparr>ap_phase := Reading sc'\<rparr>" and sc': "sc' = sc"
          using r by (auto simp: session_round_read [of True sc sc'] read_next_def split: option.splits scan_err.splits)
        then have ph: "ap_phase ?a1 = Reading sc" by simp
        obtain ev evs' where evs: "evs = ev # evs'"
          using "1.prems"(2) Reading ph by (cases evs) (simp_all add: cancelled_session.simps [of _ _ _ _ _ a])
        have "app_step E D Q o' a Quiet (session_read ev sc ?a1)"
          using app_step.read [OF Reading, of True sc'] r m by blast
        moreover have "cancelled_session E D o' now evs' (session_read ev sc ?a1) = Some b"
          using "1.prems"(2) Reading ph by (simp add: cancelled_session.simps [of _ _ _ _ _ a] evs)
        ultimately show ?thesis using "1.IH" [OF Reading refl ph evs one] by blast
      qed
    qed
  qed
  from this [of a 0] assms show ?thesis by (simp add: app_run.begun)
qed

section \<open>It returns\<close>

text \<open>How many reads a scanner can still need: every read that brings data fills the buffer by a byte, and at most one
  hundred in a row bring none.\<close>

definition reads_left :: "scanner \<Rightarrow> nat" where
  "reads_left sc = (max_token_size - length (sc_buf sc)) * Suc max_empty_reads + (Suc max_empty_reads - sc_loop sc) + 1"

lemma scan_read_loop: "sc_loop sc \<le> max_empty_reads \<Longrightarrow> sc_loop (scan_read ev sc) \<le> max_empty_reads"
  by (auto simp: scan_read_def Let_def split: option.split)

lemma scan_read_left:
  assumes "sc_err (scan_read ev sc) = None" and "sc_loop sc \<le> max_empty_reads"
  shows "reads_left (scan_read ev sc) < reads_left sc"
proof -
  have l: "length (sc_buf sc) < max_token_size" using assms(1) by (auto simp: scan_read_def split: if_splits)
  show ?thesis
  proof (cases "re_data ev = []")
    case True
    then show ?thesis
      using assms l by (auto simp: scan_read_def reads_left_def Let_def max_empty_reads_def split: if_splits option.splits)
  next
    case False
    then have n: "0 < length (re_data ev)" by simp
    have "max_token_size - (length (sc_buf sc) + length (re_data ev)) + 1 \<le> max_token_size - length (sc_buf sc)"
      using l n by linarith
    then have "(max_token_size - (length (sc_buf sc) + length (re_data ev)) + 1) * 101 \<le> (max_token_size - length (sc_buf sc)) * (101 :: nat)"
      by (rule mult_le_mono1)
    then show ?thesis
      using assms l False by (auto simp: scan_read_def reads_left_def Let_def max_empty_reads_def split: if_splits option.splits)
  qed
qed

definition cancelled_reads :: "app \<Rightarrow> nat" where
  "cancelled_reads a = (case ap_phase a of Reading sc \<Rightarrow> reads_left sc | _ \<Rightarrow> 0)"

definition loop_ok :: "app \<Rightarrow> bool" where
  "loop_ok a = (case ap_phase a of Reading sc \<Rightarrow> sc_loop sc \<le> max_empty_reads | _ \<Rightarrow> True)"

lemma cancelled_round:
  "session_round E D o' now True True True sc a =
     (if scan_take sc = None \<and> sc_err sc = None then a\<lparr>ap_phase := Reading sc\<rparr> else a\<lparr>ap_phase := Stopped\<rparr>)"
  by (auto simp: session_round_def read_next_def session_end_def split: option.split scan_err.split)



text \<open>
  The cancelled worker looks at the context only when the scanner has a line. On a silent port it goes on through a
  hundred empty reads, each as long as the read timeout; then it returns.
\<close>

lemma silent_reads:
  assumes "ap_phase a = Reading sc" and "sc_buf sc = []" and "sc_err sc = None" and "sc_loop sc + n \<le> max_empty_reads"
  shows "cancelled_session E D o' now (replicate n silence) a = None"
  using assms
proof (induction n arbitrary: a sc)
  case 0
  then show ?case
    by (simp add: cancelled_session.simps [of _ _ _ _ _ a] cancelled_round scan_take_def scan_lines_def)
next
  case (Suc n)
  have t: "scan_take sc = None" using Suc.prems by (simp add: scan_take_def scan_lines_def)
  have "scan_read silence sc = sc\<lparr>sc_loop := Suc (sc_loop sc)\<rparr>"
    using Suc.prems by (simp add: scan_read_def silence_def max_token_size_def)
  then show ?case
    using Suc.prems Suc.IH [of "session_read silence sc (a\<lparr>ap_phase := Reading sc\<rparr>)" "scan_read silence sc"] t
    by (simp add: cancelled_session.simps [of _ _ _ _ _ a] cancelled_round session_read_def)
qed

lemma silent_returns:
  assumes "ap_phase a = Reading sc" and "sc_buf sc = []" and "sc_err sc = None" and "sc_loop sc \<le> max_empty_reads"
    and "max_empty_reads < sc_loop sc + n"
  shows "cancelled_session E D o' now (replicate n silence) a \<noteq> None"
  using assms
proof (induction n arbitrary: a sc)
  case (Suc n)
  have t: "scan_take sc = None" using Suc.prems by (simp add: scan_take_def scan_lines_def)
  let ?b = "session_read silence sc (a\<lparr>ap_phase := Reading sc\<rparr>)"
  have s: "cancelled_session E D o' now (replicate (Suc n) silence) a = cancelled_session E D o' now (replicate n silence) ?b"
    using Suc.prems t by (simp add: cancelled_session.simps [of _ _ _ _ _ a] cancelled_round)
  show ?case
  proof (cases "max_empty_reads < Suc (sc_loop sc)")
    case True
    then have "sc_err (scan_read silence sc) \<noteq> None"
      using Suc.prems by (simp add: scan_read_def silence_def max_token_size_def)
    then have "\<not> (scan_take (scan_read silence sc) = None \<and> sc_err (scan_read silence sc) = None)" by simp
    then show ?thesis
      unfolding s cancelled_session.simps [of _ _ _ _ _ ?b]
      by (simp add: session_read_def cancelled_round del: de_Morgan_conj)
  next
    case False
    then have "scan_read silence sc = sc\<lparr>sc_loop := Suc (sc_loop sc)\<rparr>"
      using Suc.prems by (simp add: scan_read_def silence_def max_token_size_def)
    then show ?thesis unfolding s
      using Suc.IH [of ?b "scan_read silence sc"] Suc.prems False by (simp add: session_read_def)
  qed
qed simp

lemma silent_port_delays_stop:
  "ap_phase a = Reading new_scanner \<Longrightarrow>
    cancelled_session E D o' now (replicate n silence) a = None \<longleftrightarrow> n \<le> max_empty_reads"
  using silent_reads [of a new_scanner n E D o' now] silent_returns [of a new_scanner n E D o' now]
  by (cases "n \<le> max_empty_reads") (simp_all add: new_scanner_def)

end
