(* ===== verification/Gateway.thy ===== *)
theory Gateway
  imports Overlay Shutdown
begin

text \<open>
  The process: \<open>Init\<close> of \<open>rflink/app.go\<close>, which builds the components in their order, \<open>main\<close> of \<open>main.go\<close>,
  the level of \<open>rflink/logger.go\<close>, and the events of a running gateway with the invariant that they keep: the
  settings stay normalised, sessions, feed queues and pushes stay bounded.
\<close>

section \<open>Log level\<close>

datatype log_level = LevelDebug | LevelInfo | LevelWarn | LevelError

text \<open>The numbers of \<open>log/slog\<close>, which order the levels.\<close>

definition slog_level :: "log_level \<Rightarrow> int" where
  "slog_level l = (case l of LevelDebug \<Rightarrow> -4 | LevelInfo \<Rightarrow> 0 | LevelWarn \<Rightarrow> 4 | LevelError \<Rightarrow> 8)"

instantiation log_level :: linorder
begin

definition less_eq_log_level :: "log_level \<Rightarrow> log_level \<Rightarrow> bool" where
  "less_eq_log_level l m = (slog_level l \<le> slog_level m)"

definition less_log_level :: "log_level \<Rightarrow> log_level \<Rightarrow> bool" where
  "less_log_level l m = (slog_level l < slog_level m)"

instance
  by standard (auto simp: less_eq_log_level_def less_log_level_def slog_level_def split: log_level.splits)

end

definition parse_log_level :: "unicode \<Rightarrow> string \<Rightarrow> log_level" where
  "parse_log_level U raw =
     (let s = to_lower U (trim_space raw) in
      if s = ''debug'' then LevelDebug
      else if s = ''warn'' \<or> s = ''warning'' then LevelWarn
      else if s = ''error'' then LevelError
      else LevelInfo)"

text \<open>\<open>getenv\<close> is \<open>os.Getenv\<close>.\<close>

definition debug_enabled :: "(string \<Rightarrow> string) \<Rightarrow> bool" where
  "debug_enabled getenv = (getenv ''GORFLINK_DEBUG'' = ''true'')"

definition debug_show_parsed_config :: "(string \<Rightarrow> string) \<Rightarrow> bool" where
  "debug_show_parsed_config getenv =
     (debug_enabled getenv \<and> getenv ''GORFLINK_DEBUGSHOWPARSEDCONFIGINLOGINSECURE'' = ''true'')"

definition init_logger :: "unicode \<Rightarrow> (string \<Rightarrow> string) \<Rightarrow> string \<Rightarrow> log_level" where
  "init_logger U getenv level = parse_log_level U (if debug_enabled getenv then ''debug'' else level)"

text \<open>The handler shows a record at or above its level: errors always, and everything in debug mode.\<close>

lemma logger_shows:
  "init_logger U getenv level \<le> LevelError"
  "to_lower U ''debug'' = ''debug'' \<Longrightarrow> debug_enabled getenv \<Longrightarrow> init_logger U getenv level \<le> l"
proof -
  have t: "trim_space ''debug'' = ''debug''" by code_simp
  show "init_logger U getenv level \<le> LevelError"
    by (simp add: less_eq_log_level_def slog_level_def split: log_level.split)
  show "to_lower U ''debug'' = ''debug'' \<Longrightarrow> debug_enabled getenv \<Longrightarrow> init_logger U getenv level \<le> l"
    by (simp add: init_logger_def parse_log_level_def t less_eq_log_level_def slog_level_def split: log_level.split)
qed

section \<open>Start\<close>

text \<open>
  What \<open>NewPublisher\<close> and \<open>SubscribeCommands\<close> ask of their surroundings: a file, whether it holds certificates,
  the parser of URLs, the error of the new connection, the error of waiting for it, and whether it is there when
  the subscriptions are made, with their error.
\<close>

record 'u mqtt_start =
  ms_read_file :: "string \<Rightarrow> string + string"
  ms_pem_ok :: "string \<Rightarrow> bool"
  ms_parse_url :: "string \<Rightarrow> string + 'u"
  ms_connect :: "'u \<Rightarrow> string option"
  ms_await :: "string option"
  ms_ready :: bool
  ms_subscribe :: "(string \<times> 8 word) list \<Rightarrow> string option"

datatype publisher_error = TlsFailed tls_error | BadBrokerUrl string | NewConnection string | ConnectFailed string

text \<open>Without endless reconnecting the broker has to answer in time.\<close>

definition start_publisher :: "unicode \<Rightarrow> 'u mqtt_start \<Rightarrow> instant \<Rightarrow> options \<Rightarrow> publisher_error + publisher" where
  "start_publisher U M now o' =
     (case build_tls_config U (ms_read_file M) (ms_pem_ok M) o' of
        Inl e \<Rightarrow> Inl (TlsFailed e)
      | Inr _ \<Rightarrow>
          (case build_broker_url U (ms_parse_url M) o' of
             Inl e \<Rightarrow> Inl (BadBrokerUrl e)
           | Inr url \<Rightarrow>
               (case ms_connect M url of
                  Some e \<Rightarrow> Inl (NewConnection e)
                | None \<Rightarrow>
                    (case ms_await M of
                       Some e \<Rightarrow> if InfinityReconnect (Publish o') then Inr ((new_publisher o' now)\<lparr>cm_set := True\<rparr>)
                                 else Inl (ConnectFailed e)
                     | None \<Rightarrow> Inr ((new_publisher o' now)\<lparr>cm_set := True\<rparr>)))))"

text \<open>\<open>SubscribeCommands\<close>: without a connection, or with nothing to subscribe, the subscriptions wait.\<close>

definition start_subscriptions :: "'u mqtt_start \<Rightarrow> options \<Rightarrow> publisher \<Rightarrow> string option" where
  "start_subscriptions M o' p =
     (let subs = subscriptions o' (subscribe_commands p) in
      if ms_ready M \<and> subs \<noteq> [] then ms_subscribe M subs else None)"

datatype init_error = LoadOptions opt_error | RuntimeConfig rt_error | CreatePublisher publisher_error
  | SubscribeCommands string | StartHttp

record gateway =
  gw_app :: app
  gw_runtime :: runtime_manager
  gw_sessions :: store
  gw_hooks :: webhook_manager
  gw_http :: "server option"

text \<open>
  \<open>Init\<close> after \<open>env.Parse\<close>. The manager applies the overlay to the options that all components share; the
  callbacks of the broker are steps of their own.
\<close>

definition init :: "http_lib \<Rightarrow> 'u mqtt_start \<Rightarrow> (string \<Rightarrow> string) \<Rightarrow> (string \<Rightarrow> ip_net option) \<Rightarrow> instant \<Rightarrow> disk \<Rightarrow>
  opt_error + options \<Rightarrow> init_error + gateway" where
  "init L M clean parse_cidr now dk parsed =
     (case get_options (hl_tab L) parsed of
        Inl e \<Rightarrow> Inl (LoadOptions e)
      | Inr o' \<Rightarrow>
          (case new_runtime_manager (hl_rt L) (hl_fs L) clean now o' dk of
             Inl e \<Rightarrow> Inl (RuntimeConfig e)
           | Inr m \<Rightarrow>
               (case start_publisher (hl_tab L) M now (rm_opts m) of
                  Inl e \<Rightarrow> Inl (CreatePublisher e)
                | Inr p \<Rightarrow>
                    (case start_subscriptions M (rm_opts m) p of
                       Some e \<Rightarrow> Inl (SubscribeCommands e)
                     | None \<Rightarrow>
                         (let a = init_app (hl_driver L) (rm_opts m) now p;
                              hooks = hooks_reload (hl_tab L) (rm_opts m) new_webhook_manager;
                              g = \<lparr>gw_app = a, gw_runtime = m, gw_sessions = new_session_store, gw_hooks = hooks, gw_http = None\<rparr>
                          in if Listen (HTTP (rm_opts m)) = [] then Inr g
                             else (case start_http_server L parse_cidr a m new_session_store hooks of
                                     None \<Rightarrow> Inl StartHttp
                                   | Some S \<Rightarrow> Inr (g\<lparr>gw_app := sv_app S, gw_http := Some S\<rparr>)))))))"

section \<open>A running gateway\<close>

text \<open>What happens to a running server: requests, serial lines, operations of the feed's clients, finished
  pushes, ticks of the watcher of the runtime file.\<close>

datatype server_event = Request draws request | LineRead raw_entry | FeedOp hub_op | PushDone nat | WatchTick instant

fun server_apply :: "http_lib \<Rightarrow> server_event \<Rightarrow> server \<Rightarrow> server" where
  "server_apply L (Request d r) S = fst (serve L d r S)"
| "server_apply L (LineRead e) S = raw_line_hook L e S"
| "server_apply L (FeedOp a) S = S\<lparr>sv_hub := fst (hub_apply a (sv_hub S))\<rparr>"
| "server_apply L (PushDone i) S = S\<lparr>sv_hooks := push_done i (sv_hooks S)\<rparr>"
| "server_apply L (WatchTick now) S =
     (let m = watch_tick (hl_rt L) (hl_fs L) now (sv_runtime S) in
      S\<lparr>sv_runtime := m,
        sv_hooks := (if rm_changes m = rm_changes (sv_runtime S) then sv_hooks S
                     else hooks_reload (hl_tab L) (rm_opts m) (sv_hooks S))\<rparr>)"

definition server_run :: "http_lib \<Rightarrow> server_event list \<Rightarrow> server \<Rightarrow> server" where
  "server_run L evs S = foldl (\<lambda>S ev. server_apply L ev S) S evs"

text \<open>\<open>crypto/rand\<close> fills a session identifier or fails.\<close>

fun draws_ids :: "server_event \<Rightarrow> bool" where
  "draws_ids (Request d r) = (d_session_id d \<noteq> Inr [])"
| "draws_ids _ = True"

definition server_inv :: "server \<Rightarrow> bool" where
  "server_inv S \<longleftrightarrow> store_inv (sv_sessions S) \<and> hub_wf (sv_hub S) \<and> pushes_ok (sv_hooks S) \<and>
     options_ok (opts S)"

interpretation pushes: request_invariant L "\<lambda>S. pushes_ok (sv_hooks S)" for L
  by unfold_locales (auto simp: behind_def pushes_ok_def protected_front(3))

lemma server_inv_apply: "draws_ids ev \<Longrightarrow> server_inv S \<Longrightarrow> server_inv (server_apply L ev S)"
proof (cases ev)
  case (Request d r)
  assume a: "draws_ids ev" "server_inv S"
  then have inv: "store_inv (sv_sessions S)" "hub_wf (sv_hub S)" "pushes_ok (sv_hooks S)" "options_ok (opts S)"
    and n: "d_session_id d \<noteq> Inr []"
    by (simp_all add: server_inv_def Request)
  have p: "pushes_ok (sv_hooks (fst (serve L d r S)))" by (rule pushes.served [OF inv(3)])
  have sub: "hub_wf (fst (hub_subscribe (sv_hub S)))" using hub_wf_apply [OF inv(2), of HubSubscribe] by simp
  have "store_inv (sv_sessions (fst (serve L d r S))) \<and> hub_wf (sv_hub (fst (serve L d r S)))"
  proof (cases rule: serve_front [of L d r S])
    case others
    then show ?thesis using fewer_inv inv sub by metis
  next
    case (login S' rp)
    let ?ip = "client_ip (rl_net (hl_rt L)) (sv_trusted S) r"
    show ?thesis
      using session_login_inv [of S d L ?ip r] session_login_hub [of L d ?ip r S] inv n login(3,4) by simp
  qed
  then show ?thesis using p settings.requests.served [OF inv(4)] by (simp add: server_inv_def Request)
qed (auto simp: server_inv_def raw_line_hook_def Let_def settings.watch_tick_keeps pushes_bounded hub_wf_apply hub_wf_apply [of _ "HubBroadcast _", simplified])

text \<open>What overlays keep is kept by the start.\<close>

context overlay_invariant
begin

lemma init_keeps:
  assumes "init L M clean parse_cidr now dk parsed = Inr g"
    and "\<And>o'. get_options (hl_tab L) parsed = Inr o' \<Longrightarrow> keeps o'"
  shows "keeps (rm_opts (gw_runtime g))"
proof -
  obtain o' m where o: "get_options (hl_tab L) parsed = Inr o'"
    and m: "new_runtime_manager (hl_rt L) (hl_fs L) clean now o' dk = Inr m" "gw_runtime g = m"
    using assms(1) by (auto simp: init_def Let_def split: sum.splits if_splits option.splits)
  let ?p = "trim_space (RuntimeConfigFile o')"
  let ?m0 = "\<lparr>rm_path = clean (if ?p = [] then default_runtime_config_path else ?p),
      rm_file = empty_runtime_file\<lparr>rf_Version := 0\<rparr>, rm_sources = default_runtime_sources, rm_opts = o', rm_disk = dk,
      rm_last_mod = None, rm_changes = 0\<rparr>"
  have "rm_opts m = rm_opts (fst (load_and_apply (hl_rt L) (hl_fs L) now ?m0))"
    using m(1) by (auto simp: new_runtime_manager_def Let_def split: option.splits prod.splits)
  then show ?thesis using load_and_apply_keeps [of ?m0 "hl_rt L" "hl_fs L" now] assms(2) [OF o] m(2) by simp
qed

end

lemma init_options_ok: "init L M clean parse_cidr now dk parsed = Inr g \<Longrightarrow> options_ok (rm_opts (gw_runtime g))"
  by (rule settings.init_keeps) (auto intro: get_options_ok)

lemma init_http:
  assumes "init L M clean parse_cidr now dk parsed = Inr g" and "gw_http g = Some S"
  shows "server_inv S" and "sv_sessions S = []" and "sv_runtime S = gw_runtime g"
proof -
  obtain m a hooks where S: "start_http_server L parse_cidr a m new_session_store hooks = Some S"
    and h: "hooks = hooks_reload (hl_tab L) (rm_opts m) new_webhook_manager" and g: "gw_runtime g = m"
    using assms by (auto simp: init_def Let_def split: sum.splits if_splits option.splits)
  have "pushes_ok hooks" by (simp add: h pushes_ok_def hooks_reload_def hooks_stop_def new_webhook_manager_def)
  moreover have "sv_runtime S = m" using S by (auto simp: start_http_server_def Let_def split: if_splits)
  moreover have "options_ok (rm_opts m)" using init_options_ok [OF assms(1)] g by simp
  ultimately show "server_inv S" "sv_runtime S = gw_runtime g"
    using S g by (auto simp: start_http_server_def Let_def server_inv_def hub_wf_new split: if_splits)
  show "sv_sessions S = []" using S by (auto simp: start_http_server_def Let_def new_session_store_def split: if_splits)
qed

text \<open>Whatever requests, serial lines, feed clients, pushes and edits of the runtime file follow its start, and however
  they interleave, the HTTP side of a gateway keeps its settings normalised, at most sixteen sessions, each under
  its own non-empty identifier, at most as many lines for a client of the feed as its channel holds, and at most
  eight pushes at a time.\<close>
lemma gateway_invariant:
  assumes "init L M clean parse_cidr now dk parsed = Inr g" and "gw_http g = Some S" and "list_all draws_ids evs"
  shows "options_ok (opts (server_run L evs S)) \<and>
    length (sv_sessions (server_run L evs S)) \<le> max_sessions \<and> distinct (map fst (sv_sessions (server_run L evs S))) \<and>
    (\<forall>e \<in> set (sv_sessions (server_run L evs S)). fst e \<noteq> [] \<and> ses_ID (snd e) = fst e) \<and>
    (\<forall>ch q. hub_queue (sv_hub (server_run L evs S)) ch = Some q \<longrightarrow> length q \<le> hub_buffer) \<and>
    length (hm_pushes (sv_hooks (server_run L evs S))) \<le> max_concurrent_push"
proof -
  have "server_inv (server_run L evs S)"
    using init_http(1) [OF assms(1,2)] assms(3)
  proof (induction evs arbitrary: S)
    case (Cons ev evs)
    then show ?case using server_inv_apply by (simp add: server_run_def)
  qed (simp add: server_run_def)
  then show ?thesis by (auto simp: server_inv_def store_inv_def hub_wf_def pushes_ok_def)
qed

section \<open>The end of the process\<close>

text \<open>\<open>main\<close> gives \<open>Stop\<close> fifteen seconds; the status with which the process exits.\<close>

definition shutdown_timeout :: duration where "shutdown_timeout = seconds 15"

definition main_exit :: "init_error + gateway \<Rightarrow> duration \<Rightarrow> nat" where
  "main_exit started stop_took =
     (case started of Inl _ \<Rightarrow> 1 | Inr _ \<Rightarrow> if stop_took \<le> shutdown_timeout then 0 else 1)"

text \<open>
  The worker of a silent port returns after its hundred and first empty read only, and each lasts as long as the
  read timeout; the first may have begun before the signal. Commands and MQTT do not wake it.
\<close>

definition silent_stop :: "http_lib \<Rightarrow> options \<Rightarrow> instant \<Rightarrow> app \<Rightarrow> duration \<Rightarrow> bool" where
  "silent_stop L o' now a stop_took \<longleftrightarrow>
     (\<forall>n. cancelled_session (hl_env L) (hl_driver L) o' now (replicate (Suc n) silence) a = None \<longrightarrow>
       int n * serial_read_timeout o' \<le> stop_took)"

text \<open>C35: A gateway whose port is open and silent does not shut down in order: whatever the read timeout, \<open>Stop\<close> takes
  longer than \<open>main\<close> waits, and the process exits with status 1.\<close>
theorem silent_port_fails_shutdown:
  assumes "init L M clean parse_cidr now dk parsed = Inr g" and "ReadTimeoutSec (Serial (rm_opts (gw_runtime g))) \<le> max_seconds"
    and "ap_phase a = Reading new_scanner" and "silent_stop L (rm_opts (gw_runtime g)) now' a stop_took"
  shows "main_exit (init L M clean parse_cidr now dk parsed) stop_took = 1"
proof -
  let ?o = "rm_opts (gw_runtime g)"
  have pos: "1 \<le> ReadTimeoutSec (Serial ?o)"
    using init_options_ok [OF assms(1)] by (simp add: options_ok_def serial_ok_def)
  have "serial_read_timeout ?o = ReadTimeoutSec (Serial ?o) * nanos_per_second"
    unfolding serial_read_timeout_def using pos assms(2) by (intro seconds_exact) simp_all
  then have "99 * nanos_per_second \<le> 99 * serial_read_timeout ?o" using pos by simp
  moreover have "cancelled_session (hl_env L) (hl_driver L) ?o now' (replicate (Suc 99) silence) a = None"
    by (rule silent_reads [OF assms(3)]) (simp_all add: new_scanner_def max_empty_reads_def)
  then have "int 99 * serial_read_timeout ?o \<le> stop_took"
    using assms(4) unfolding silent_stop_def by blast
  moreover have "shutdown_timeout = 15 * nanos_per_second" by code_simp
  ultimately have "\<not> stop_took \<le> shutdown_timeout" by simp
  then show ?thesis by (simp add: main_exit_def assms(1))
qed

section \<open>A sample start\<close>

definition sample_mqtt :: "string mqtt_start" where
  "sample_mqtt = \<lparr>ms_read_file = (\<lambda>_. Inl ''none''), ms_pem_ok = (\<lambda>_. False), ms_parse_url = Inr,
     ms_connect = (\<lambda>_. None), ms_await = None, ms_ready = True, ms_subscribe = (\<lambda>_. None)\<rparr>"

definition listening_options :: options where
  "listening_options = sample_options\<lparr>HTTP := (HTTP sample_options)\<lparr>Listen := '':8080''\<rparr>\<rparr>"

abbreviation sample_init :: "init_error + gateway" where
  "sample_init \<equiv> init sample_http sample_mqtt id (\<lambda>_. None) 0 Map.empty (Inr listening_options)"

lemma sample_start:
  "\<exists>g S. sample_init = Inr g \<and> gw_http g = Some S \<and> ReadTimeoutSec (Serial (rm_opts (gw_runtime g))) = 10"
proof -
  have "case get_options ascii_tables (Inr listening_options) of Inl _ \<Rightarrow> False
    | Inr o' \<Rightarrow> Listen (HTTP o') = '':8080'' \<and> \<not> is_tls_scheme ascii_tables o' \<and> ReadTimeoutSec (Serial o') = 10"
    by code_simp
  then obtain o' where o: "get_options ascii_tables (Inr listening_options) = Inr o'" "Listen (HTTP o') = '':8080''"
    "\<not> is_tls_scheme ascii_tables o'" "ReadTimeoutSec (Serial o') = 10"
    by (auto split: sum.splits)
  have tab: "hl_tab sample_http = ascii_tables" by (simp add: sample_http_def sample_lib_def)
  obtain m where m: "new_runtime_manager (hl_rt sample_http) (hl_fs sample_http) id 0 o' Map.empty = Inr m" "rm_opts m = o'"
    by (simp add: new_runtime_manager_def Let_def ensure_data_dir_def load_and_apply_def read_file_def sample_http_def no_faults_def)
  obtain p where p: "start_publisher ascii_tables sample_mqtt 0 o' = Inr p"
    using o(3) by (simp add: start_publisher_def build_tls_config_def build_broker_url_def sample_mqtt_def)
  have "start_subscriptions sample_mqtt o' p = None" by (simp add: start_subscriptions_def sample_mqtt_def Let_def)
  moreover have "trim_space '':8080'' \<noteq> []" by code_simp
  ultimately show ?thesis
    using o m p by (simp add: init_def tab Let_def start_http_server_def)
qed

lemma gateway_invariant_witness:
  "\<exists>g S. sample_init = Inr g \<and> gw_http g = Some S \<and>
    length (sv_sessions (server_run sample_http
      [Request sample_draws (sample_request ''POST'' ''/api/v1/session'' ''gate''), WatchTick 3] S)) \<le> 16"
proof -
  obtain g S where g: "sample_init = Inr g" "gw_http g = Some S" using sample_start by blast
  have "list_all draws_ids [Request sample_draws (sample_request ''POST'' ''/api/v1/session'' ''gate''), WatchTick 3]"
    by (simp add: sample_draws_def)
  from gateway_invariant [OF g this] g show ?thesis by (auto simp: max_sessions_def)
qed

lemma silent_port_fails_shutdown_witness: "main_exit sample_init (seconds 1010) = 1"
proof -
  obtain g S where g: "sample_init = Inr g" "gw_http g = Some S" "ReadTimeoutSec (Serial (rm_opts (gw_runtime g))) = 10"
    using sample_start by blast
  let ?a = "first_app\<lparr>ap_phase := Reading new_scanner\<rparr>" and ?o = "rm_opts (gw_runtime g)"
  have le: "n \<le> 100" if "cancelled_session (hl_env sample_http) (hl_driver sample_http) ?o 5 (replicate (Suc n) silence) ?a = None" for n
  proof -
    have "Suc n \<le> max_empty_reads" by (rule silent_port_delays_stop [THEN iffD1, OF _ that]) simp
    then show ?thesis by (simp add: max_empty_reads_def)
  qed
  have t: "serial_read_timeout ?o = 10 * nanos_per_second" "seconds 1010 = 1010 * nanos_per_second"
    unfolding serial_read_timeout_def g(3) by code_simp+
  have "silent_stop sample_http ?o 5 ?a (seconds 1010)"
    unfolding silent_stop_def t
  proof (intro allI impI)
    show "int n * (10 * nanos_per_second) \<le> 1010 * nanos_per_second"
      if "cancelled_session (hl_env sample_http) (hl_driver sample_http) ?o 5 (replicate (Suc n) silence) ?a = None" for n
      using le [OF that] by simp
  qed
  then show ?thesis by (intro silent_port_fails_shutdown [OF g(1)]) (simp_all add: g(3) max_seconds_def)
qed

end
