(* ===== verification/CommandRate.thy ===== *)
theory CommandRate
  imports App
begin

text \<open>
  How many commands the token bucket of \<open>rflink/app.go\<close> lets through in a span of time. The tokens are a
  \<open>float64\<close>: every operation rounds, and the bound below accounts for that.
\<close>

section \<open>Rounding errors\<close>

definition ulp :: rat where "ulp = 1 / 2 ^ 53"
definition tiny :: rat where "tiny = 1 / 2 ^ 99"

lemma ulp_pos: "0 \<le> ulp" "0 \<le> 1 + ulp" and tiny_pos: "0 \<le> tiny"
  by (simp_all add: ulp_def tiny_def)

lemma grow: "0 \<le> x \<Longrightarrow> x \<le> x * (1 + ulp)"
  using mult_left_mono [of 1 "1 + ulp" x] by (simp add: ulp_def)

lemma f64_up:
  assumes "0 \<le> x"
  shows "f64 x \<le> x * (1 + ulp) + tiny"
proof (cases "1 / 2 ^ 100 \<le> x")
  case True
  have "f64 x - x \<le> x / 2 ^ 53" using f64_error [OF True] by linarith
  then show ?thesis by (simp add: ulp_def tiny_def algebra_simps)
next
  case False
  have "f64 x \<le> f64 (1 / 2 ^ 100)" using False assms by (intro f64_mono) auto
  also have "\<dots> \<le> 1 / 2 ^ 100 + 1 / 2 ^ 100 / 2 ^ 53"
    using f64_error [of "1 / 2 ^ 100"] by linarith
  also have "\<dots> \<le> tiny" by (simp add: tiny_def)
  finally show ?thesis using assms by (simp add: ulp_def add_increasing)
qed

lemma f64_limit: "0 \<le> n \<Longrightarrow> n < 2 ^ 53 \<Longrightarrow> f64 (of_int n) = of_int n"
  using f64_of_nat [of "nat n"] by simp

lemma whole_seconds_nonneg: "0 \<le> d \<Longrightarrow> whole_seconds d = d div nanos_per_second"
  by (auto simp: whole_seconds_def sgn_if)

lemma float_seconds_up:
  assumes "0 \<le> d"
  shows "0 \<le> float_seconds d" and "float_seconds d \<le> of_int d / of_int nanos_per_second * (1 + ulp) ^ 2 + 3 * tiny"
proof -
  define q r where "q = (of_int (d div nanos_per_second) :: rat)"
    and "r = (of_int (d mod nanos_per_second) / of_int nanos_per_second :: rat)"
  have pos: "0 \<le> q" "0 \<le> r" using assms by (simp_all add: q_def r_def)
  have e: "float_seconds d = f64 (q + f64 r)"
    using assms by (simp add: float_seconds_def whole_seconds_nonneg q_def r_def minus_div_mult_eq_mod)
  have f: "0 \<le> f64 r" by (rule f64_nonneg [OF pos(2)])
  then show "0 \<le> float_seconds d" using pos by (simp add: e f64_nonneg)
  have "d = d div nanos_per_second * nanos_per_second + d mod nanos_per_second" by simp
  then have "(of_int d :: rat) = of_int (d div nanos_per_second) * of_int nanos_per_second + of_int (d mod nanos_per_second)"
    by (metis of_int_add of_int_mult)
  then have sum: "of_int d / of_int nanos_per_second = q + r"
    by (simp add: q_def r_def field_simps)
  have "q + f64 r \<le> (q + r) * (1 + ulp) + tiny"
    using f64_up [OF pos(2)] grow [OF pos(1)] by (simp add: distrib_right)
  then have "(q + f64 r) * (1 + ulp) \<le> ((q + r) * (1 + ulp) + tiny) * (1 + ulp)"
    by (rule mult_right_mono) (rule ulp_pos)
  moreover have "f64 (q + f64 r) \<le> (q + f64 r) * (1 + ulp) + tiny"
    using pos f by (intro f64_up) simp
  moreover have "tiny * (1 + ulp) \<le> 2 * tiny" by (simp add: ulp_def tiny_def)
  ultimately show "float_seconds d \<le> of_int d / of_int nanos_per_second * (1 + ulp) ^ 2 + 3 * tiny"
    unfolding e sum by (simp add: power2_eq_square algebra_simps)
qed

section \<open>One refill\<close>

definition bucket_ok :: "int \<Rightarrow> app \<Rightarrow> bool" where
  "bucket_ok limit a \<longleftrightarrow> 0 \<le> ap_tokens a \<and> ap_tokens a \<le> of_int limit"

text \<open>What a refill can add beyond the exact amount.\<close>

definition slack :: "int \<Rightarrow> rat" where "slack limit = 3 * of_int limit * ulp"

lemma gain_up:
  assumes "0 \<le> d" and "0 < limit" and "limit < 2 ^ 53"
  shows "0 \<le> f64 (float_seconds d * f64 (of_int limit))"
    and "f64 (float_seconds d * f64 (of_int limit))
      \<le> of_int limit * of_int d / of_int nanos_per_second * (1 + ulp) ^ 3 + 5 * of_int limit * tiny"
proof -
  let ?L = "of_int limit :: rat" and ?D = "of_int d / of_int nanos_per_second :: rat"
  have L: "f64 ?L = ?L" using assms by (intro f64_limit) auto
  have L1: "1 \<le> ?L" using assms(2) by simp
  note fs = float_seconds_up [OF assms(1)]
  show "0 \<le> f64 (float_seconds d * f64 ?L)" using fs(1) L1 by (simp add: L f64_nonneg)
  have "float_seconds d * ?L \<le> (?D * (1 + ulp) ^ 2 + 3 * tiny) * ?L"
    using fs(2) L1 by (intro mult_right_mono) auto
  then have "float_seconds d * ?L * (1 + ulp) \<le> (?D * (1 + ulp) ^ 2 + 3 * tiny) * ?L * (1 + ulp)"
    by (rule mult_right_mono) (rule ulp_pos)
  moreover have "f64 (float_seconds d * ?L) \<le> float_seconds d * ?L * (1 + ulp) + tiny"
    using fs(1) L1 by (intro f64_up) simp
  moreover have "(?D * (1 + ulp) ^ 2 + 3 * tiny) * ?L * (1 + ulp)
      = ?L * of_int d / of_int nanos_per_second * (1 + ulp) ^ 3 + ?L * (3 * tiny * (1 + ulp))"
    by (simp add: power2_eq_square power3_eq_cube algebra_simps)
  moreover have "?L * (3 * tiny * (1 + ulp)) \<le> ?L * (4 * tiny)"
    using L1 by (intro mult_left_mono) (simp_all add: ulp_def tiny_def)
  moreover have "tiny \<le> ?L * tiny" using L1 by (simp add: tiny_def)
  ultimately show "f64 (float_seconds d * f64 ?L) \<le> ?L * of_int d / of_int nanos_per_second * (1 + ulp) ^ 3 + 5 * ?L * tiny"
    unfolding L by linarith
qed

definition gain :: "int \<Rightarrow> int \<Rightarrow> rat" where
  "gain limit d = of_int limit * of_int d / of_int nanos_per_second * (1 + ulp) ^ 3"

lemma gain_mono: "0 < limit \<Longrightarrow> d \<le> d' \<Longrightarrow> gain limit d \<le> gain limit d'"
  unfolding gain_def using ulp_pos by (intro mult_right_mono divide_right_mono mult_left_mono) auto

lemma gain_add: "gain limit d + gain limit d' = gain limit (d + d')"
  by (simp add: gain_def add_divide_distrib ring_distribs)

lemma time_sub_forward: "u \<le> t \<Longrightarrow> 0 \<le> time_sub t u \<and> time_sub t u \<le> t - u"
  by (auto simp: time_sub_def)

lemma refill_tokens:
  assumes "bucket_ok limit a" and "0 < limit" and "limit < 2 ^ 53" and "ap_last_fill a \<le> now"
  shows "bucket_ok limit (refill_cmd_tokens now limit a)" and "ap_last_fill (refill_cmd_tokens now limit a) = now"
    and "ap_tokens (refill_cmd_tokens now limit a) \<le> ap_tokens a + gain limit (now - ap_last_fill a)
      + of_int limit * ulp + (5 * of_int limit + 1) * tiny"
proof -
  let ?L = "of_int limit :: rat" and ?x = "ap_tokens a" and ?d = "time_sub now (ap_last_fill a)"
  let ?g = "f64 (float_seconds ?d * f64 ?L)" and ?t = "ap_tokens (refill_cmd_tokens now limit a)"
  have L: "f64 ?L = ?L" using assms by (intro f64_limit) auto
  have x: "0 \<le> ?x" "?x \<le> ?L" using assms(1) by (auto simp: bucket_ok_def)
  have d: "0 \<le> ?d" "?d \<le> now - ap_last_fill a" using time_sub_forward [OF assms(4)] by auto
  have g: "0 \<le> ?g" and gu: "?g \<le> gain limit ?d + 5 * ?L * tiny"
    using gain_up [OF d(1) assms(2,3)] by (simp_all add: gain_def)
  have t: "?t = (if ?L < f64 (?x + ?g) then ?L else f64 (?x + ?g))"
    by (simp add: refill_cmd_tokens_def Let_def L)
  have "0 \<le> f64 (?x + ?g)" using x g by (intro f64_nonneg) simp
  then show "bucket_ok limit (refill_cmd_tokens now limit a)" using assms(2) by (auto simp: bucket_ok_def t)
  show "ap_last_fill (refill_cmd_tokens now limit a) = now" by (simp add: refill_cmd_tokens_def Let_def)
  have Lu: "0 \<le> ?L * ulp" using assms(2) by (simp add: ulp_def)
  have "?t \<le> ?x + ?g + ?L * ulp + tiny"
  proof (cases "?L \<le> ?x + ?g")
    case True
    then show ?thesis using Lu tiny_pos by (simp add: t)
  next
    case False
    have "f64 (?x + ?g) \<le> (?x + ?g) * (1 + ulp) + tiny" using x g by (intro f64_up) simp
    moreover have "(?x + ?g) * ulp \<le> ?L * ulp" using False ulp_pos by (intro mult_right_mono) auto
    ultimately have "f64 (?x + ?g) \<le> ?x + ?g + ?L * ulp + tiny" by (simp add: distrib_left)
    then show ?thesis by (auto simp: t)
  qed
  moreover have "gain limit ?d \<le> gain limit (now - ap_last_fill a)" by (rule gain_mono [OF assms(2) d(2)])
  ultimately show "?t \<le> ?x + gain limit (now - ap_last_fill a) + ?L * ulp + (5 * ?L + 1) * tiny"
    using gu by (simp add: distrib_right)
qed

lemma slack_enough:
  assumes "0 < limit"
  shows "2 * (of_int limit * ulp) + (5 * of_int limit + 2) * tiny \<le> slack limit"
proof -
  have "(1 :: rat) \<le> of_int limit" using assms by simp
  then have "(5 * of_int limit + 2) * tiny \<le> (7 * of_int limit) * tiny"
    using tiny_pos by (intro mult_right_mono) auto
  also have "\<dots> \<le> of_int limit * ulp"
    using assms by (simp add: tiny_def ulp_def)
  finally show ?thesis by (simp add: slack_def mult.commute)
qed

text \<open>One use of the bucket: a command asks for a token, or only the state is asked for.\<close>

definition bucket_use :: "options \<Rightarrow> instant \<times> bool \<Rightarrow> app \<Rightarrow> app \<times> bool" where
  "bucket_use o' ev a =
     (if snd ev then allow_command o' (fst ev) a else (fst (command_rate_status o' (fst ev) a), False))"

fun bucket_run :: "options \<Rightarrow> (instant \<times> bool) list \<Rightarrow> app \<Rightarrow> nat" where
  "bucket_run o' [] a = 0"
| "bucket_run o' (ev # evs) a =
     (case bucket_use o' ev a of (a', ok) \<Rightarrow> of_bool ok + bucket_run o' evs a')"

lemma bucket_use_step:
  assumes "CommandRateLimit (Publish o') = limit" and "bucket_ok limit a" and "0 < limit" and "limit < 2 ^ 53"
    and "ap_last_fill a \<le> fst ev" and "bucket_use o' ev a = (a', ok)"
  shows "bucket_ok limit a'" and "ap_last_fill a' = fst ev"
    and "ap_tokens a' + of_bool ok \<le> ap_tokens a + gain limit (fst ev - ap_last_fill a) + slack limit"
proof -
  let ?b = "refill_cmd_tokens (fst ev) limit a"
  note r = refill_tokens [OF assms(2-5)]
  have L: "f64 (of_int limit) = of_int limit" using assms by (intro f64_limit) auto
  have Lu: "0 \<le> of_int limit * ulp" using assms(3) by (simp add: ulp_def)
  have case3: "ap_tokens ?b \<le> ap_tokens a + gain limit (fst ev - ap_last_fill a) + slack limit"
    using r(3) slack_enough [OF assms(3)] Lu tiny_pos by (simp add: distrib_right)
  have "bucket_ok limit a' \<and> ap_last_fill a' = fst ev \<and>
      ap_tokens a' + of_bool ok \<le> ap_tokens a + gain limit (fst ev - ap_last_fill a) + slack limit"
  proof (cases "snd ev \<and> 1 \<le> ap_tokens ?b")
    case True
    then have a': "a' = ?b\<lparr>ap_tokens := f64 (ap_tokens ?b - 1)\<rparr>" "ok"
      using assms(1,3,6) by (auto simp: bucket_use_def allow_command_def Let_def)
    have t: "0 \<le> ap_tokens ?b - 1" "ap_tokens ?b - 1 \<le> of_int limit"
      using True r(1) by (auto simp: bucket_ok_def)
    have "f64 (ap_tokens ?b - 1) \<le> of_int limit" using f64_mono [OF t] by (simp add: L)
    then have ok': "bucket_ok limit a'" using f64_nonneg [OF t(1)] by (simp add: bucket_ok_def a')
    have "f64 (ap_tokens ?b - 1) \<le> (ap_tokens ?b - 1) * (1 + ulp) + tiny" by (rule f64_up [OF t(1)])
    moreover have "(ap_tokens ?b - 1) * ulp \<le> of_int limit * ulp" using t(2) ulp_pos by (intro mult_right_mono)
    ultimately have "f64 (ap_tokens ?b - 1) \<le> ap_tokens ?b - 1 + of_int limit * ulp + tiny"
      by (simp add: distrib_left)
    then have "ap_tokens a' + of_bool ok \<le> ap_tokens a + gain limit (fst ev - ap_last_fill a) + slack limit"
      using r(3) slack_enough [OF assms(3)] by (simp add: a' distrib_right)
    with ok' r(2) show ?thesis by (simp add: a')
  next
    case False
    then have "a' = ?b" "\<not> ok"
      using assms(1,3,6) by (auto simp: bucket_use_def allow_command_def command_rate_status_def Let_def split: if_splits)
    with r case3 show ?thesis by simp
  qed
  then show "bucket_ok limit a'" and "ap_last_fill a' = fst ev"
    and "ap_tokens a' + of_bool ok \<le> ap_tokens a + gain limit (fst ev - ap_last_fill a) + slack limit"
    by auto
qed

lemma bucket_run_bound:
  assumes "CommandRateLimit (Publish o') = limit" and "0 < limit" and "limit < 2 ^ 53"
    and "bucket_ok limit a" and "sorted (ap_last_fill a # map fst evs)"
  shows "of_nat (bucket_run o' evs a) \<le>
    ap_tokens a + gain limit (last (ap_last_fill a # map fst evs) - ap_last_fill a) + of_nat (length evs) * slack limit"
  using assms(4,5)
proof (induction evs arbitrary: a)
  case Nil
  then show ?case by (simp add: bucket_ok_def gain_def)
next
  case (Cons ev evs)
  obtain a' ok where u: "bucket_use o' ev a = (a', ok)" by fastforce
  have t: "ap_last_fill a \<le> fst ev" using Cons.prems(2) by simp
  note step = bucket_use_step [OF assms(1) Cons.prems(1) assms(2,3) t u]
  have "sorted (ap_last_fill a' # map fst evs)" using Cons.prems(2) by (simp add: step(2))
  note ih = Cons.IH [OF step(1) this]
  have l: "last (ap_last_fill a # map fst (ev # evs)) = last (fst ev # map fst evs)" by simp
  have "gain limit (fst ev - ap_last_fill a) + gain limit (last (fst ev # map fst evs) - fst ev)
      = gain limit (last (fst ev # map fst evs) - ap_last_fill a)"
    by (simp add: gain_add)
  then show ?case
    using ih step(3) unfolding l by (simp add: u step(2) distrib_right)
qed

lemma last_ge_first: "sorted (x # xs) \<Longrightarrow> x \<le> last (x # xs)"
  by (cases xs rule: rev_cases) auto

section \<open>The bound\<close>

text \<open>The exact amount, when the slack of \<open>n\<close> refills and the error of the amount stay below one token.\<close>

lemma below_exact_rate:
  assumes "of_nat k \<le> of_int limit + gain limit elapsed + of_nat n * slack limit"
    and "0 < limit" and "0 \<le> elapsed" and "int n * limit \<le> 2 ^ 50" and "limit * elapsed \<le> 2 ^ 50 * nanos_per_second"
  shows "int k * nanos_per_second < (limit + 1) * nanos_per_second + limit * elapsed"
proof -
  define K where "K = (of_int (limit * elapsed) / of_int nanos_per_second :: rat)"
  have K: "0 \<le> K" "K \<le> 2 ^ 50"
    using assms(2,3) of_int_le_iff [of "limit * elapsed" "2 ^ 50 * nanos_per_second", where 'a = rat] assms(5)
    by (simp_all add: K_def)
  have "(1 + ulp) ^ 3 \<le> 1 + 4 * ulp" by (simp add: ulp_def power3_eq_cube)
  then have "gain limit elapsed \<le> K * (1 + 4 * ulp)"
    using K(1) by (simp add: gain_def K_def mult_left_mono)
  also have "\<dots> \<le> K + 1 / 2" using K(2) by (simp add: ulp_def)
  finally have g: "gain limit elapsed \<le> K + 1 / 2" .
  have "of_nat n * slack limit \<le> 3 / 8"
  proof -
    have "(of_int (int n * limit) :: rat) \<le> 2 ^ 50"
      using assms(4) of_int_le_iff [of "int n * limit" "2 ^ 50", where 'a = rat] by simp
    then show ?thesis by (simp add: slack_def ulp_def mult.commute)
  qed
  then have "of_nat k < of_int limit + K + (1 :: rat)" using g assms(1) by simp
  then have "of_nat k * of_int nanos_per_second < (of_int limit + K + 1) * (of_int nanos_per_second :: rat)"
    by (intro mult_strict_right_mono) simp_all
  also have "\<dots> = of_int ((limit + 1) * nanos_per_second + limit * elapsed)"
    by (simp add: K_def field_simps)
  finally have "(of_int (int k * nanos_per_second) :: rat)
      < of_int ((limit + 1) * nanos_per_second + limit * elapsed)" by simp
  then show ?thesis by (simp only: of_int_less_iff)
qed

text \<open>The token bucket bounds the commands that reach the serial port: in any sequence of commands and
  queries of the limit, at times that do not decrease, fewer than limit times (T + 1) plus one commands
  are let through in T nanoseconds (scaled to seconds). The rounding of the tokens is included, as long
  as the number of calls times the limit, and the limit times the seconds, stay below \<open>2 ^ 50\<close>.\<close>
lemma command_rate_bounded:
  assumes "CommandRateLimit (Publish o') = limit" and "0 < limit" and "bucket_ok limit a"
    and "sorted (ap_last_fill a # map fst evs)"
    and "elapsed = last (ap_last_fill a # map fst evs) - ap_last_fill a"
    and "int (length evs) * limit \<le> 2 ^ 50" and "limit * elapsed \<le> 2 ^ 50 * nanos_per_second"
  shows "int (bucket_run o' evs a) * nanos_per_second < (limit + 1) * nanos_per_second + limit * elapsed"
proof (cases "evs = []")
  case True
  then show ?thesis using assms(2,5) by simp
next
  case False
  then have "1 \<le> int (length evs)" by (cases evs) auto
  then have "1 * limit \<le> int (length evs) * limit" using assms(2) by (intro mult_right_mono) auto
  then have small: "limit < 2 ^ 53" using assms(6) by simp
  have pos: "0 \<le> elapsed" using last_ge_first [OF assms(4)] assms(5) by simp
  have "of_nat (bucket_run o' evs a) \<le> ap_tokens a + gain limit elapsed + of_nat (length evs) * slack limit"
    using bucket_run_bound [OF assms(1,2) small assms(3,4)] by (simp add: assms(5))
  then have "of_nat (bucket_run o' evs a) \<le> of_int limit + gain limit elapsed + of_nat (length evs) * slack limit"
    using assms(3) by (simp add: bucket_ok_def)
  then show ?thesis by (rule below_exact_rate [OF _ assms(2) pos assms(6,7)])
qed

definition bucket_app :: app where
  "bucket_app = init_app \<lparr>dr_call = (\<lambda>_ _. None)\<rparr> sample_config 0 (new_publisher sample_config 0)"

lemma bucket_app_facts:
  "bucket_ok 5 bucket_app" "CommandRateLimit (Publish sample_config) = 5" "ap_last_fill bucket_app = 0"
  using f64_limit [of 5] by (simp_all add: bucket_app_def bucket_ok_def init_app_def sample_config_def sample_publish_def)

lemma command_rate_bounded_witness:
  "int (bucket_run sample_config (replicate 40 (1000000000, True)) bucket_app) * nanos_per_second
     < 11 * nanos_per_second"
proof -
  let ?evs = "replicate 40 (1000000000 :: int, True)"
  note b = bucket_app_facts
  have "sorted (ap_last_fill bucket_app # map fst ?evs)"
    by (simp add: b(3))
  moreover have "last (ap_last_fill bucket_app # map fst ?evs) = 1000000000"
    by (simp add: b(3))
  ultimately show ?thesis
    using command_rate_bounded [OF b(2) _ b(1) _ refl, where evs = ?evs]
    by (simp add: b)
qed

end
