(* ===== verification/AppFrames.thy ===== *)
theory AppFrames
  imports AppRun CommandRate
begin

text \<open>
  What a step of the application does to the calls of the raw-line hook and to the token bucket, by its label.
\<close>

section \<open>The raw lines\<close>

lemma execute_raws [simp]: "raws (ap_pub (fst (execute_command E D Q o' now payload a))) = raws (ap_pub a)"
  by (cases rule: execute_command_cases [of o' now payload a E D Q]) simp_all

lemma session_raws [simp]:
  "raws (ap_pub (session_end E D o' now c a)) = raws (ap_pub a)"
  "raws (ap_pub (session_online E D o' now a)) = raws (ap_pub a)"
  "raws (ap_pub (session_recovered E D o' now a)) = raws (ap_pub a)"
  "raws (ap_pub (session_wake o' c first a)) = raws (ap_pub a)"
  "raws (ap_pub (app_stop E D o' a)) = raws (ap_pub a)"
  "raws (ap_pub (send_ping D now a)) = raws (ap_pub a)"
proof -
  show "raws (ap_pub (send_ping D now a)) = raws (ap_pub a)"
    by (cases rule: send_ping_cases [of D now a]) simp_all
qed (simp_all add: session_end_def session_online_def session_recovered_def session_wake_def app_stop_def Let_def)

lemma session_start_raws [simp]: "raws (ap_pub (session_start E D o' now c a)) = raws (ap_pub a)"
  by (cases "reconnect D o' (ap_serial a)") (simp add: session_start_def split: option.split)

lemma dropped_raws [simp]: "raws (inc_serial_dropped p) = raws p"
  by (simp add: inc_serial_dropped_def raws_def raw_calls_def)

lemma handle_line_raws: "handle_line now c pick s a = (a', e) \<Longrightarrow> raws (ap_pub a') = raws (ap_pub a)"
  by (cases rule: handle_line_cases [of now c pick s a]) auto

lemma session_round_raws [simp]: "raws (ap_pub (session_round E D o' now c c' pick sc a)) = raws (ap_pub a)"
proof (cases "read_next c sc")
  case (Pair sc' r)
  show ?thesis
  proof (cases r)
    case (HandleLine s)
    show ?thesis
      by (cases "handle_line now c' pick s (a\<lparr>ap_phase := Reading sc'\<rparr>)")
        (auto simp: session_round_def Pair HandleLine dest: handle_line_raws split: option.split)
  qed (simp_all add: session_round_def Pair)
qed

text \<open>The hook is called once for each line that is taken from the channel, with that line.\<close>

lemma app_step_raws:
  assumes "app_step E D Q o' a l b"
  shows "\<exists>es. raws (ap_pub b) = (raw_hook (ap_pub a), raw_calls (ap_pub a) @ es) \<and>
    (raw_hook (ap_pub a) \<longrightarrow> map raw_Message es = (case l of Taken s \<Rightarrow> [s] | _ \<Rightarrow> []))"
proof -
  have same: ?thesis if "raws (ap_pub b) = raws (ap_pub a)" "case l of Taken _ \<Rightarrow> False | _ \<Rightarrow> True"
    using that by (intro exI [of _ "[]"]) (auto simp: raws_def split: line_label.splits)
  show ?thesis
    using assms
  proof cases
    case (receive msg ms rk now)
    then show ?thesis by (auto simp: receive_line_def raws_line raw_entry_of_def)
  next
    case (command now payload)
    then show ?thesis by (intro same) (simp_all add: handle_command_def)
  next
    case (read sc c sc' ev now c' pick)
    then show ?thesis by (intro same) (simp_all add: session_read_def)
  qed (rule same, simp, simp)+
qed

section \<open>The token bucket\<close>

definition bucket :: "app \<Rightarrow> rat \<times> instant" where
  "bucket a = (ap_tokens a, ap_last_fill a)"

lemma bucket_with_pub [simp]: "bucket (with_pub f a) = bucket a"
  by (simp add: bucket_def)

lemma bucket_updates [simp]:
  "bucket (a\<lparr>ap_serial := sr\<rparr>) = bucket a" "bucket (a\<lparr>ap_phase := ph\<rparr>) = bucket a" "bucket (a\<lparr>ap_delay := d\<rparr>) = bucket a"
  "bucket (a\<lparr>ap_ch := ch\<rparr>) = bucket a"
  by (simp_all add: bucket_def)

lemma bucket_refill: "bucket a = bucket b \<Longrightarrow> bucket (refill_cmd_tokens now n a) = bucket (refill_cmd_tokens now n b)"
  by (simp add: bucket_def refill_cmd_tokens_def Let_def)

lemma bucket_status:
  assumes "bucket a = bucket b"
  shows "bucket (fst (command_rate_status o' now a)) = bucket (fst (command_rate_status o' now b))"
proof (cases "CommandRateLimit (Publish o') \<le> 0")
  case False
  have "bucket (refill_cmd_tokens now n a) = bucket (refill_cmd_tokens now n b)" for n
    by (rule bucket_refill [OF assms])
  with False show ?thesis by (simp add: command_rate_status_def Let_def)
qed (simp add: command_rate_status_def assms)

lemma bucket_finish [simp]: "bucket (fst (finish_command E o' now res a)) = bucket a"
  by (simp add: finish_command_def)

lemma bucket_session [simp]:
  "bucket (session_end E D o' now c a) = bucket a" "bucket (session_online E D o' now a) = bucket a"
  "bucket (session_recovered E D o' now a) = bucket a" "bucket (session_wake o' c first a) = bucket a"
  "bucket (app_stop E D o' a) = bucket a"
  by (simp_all add: session_end_def session_online_def session_recovered_def session_wake_def app_stop_def Let_def)

lemma bucket_others [simp]:
  "bucket (session_read ev sc a) = bucket a" "bucket (send_ping D now a) = bucket a"
  by (simp add: session_read_def) (cases rule: send_ping_cases [of D now a]; simp)

lemma bucket_receive [simp]: "bucket (receive_line E o' rk now a) = bucket a"
  by (cases "ap_ch a") (simp_all add: receive_line_def)

lemma bucket_start [simp]: "bucket (session_start E D o' now c a) = bucket a"
  by (cases "reconnect D o' (ap_serial a)") (simp add: session_start_def split: option.split)

lemma bucket_line: "handle_line now c pick s a = (a', e) \<Longrightarrow> bucket a' = bucket a"
  by (cases rule: handle_line_cases [of now c pick s a]) auto

lemma bucket_round [simp]: "bucket (session_round E D o' now c c' pick sc a) = bucket a"
proof (cases "read_next c sc")
  case (Pair sc' r)
  show ?thesis
  proof (cases r)
    case (HandleLine s)
    show ?thesis
      by (cases "handle_line now c' pick s (a\<lparr>ap_phase := Reading sc'\<rparr>)")
        (auto simp: session_round_def Pair HandleLine dest: bucket_line split: option.split)
  qed (simp_all add: session_round_def Pair)
qed

text \<open>A command uses the bucket up to twice: for its token, and to report what is left.\<close>

lemma execute_bucket:
  "bucket (fst (execute_command E D Q o' now payload a)) = bucket a \<and> granted o' now payload a = None \<or>
   bucket (fst (execute_command E D Q o' now payload a)) = bucket (fst (allow_command o' now a)) \<or>
   bucket (fst (execute_command E D Q o' now payload a)) =
     bucket (fst (command_rate_status o' now (fst (allow_command o' now a))))"
proof -
  obtain a1 ok where a1: "allow_command o' now a = (a1, ok)" by fastforce
  have st: "bucket (fst (command_rate_status o' now (with_pub f a1))) = bucket (fst (command_rate_status o' now a1))"
    "bucket (fst (command_rate_status o' now (a1\<lparr>ap_serial := sr\<rparr>))) = bucket (fst (command_rate_status o' now a1))" for f sr
    by (rule bucket_status, simp)+
  show ?thesis
    by (simp add: execute_command_def granted_def Let_def a1 split_def st split: sum.split bool.split option.split)
qed

text \<open>What a step takes from the bucket, and what the time since the last refill brings.\<close>

definition spends :: "int \<Rightarrow> app \<Rightarrow> nat \<Rightarrow> app \<Rightarrow> bool" where
  "spends limit a n b \<longleftrightarrow> bucket_ok limit b \<and>
     ap_tokens b + of_nat n \<le> ap_tokens a + gain limit (ap_last_fill b - ap_last_fill a) + 2 * slack limit"

lemma slack_pos: "0 < limit \<Longrightarrow> 0 \<le> slack limit"
  by (simp add: slack_def ulp_def)

lemma spends_nothing: "bucket b = bucket a \<Longrightarrow> bucket_ok limit a \<Longrightarrow> 0 < limit \<Longrightarrow> spends limit a 0 b"
  using slack_pos [of limit] by (simp add: spends_def bucket_def bucket_ok_def gain_def)

lemma spends_twice:
  assumes "CommandRateLimit (Publish o') = limit" and "bucket_ok limit a" and "0 < limit" and "limit < 2 ^ 53"
    and "ap_last_fill a \<le> now"
  shows "spends limit a (of_bool (snd (allow_command o' now a))) (fst (allow_command o' now a))"
    and "spends limit a (of_bool (snd (allow_command o' now a))) (fst (command_rate_status o' now (fst (allow_command o' now a))))"
    and "spends limit a 0 (fst (command_rate_status o' now a))"
proof -
  obtain a1 ok where a1: "bucket_use o' (now, True) a = (a1, ok)" by fastforce
  have al: "allow_command o' now a = (a1, ok)" using a1 by (simp add: bucket_use_def)
  note u1 = bucket_use_step [OF assms(1-4) _ a1, simplified, OF assms(5)]
  obtain a2 where a2: "bucket_use o' (now, False) a1 = (a2, False)" by (simp add: bucket_use_def)
  have "ap_last_fill a1 \<le> fst (now, False)" by (simp add: u1(2))
  note u2 = bucket_use_step [OF assms(1) u1(1) assms(3,4) this a2, simplified]
  obtain a3 where a3: "bucket_use o' (now, False) a = (a3, False)" by (simp add: bucket_use_def)
  note u3 = bucket_use_step [OF assms(1-4) _ a3, simplified, OF assms(5)]
  have st: "fst (command_rate_status o' now a1) = a2" "fst (command_rate_status o' now a) = a3"
    using a2 a3 by (simp_all add: bucket_use_def)
  have pos: "0 \<le> slack limit" using slack_pos [OF assms(3)] .
  have z: "gain limit 0 = 0" by (simp add: gain_def)
  show "spends limit a (of_bool (snd (allow_command o' now a))) (fst (allow_command o' now a))"
    using u1 pos by (simp add: spends_def al)
  show "spends limit a (of_bool (snd (allow_command o' now a))) (fst (command_rate_status o' now (fst (allow_command o' now a))))"
    using u1 u2 pos by (simp add: spends_def al st z)
  show "spends limit a 0 (fst (command_rate_status o' now a))"
    using u3 pos by (simp add: spends_def st)
qed

lemma spends_less: "spends limit a n b \<Longrightarrow> m \<le> n \<Longrightarrow> spends limit a m b"
  using of_nat_mono [of m n, where 'a = rat] by (simp add: spends_def)

lemma refilled:
  assumes "0 < CommandRateLimit (Publish o')"
  shows "ap_last_fill (fst (allow_command o' now a)) = now" and "ap_last_fill (fst (command_rate_status o' now a)) = now"
  using assms by (simp_all add: allow_command_def command_rate_status_def refill_cmd_tokens_def Let_def)

lemma spends_bucket: "spends limit a n b \<Longrightarrow> bucket c = bucket b \<Longrightarrow> spends limit a n c"
  by (simp add: spends_def bucket_def bucket_ok_def)

text \<open>Every step of the application spends at most one token, and one for each command that it grants.\<close>

lemma app_step_spends:
  assumes "app_step E D Q o' a l b" and "CommandRateLimit (Publish o') = limit" and "bucket_ok limit a"
    and "0 < limit" and "limit < 2 ^ 53" and "ap_last_fill a \<le> ap_last_fill b"
  shows "spends limit a (of_bool (commanded o' a l \<noteq> None)) b"
proof -
  have idle: ?thesis if "bucket b = bucket a" "commanded o' a l = None"
    using spends_nothing [OF that(1) assms(3,4)] that(2) by simp
  have pos: "0 < CommandRateLimit (Publish o')" using assms(2,4) by simp
  note twice = spends_twice [OF assms(2-5)]
  show ?thesis
    using assms(1)
  proof cases
    case (command now payload)
    let ?b = "fst (execute_command E D Q o' now payload a)"
    have b: "b = ?b" using command by (simp add: handle_command_def)
    have le: "of_bool (commanded o' a l \<noteq> None) \<le> (of_bool (snd (allow_command o' now a)) :: nat)"
      using command by (auto simp: commanded_def granted_def split: sum.splits if_splits)
    consider "bucket ?b = bucket a" "granted o' now payload a = None"
      | "bucket ?b = bucket (fst (allow_command o' now a))"
      | "bucket ?b = bucket (fst (command_rate_status o' now (fst (allow_command o' now a))))"
      using execute_bucket [of E D Q o' now payload a] by metis
    then show ?thesis
    proof cases
      case 1
      then show ?thesis using command b by (intro idle) (simp_all add: commanded_def)
    next
      case 2
      then have "ap_last_fill b = now" using refilled(1) [OF pos] by (simp add: bucket_def b)
      then show ?thesis using assms(6) 2 b twice(1) spends_bucket spends_less [OF _ le] by metis
    next
      case 3
      then have "ap_last_fill b = now" using refilled(2) [OF pos] by (simp add: bucket_def b)
      then show ?thesis using assms(6) 3 b twice(2) spends_bucket spends_less [OF _ le] by metis
    qed
  next
    case (rate now)
    then have "ap_last_fill b = now" using refilled(2) [OF pos] by simp
    then show ?thesis using rate twice(3) [of now] assms(6) by (simp add: commanded_def)
  next
    case (read sc c sc' ev now c' pick)
    then show ?thesis by (intro idle) (simp_all add: commanded_def)
  qed (rule idle, simp, simp add: commanded_def)+
qed

end
