(* ===== verification/GatewayRun.thy ===== *)
theory GatewayRun
  imports Gateway AppFrames
begin

text \<open>
  Runs of the whole gateway: the goroutines of the application, the broker, the HTTP server, the polled and pushed
  webhooks and the clients of the live feed share one state and take their steps in any order. The options of
  a step are those in force, which requests and the watcher of the runtime file may have changed.
\<close>

section \<open>Steps\<close>

definition sensor_calls :: "publisher \<Rightarrow> (string \<times> string) list" where
  "sensor_calls p = List.map_filter (\<lambda>h. case h of HookSensor hwid js \<Rightarrow> Some (hwid, js) | _ \<Rightarrow> None) (hooked p)"

text \<open>
  The hooks that the publisher has called in a step which leads to the application \<open>a\<close>: the line goes to the feed
  and the webhooks, the sensors to the webhooks. \<open>wrap\<close> encodes the envelope of a sensor.
\<close>

definition deliver :: "http_lib \<Rightarrow> (string \<Rightarrow> string \<Rightarrow> string \<Rightarrow> string) \<Rightarrow> instant \<Rightarrow> app \<Rightarrow> server \<Rightarrow> server" where
  "deliver L wrap now a S =
     (let p = ap_pub (sv_app S); p' = ap_pub a;
          S1 = fold (raw_line_hook L) (drop (length (raw_calls p)) (raw_calls p')) (S\<lparr>sv_app := a\<rparr>)
      in S1\<lparr>sv_hooks := fold (\<lambda>(hwid, js). notify_sum_json (hl_env L) wrap now hwid js)
           (drop (length (sensor_calls p)) (sensor_calls p')) (sv_hooks S1)\<rparr>)"

text \<open>
  What happens next: a message of the broker, a step of the application other than a command or a query of the limit,
  an answer to a poll, or one of the events of the HTTP side.
\<close>

datatype gateway_event =
    MqttMessage instant string string
  | Worker instant line_label
  | Polled instant "string \<Rightarrow> nat" "out_request \<Rightarrow> http_response option" webhook
  | Outside server_event

fun worker_label :: "line_label \<Rightarrow> bool" where
  "worker_label (Commanded now payload) = False"
| "worker_label (Queried now) = False"
| "worker_label _ = True"

text \<open>Lines reach the feed through the hook only, and clients subscribe with a request.\<close>

fun outside_event :: "server_event \<Rightarrow> bool" where
  "outside_event (LineRead e) = False"
| "outside_event (FeedOp (HubBroadcast e)) = False"
| "outside_event (FeedOp HubSubscribe) = False"
| "outside_event _ = True"

definition mqtt_message :: "http_lib \<Rightarrow> instant \<Rightarrow> string \<Rightarrow> string \<Rightarrow> server \<Rightarrow> app" where
  "mqtt_message L now topic pl S =
     (case on_publish_received (hl_env L) (opts S) topic pl (ap_pub (sv_app S)) of
        (p, None) \<Rightarrow> with_pub (\<lambda>_. p) (sv_app S)
      | (p, Some cmd) \<Rightarrow> handle_command (hl_env L) (hl_driver L) (hl_quoting L) (opts S) now cmd (with_pub (\<lambda>_. p) (sv_app S)))"

definition poll_answered :: "http_lib \<Rightarrow> instant \<Rightarrow> (string \<Rightarrow> nat) \<Rightarrow> (out_request \<Rightarrow> http_response option) \<Rightarrow> webhook \<Rightarrow> server \<Rightarrow> app" where
  "poll_answered L now rank answer h S =
     do_poll_once (hl_env L) (hl_driver L) (hl_quoting L) (opts S) (rl_net (hl_rt L)) rank answer now h (sv_app S)"

inductive gateway_step ::
  "http_lib \<Rightarrow> (string \<Rightarrow> string \<Rightarrow> string \<Rightarrow> string) \<Rightarrow> server \<Rightarrow> gateway_event \<Rightarrow> server \<Rightarrow> bool" for L wrap where
  message: "gateway_step L wrap S (MqttMessage now topic pl) (S\<lparr>sv_app := mqtt_message L now topic pl S\<rparr>)"
| worker: "app_step (hl_env L) (hl_driver L) (hl_quoting L) (opts S) (sv_app S) l a \<Longrightarrow> worker_label l \<Longrightarrow>
    gateway_step L wrap S (Worker now l) (deliver L wrap now a S)"
| polled: "h \<in> set (hm_polls (sv_hooks S)) \<Longrightarrow>
    gateway_step L wrap S (Polled now rank answer h) (S\<lparr>sv_app := poll_answered L now rank answer h S\<rparr>)"
| outside: "outside_event ev \<Longrightarrow> gateway_step L wrap S (Outside ev) (server_apply L ev S)"

text \<open>A run with its trace: each event with the state in which it happened.\<close>

inductive gateway_run ::
  "http_lib \<Rightarrow> (string \<Rightarrow> string \<Rightarrow> string \<Rightarrow> string) \<Rightarrow> server \<Rightarrow> (server \<times> gateway_event) list \<Rightarrow> server \<Rightarrow> bool"
  for L wrap S where
  begun: "gateway_run L wrap S [] S"
| step: "gateway_run L wrap S tr T \<Longrightarrow> gateway_step L wrap T ev T' \<Longrightarrow> gateway_run L wrap S (tr @ [(T, ev)]) T'"

inductive_cases gateway_stepE: "gateway_step L wrap S ev S'"

section \<open>Which command an event asks for\<close>

definition request_payload :: "http_lib \<Rightarrow> server \<Rightarrow> gateway_event \<Rightarrow> string option" where
  "request_payload L S ev =
     (case ev of
        MqttMessage now topic pl \<Rightarrow> if topic = CmdTopic (Publish (opts S)) then Some pl else None
      | Polled now rank answer h \<Rightarrow>
          if h \<notin> set (hm_polls (sv_hooks S)) then None
          else (case poll_request (e_tab (hl_env L)) (rl_net (hl_rt L)) rank h of
                  None \<Rightarrow> None
                | Some rq \<Rightarrow> (case answer rq of None \<Rightarrow> None | Some rs \<Rightarrow> poll_command (poll_max_bytes h) rs))
      | Outside (Request d r) \<Rightarrow>
          if hr_Path r = ''/api/v1/command'' \<and> hr_Method r = ''POST'' \<and> authorised L (d_now d) r S \<and>
             \<not> effective_read_only (opts S)
          then Some (command_payload L (fst (read_body r))) else None
      | _ \<Rightarrow> None)"

definition request_of :: "http_lib \<Rightarrow> server \<times> gateway_event \<Rightarrow> string option" where
  "request_of L x =
     (case request_payload L (fst x) (snd x) of
        None \<Rightarrow> None
      | Some payload \<Rightarrow>
          (case normalize_command (opts (fst x)) payload of
             Inl _ \<Rightarrow> None
           | Inr c \<Rightarrow> if command_allowed (opts (fst x)) c then Some c else None))"

lemma granted_request:
  "granted (opts S) now payload a = Some c \<Longrightarrow> request_payload L S ev = Some payload \<Longrightarrow> request_of L (S, ev) = Some c"
  by (auto simp: granted_def request_of_def split: sum.splits if_splits)

section \<open>One step of the gateway is at most one step of the application\<close>

lemma command_app:
  "sv_app (fst (handle_api_command L d r S)) =
    (if hr_Method r = ''POST'' \<and> \<not> effective_read_only (opts S) \<and> \<not> snd (read_body r) \<and> command_payload L (fst (read_body r)) \<noteq> []
     then handle_command (hl_env L) (hl_driver L) (hl_quoting L) (opts S) (d_now d) (command_payload L (fst (read_body r))) (sv_app S)
     else sv_app S)"
proof -
  obtain body err where b: "read_body r = (body, err)" by fastforce
  show ?thesis
    unfolding handle_api_command_def handle_command_def Let_def b
    by (cases err) (simp_all add: split_def)
qed

lemma protected_handlers:
  assumes "map_of (protected_routes L d) p = Some h"
  obtains (reads) "h \<in> {handle_api_health L d, handle_api_sensors L, handle_api_raw, handle_serial_info L d, handle_config_backups L}"
  | (rate) "h = handle_api_rate_limit d"
  | (command) "p = ''/api/v1/command''" "h = handle_api_command L d"
  | (rediscover) "p = ''/api/v1/ha/rediscover''" "h = handle_api_rediscover L"
  | (config) "h = handle_api_config L d"
  | (restore) "h = handle_config_restore L d"
  | (admin) "h = handle_api_tokens L d \<or> h = handle_webhooks L d \<or> h = handle_sessions L d"
proof -
  from assms have "(p, h) \<in> set (protected_routes L d)" by (rule map_of_SomeD)
  then show thesis by (auto simp: protected_routes_def intro: that)
qed

text \<open>What a request does to the application.\<close>

lemma serve_app:
  obtains (same) "sv_app (fst (serve L d r S)) = sv_app S"
  | (rate) "sv_app (fst (serve L d r S)) = fst (command_rate_status (opts S) (d_now d) (sv_app S))"
  | (rediscover) "sv_app (fst (serve L d r S)) = with_pub (clear_ha_discovery (hl_env L) (opts S)) (sv_app S)"
  | (command) "hr_Path r = ''/api/v1/command''" "hr_Method r = ''POST''" "authorised L (d_now d) r S"
      "\<not> effective_read_only (opts S)"
      "sv_app (fst (serve L d r S)) = handle_command (hl_env L) (hl_driver L) (hl_quoting L) (opts S) (d_now d)
         (command_payload L (fst (read_body r))) (sv_app S)"
proof (cases rule: serve_cases [of L d r S])
  case (through h)
  let ?S = "seen (d_now d) r S"
  from through(1) show thesis
  proof (cases rule: protected_handlers)
    case reads
    then show thesis using through(3) same by (auto simp: reading_frame)
  next
    case rate
    then show thesis using through(3) rate_limit_frame [of d r ?S] same that(2) by auto
  next
    case command
    show thesis
    proof (cases "sv_app (fst (h r ?S)) = sv_app S")
      case True
      then show thesis using through(3) same by simp
    next
      case False
      then show thesis
        using through(2,3) command(1) by (intro that(4)) (auto simp: command(2) command_app split: if_splits)
    qed
  next
    case rediscover
    then show thesis using through(3) same that(3) by (simp add: handle_api_rediscover_def split: if_splits)
  next
    case config
    then show thesis using through(3) same by (simp add: config_frame)
  next
    case restore
    then show thesis using through(3) same by (simp add: restore_frame)
  next
    case admin
    then show thesis using through(3) same admin_frame(1) [OF admin, of r ?S] by simp
  qed
next
  case unchanged
  then show thesis using same by (simp add: behind_def)
qed

lemma sv_app_deliver [simp]: "sv_app (deliver L wrap now a S) = a"
proof -
  have "sv_app (fold (raw_line_hook L) es T) = sv_app T" for es T
    by (induction es arbitrary: T) (simp_all add: raw_line_hook_def)
  then show ?thesis by (simp add: deliver_def Let_def)
qed

text \<open>The label of that step: a command that is executed is the one the event asks for.\<close>

definition step_label :: "http_lib \<Rightarrow> server \<Rightarrow> gateway_event \<Rightarrow> line_label \<Rightarrow> bool" where
  "step_label L S ev l \<longleftrightarrow>
     (case l of Commanded now payload \<Rightarrow> request_payload L S ev = Some payload | _ \<Rightarrow> True) \<and>
     (case ev of Worker now l' \<Rightarrow> l = l' | _ \<Rightarrow> \<not> worker_label l \<or> l = Quiet)"

lemma gateway_step_app:
  assumes "gateway_step L wrap S ev S'"
  obtains (same) "sv_app S' = sv_app S" "\<And>now l. ev \<noteq> Worker now l"
  | (stepped) l where "app_step (hl_env L) (hl_driver L) (hl_quoting L) (opts S) (sv_app S) l (sv_app S')"
      "step_label L S ev l"
  using assms
proof cases
  case (message now topic pl)
  let ?p = "on_publish_received (hl_env L) (opts S) topic pl (ap_pub (sv_app S))"
  have w: "with_pub (\<lambda>_. f (ap_pub a)) a = with_pub f a" for f and a :: app by (simp add: with_pub_def)
  have i: "with_pub (\<lambda>_. ap_pub a) a = a" for a :: app by (simp add: with_pub_def)
  consider "?p = (ap_pub (sv_app S), None)" | "?p = (clear_ha_discovery (hl_env L) (opts S) (ap_pub (sv_app S)), None)"
    | "topic = CmdTopic (Publish (opts S))" "?p = (ap_pub (sv_app S), Some pl)"
    by (atomize_elim) (auto simp: on_publish_received_def)
  then show thesis
  proof cases
    case 1
    then show thesis using message same by (simp add: mqtt_message_def i)
  next
    case 2
    then show thesis
      using message stepped [OF _, of Quiet]
        app_step.rediscover [where a = "sv_app S" and E = "hl_env L" and o' = "opts S"]
      by (simp add: mqtt_message_def w [of "clear_ha_discovery (hl_env L) (opts S)"] step_label_def)
  next
    case 3
    have "app_step (hl_env L) (hl_driver L) (hl_quoting L) (opts S) (sv_app S) (Commanded now pl) (sv_app S')"
      using message 3 app_step.command by (simp add: mqtt_message_def i)
    then show thesis using 3 message by (intro stepped [of "Commanded now pl"]) (simp_all add: step_label_def request_payload_def)
  qed
next
  case (worker l a now)
  have "sv_app S' = a" by (simp add: worker)
  then show thesis using worker by (intro stepped [of l]) (auto simp: step_label_def split: line_label.splits)
next
  case (polled h now rank answer)
  let ?rq = "poll_request (e_tab (hl_env L)) (rl_net (hl_rt L)) rank h"
  show thesis
  proof (cases "request_payload L S ev")
    case None
    then have "sv_app S' = sv_app S"
      using polled by (auto simp: request_payload_def poll_answered_def do_poll_once_def split: option.splits)
    then show thesis using polled same by simp
  next
    case (Some reply)
    then have "sv_app S' = handle_command (hl_env L) (hl_driver L) (hl_quoting L) (opts S) now reply (sv_app S)"
      using polled by (auto simp: request_payload_def poll_answered_def do_poll_once_def handle_command_def split: option.splits)
    then have "app_step (hl_env L) (hl_driver L) (hl_quoting L) (opts S) (sv_app S) (Commanded now reply) (sv_app S')"
      using app_step.command by simp
    then show thesis using Some polled by (intro stepped [of "Commanded now reply"]) (simp_all add: step_label_def)
  qed
next
  case (outside e)
  show thesis
  proof (cases e)
    case (Request d r)
    then have S': "S' = fst (serve L d r S)" using outside by simp
    show thesis
    proof (cases rule: serve_app [of L d r S])
      case same
      then show thesis using that(1) S' outside by simp
    next
      case rate
      then have "app_step (hl_env L) (hl_driver L) (hl_quoting L) (opts S) (sv_app S) (Queried (d_now d)) (sv_app S')"
        using S' app_step.rate by simp
      then show thesis using outside by (intro stepped [of "Queried (d_now d)"]) (simp_all add: step_label_def)
    next
      case rediscover
      then have "app_step (hl_env L) (hl_driver L) (hl_quoting L) (opts S) (sv_app S) Quiet (sv_app S')"
        using S' app_step.rediscover by simp
      then show thesis using outside by (intro stepped [of Quiet]) (simp_all add: step_label_def)
    next
      case command
      then have "app_step (hl_env L) (hl_driver L) (hl_quoting L) (opts S) (sv_app S)
          (Commanded (d_now d) (command_payload L (fst (read_body r)))) (sv_app S')"
        using S' app_step.command by simp
      then show thesis using outside Request command
        by (intro stepped [of "Commanded (d_now d) (command_payload L (fst (read_body r)))"]) (simp_all add: step_label_def request_payload_def)
    qed
  qed (use outside that(1) in \<open>simp_all add: raw_line_hook_def Let_def\<close>)
qed

section \<open>What every step keeps\<close>

lemma deliver_outside:
  "sv_runtime (deliver L wrap now a S) = sv_runtime S" "sv_sessions (deliver L wrap now a S) = sv_sessions S"
  "sv_hub (deliver L wrap now a S) =
     fold hub_broadcast (drop (length (raw_calls (ap_pub (sv_app S)))) (raw_calls (ap_pub a))) (sv_hub S)"
proof -
  have "sv_runtime (fold (raw_line_hook L) es T) = sv_runtime T \<and> sv_sessions (fold (raw_line_hook L) es T) = sv_sessions T \<and>
      sv_hub (fold (raw_line_hook L) es T) = fold hub_broadcast es (sv_hub T)" for es T
    by (induction es arbitrary: T) (simp_all add: raw_line_hook_def)
  then show "sv_runtime (deliver L wrap now a S) = sv_runtime S" "sv_sessions (deliver L wrap now a S) = sv_sessions S"
    "sv_hub (deliver L wrap now a S) =
       fold hub_broadcast (drop (length (raw_calls (ap_pub (sv_app S)))) (raw_calls (ap_pub a))) (sv_hub S)"
    by (simp_all add: deliver_def Let_def)
qed

lemma fold_keeps: "(\<And>x y. P y \<Longrightarrow> P (f x y)) \<Longrightarrow> P y \<Longrightarrow> P (fold f xs y)"
  by (induction xs arbitrary: y) auto

lemma hub_wf_broadcast: "hub_wf h \<Longrightarrow> hub_wf (hub_broadcast e h)"
  using hub_wf_apply [of h "HubBroadcast e"] by simp

lemma deliver_pushes: "pushes_ok (sv_hooks S) \<Longrightarrow> pushes_ok (sv_hooks (deliver L wrap now a S))"
proof -
  assume ok: "pushes_ok (sv_hooks S)"
  define S1 where "S1 = fold (raw_line_hook L) (drop (length (raw_calls (ap_pub (sv_app S)))) (raw_calls (ap_pub a))) (S\<lparr>sv_app := a\<rparr>)"
  have S1: "pushes_ok (sv_hooks S1)"
    unfolding S1_def by (rule fold_keeps [where P = "\<lambda>T. pushes_ok (sv_hooks T)"]) (simp_all add: raw_line_hook_def pushes_bounded ok)
  have "pushes_ok (fold (\<lambda>(hwid, js). notify_sum_json (hl_env L) wrap now hwid js) xs m)" if "pushes_ok m" for xs m
    by (rule fold_keeps [where P = pushes_ok, OF _ that]) (simp add: split_def pushes_bounded)
  from this [OF S1] show ?thesis unfolding deliver_def Let_def S1_def [symmetric] by simp
qed

fun draws_ok :: "gateway_event \<Rightarrow> bool" where
  "draws_ok (Outside ev) = draws_ids ev"
| "draws_ok _ = True"

lemma server_inv_app: "server_inv (S\<lparr>sv_app := a\<rparr>) = server_inv S"
  by (simp add: server_inv_def)

lemma server_inv_step:
  assumes "gateway_step L wrap S ev S'" and "draws_ok ev" and "server_inv S"
  shows "server_inv S'"
  using assms(1)
proof cases
  case (worker l a now)
  have "hub_wf (sv_hub (deliver L wrap now a S))"
    unfolding deliver_outside by (rule fold_keeps) (use assms(3) in \<open>auto simp: hub_wf_broadcast server_inv_def\<close>)
  then show ?thesis using assms(3) deliver_pushes [of S] by (simp add: worker server_inv_def deliver_outside)
qed (use assms in \<open>simp_all add: server_inv_app server_inv_apply\<close>)

lemma server_apply_deployed: "deployed (opts (server_apply L ev S)) = deployed (opts S)"
  using deployment.requests.served [of S "deployed (opts S)" L] deployment.watch_tick_keeps [of "sv_runtime S" "deployed (opts S)"]
  by (cases ev) (simp_all add: raw_line_hook_def Let_def)

lemma deployed_step: "gateway_step L wrap S ev S' \<Longrightarrow> deployed (opts S') = deployed (opts S)"
  by (elim gateway_stepE) (simp_all add: deliver_outside server_apply_deployed)

section \<open>Lines, frames and tokens in a run\<close>

definition labels :: "(server \<times> gateway_event) list \<Rightarrow> line_label list" where
  "labels tr = List.map_filter (\<lambda>x. case snd x of Worker now l \<Rightarrow> Some l | _ \<Rightarrow> None) tr"

lemma labels_snoc [simp]:
  "labels [] = []" "labels (tr @ [(T, ev)]) = labels tr @ (case ev of Worker now l \<Rightarrow> [l] | _ \<Rightarrow> [])"
  by (simp_all add: labels_def List.map_filter_def split: gateway_event.split)

lemma lines_inv_same: "lines_inv a ls b \<Longrightarrow> ap_ch c = ap_ch b \<Longrightarrow> serial_dropped (ap_pub c) = serial_dropped (ap_pub b) \<Longrightarrow> lines_inv a ls c"
  by (simp add: lines_inv_def)

lemma lines_inv_gateway:
  assumes "gateway_step L wrap S ev S'" and "lines_inv a ls (sv_app S)" and "view_ok (view (sv_app S))"
  shows "view_ok (view (sv_app S')) \<and> lines_inv a (ls @ (case ev of Worker now l \<Rightarrow> [l] | _ \<Rightarrow> [])) (sv_app S')"
  using assms(1)
proof (cases rule: gateway_step_app)
  case same
  then show ?thesis using assms(2,3) by (simp split: gateway_event.split)
next
  case (stepped l)
  note v = view_step [OF stepped(1) assms(3)]
  note n = lines_inv_step [OF assms(2) stepped(1) assms(3)]
  show ?thesis
  proof (cases "\<exists>now l'. ev = Worker now l'")
    case True
    then show ?thesis using stepped(2) v n by (auto simp: step_label_def)
  next
    case False
    then have "ap_ch (sv_app S') = ap_ch (sv_app S) \<and>
        serial_dropped (ap_pub (sv_app S')) = serial_dropped (ap_pub (sv_app S))"
      using stepped(2) v by (cases l) (auto simp: step_label_def split: gateway_event.splits)
    then show ?thesis
      using lines_inv_same [OF assms(2)] v False by (simp split: gateway_event.split)
  qed
qed

text \<open>Frames: what one step writes is what the program sends itself, or the command that the event asks for.\<close>

definition asked :: "http_lib \<Rightarrow> (server \<times> gateway_event) list \<Rightarrow> string list" where
  "asked L tr = List.map_filter (request_of L) tr"

lemma asked_snoc [simp]:
  "asked L [] = []" "asked L (tr @ [x]) = asked L tr @ (case request_of L x of Some c \<Rightarrow> [c] | None \<Rightarrow> [])"
  by (simp_all add: asked_def List.map_filter_def split: option.split)

definition user_frames :: "string list \<Rightarrow> string list" where
  "user_frames ws = filter (\<lambda>s. s \<notin> service_lines) ws"

lemma user_frames_simps [simp]:
  "user_frames [] = []" "user_frames (xs @ ys) = user_frames xs @ user_frames ys"
  "set new \<subseteq> service_lines \<Longrightarrow> user_frames new = []"
  by (auto simp: user_frames_def filter_empty_conv)

abbreviation port_writes :: "server \<Rightarrow> string list" where
  "port_writes S \<equiv> wrote (ap_serial (sv_app S))"

lemma commanded_request:
  assumes "step_label L S ev l" and "commanded (opts S) a l = Some c"
  shows "request_of L (S, ev) = Some c"
proof (cases l)
  case (Commanded now payload)
  then show ?thesis using assms granted_request by (auto simp: step_label_def commanded_def)
qed (use assms(2) in \<open>simp_all add: commanded_def\<close>)

lemma gateway_step_wrote:
  assumes "gateway_step L wrap S ev S'"
  obtains new where "port_writes S' = port_writes S @ new" "list_all (written_ok (opts S)) new"
    "user_frames new = [] \<or> (\<exists>c. request_of L (S, ev) = Some c \<and> user_frames new = [c @ cr_lf])"
  using assms
proof (cases rule: gateway_step_app)
  case same
  then show thesis by (intro that [of "[]"]) simp_all
next
  case (stepped l)
  from app_step_wrote [OF stepped(1)] obtain new where new: "port_writes S' = port_writes S @ new"
    and w: "set new \<subseteq> service_lines \<and> length new \<le> 1 \<or> (\<exists>c. commanded (opts S) (sv_app S) l = Some c \<and> new = [c @ cr_lf])"
    by blast
  from w show thesis
  proof (elim disjE exE conjE)
    assume "set new \<subseteq> service_lines"
    then show thesis by (intro that [OF new]) (simp_all add: written_ok_service)
  next
    fix c
    assume c: "commanded (opts S) (sv_app S) l = Some c" and n: "new = [c @ cr_lf]"
    have "written_ok (opts S) (c @ cr_lf)"
      using c written_ok_granted by (auto simp: commanded_def split: line_label.splits)
    moreover have "user_frames new = [] \<or> user_frames new = [c @ cr_lf]" by (simp add: n user_frames_def)
    ultimately show thesis using commanded_request [OF stepped(2) c] by (intro that [OF new]) (auto simp: n)
  qed
qed

lemma written_ok_deployed:
  assumes "deployed o1 = deployed o2"
  shows "written_ok o1 s = written_ok o2 s"
  unfolding written_ok_def deployed_commands(2) [OF assms] deployed_commands(3) [OF assms] by (rule refl)

lemma deployed_run: "gateway_run L wrap S tr S' \<Longrightarrow> deployed (opts S') = deployed (opts S)"
  by (induction rule: gateway_run.induct) (auto simp: deployed_step)

lemma run_wrote:
  assumes "gateway_run L wrap S tr S'"
  shows "\<exists>new. port_writes S' = port_writes S @ new \<and> list_all (written_ok (opts S)) new \<and>
    subseq (user_frames new) (map (\<lambda>c. c @ cr_lf) (asked L tr))"
  using assms
proof induction
  case begun
  then show ?case by simp
next
  case (step tr T ev T')
  from step.IH obtain old where old: "port_writes T = port_writes S @ old" "list_all (written_ok (opts S)) old"
    "subseq (user_frames old) (map (\<lambda>c. c @ cr_lf) (asked L tr))"
    by blast
  obtain new where new: "port_writes T' = port_writes T @ new" "list_all (written_ok (opts T)) new"
    "user_frames new = [] \<or> (\<exists>c. request_of L (T, ev) = Some c \<and> user_frames new = [c @ cr_lf])"
    by (rule gateway_step_wrote [OF step.hyps(2)])
  have "list_all (written_ok (opts S)) new"
    using new(2) written_ok_deployed [OF deployed_run [OF step.hyps(1)]] by (simp add: list_all_iff)
  moreover have "subseq (user_frames (old @ new)) (map (\<lambda>c. c @ cr_lf) (asked L (tr @ [(T, ev)])))"
    using new(3)
  proof (elim disjE exE conjE)
    assume "user_frames new = []"
    then show ?thesis using subseq_rev_drop_many [OF old(3)] by simp
  next
    fix c
    assume "request_of L (T, ev) = Some c" and "user_frames new = [c @ cr_lf]"
    then show ?thesis using list_emb_append_mono [OF old(3), of "[c @ cr_lf]" "[c @ cr_lf]"] by simp
  qed
  ultimately show ?case using old(1,2) new(1) by (intro exI [of _ "old @ new"]) simp
qed

text \<open>Tokens: a frame that was asked for has cost one.\<close>

definition clock_forward :: "(server \<times> gateway_event) list \<Rightarrow> server \<Rightarrow> bool" where
  "clock_forward tr S' = sorted (map (\<lambda>x. ap_last_fill (sv_app (fst x))) tr @ [ap_last_fill (sv_app S')])"

lemma clock_forward_snoc: "clock_forward (tr @ [(T, ev)]) T' \<Longrightarrow>
    clock_forward tr T \<and> ap_last_fill (sv_app T) \<le> ap_last_fill (sv_app T')"
  by (auto simp: clock_forward_def sorted_append)

lemma gateway_step_spends:
  assumes "gateway_step L wrap S ev S'" and "CommandRateLimit (Publish (opts S)) = limit" and "bucket_ok limit (sv_app S)"
    and "0 < limit" and "limit < 2 ^ 53" and "ap_last_fill (sv_app S) \<le> ap_last_fill (sv_app S')"
  shows "\<exists>n. spends limit (sv_app S) n (sv_app S') \<and>
    length (user_frames (port_writes S')) \<le> length (user_frames (port_writes S)) + n"
  using assms(1)
proof (cases rule: gateway_step_app)
  case same
  then show ?thesis using spends_nothing [OF _ assms(3,4)] by (intro exI [of _ 0]) simp
next
  case (stepped l)
  note sp = app_step_spends [OF stepped(1) assms(2-6)]
  from app_step_wrote [OF stepped(1)] obtain new where new: "port_writes S' = port_writes S @ new"
    and w: "set new \<subseteq> service_lines \<and> length new \<le> 1 \<or> (\<exists>c. commanded (opts S) (sv_app S) l = Some c \<and> new = [c @ cr_lf])"
    by blast
  have "length (user_frames new) \<le> of_bool (commanded (opts S) (sv_app S) l \<noteq> None)"
    using w
  proof (elim disjE exE conjE)
    fix c
    assume "commanded (opts S) (sv_app S) l = Some c" and "new = [c @ cr_lf]"
    then show ?thesis by (simp add: user_frames_def)
  qed simp
  then show ?thesis using sp new by (intro exI [of _ "of_bool (commanded (opts S) (sv_app S) l \<noteq> None)"]) simp
qed

lemma run_spends:
  assumes "gateway_run L wrap S tr S'" and "CommandRateLimit (Publish (opts S)) = limit" and "bucket_ok limit (sv_app S)"
    and "0 < limit" and "limit < 2 ^ 53" and "clock_forward tr S'"
  shows "bucket_ok limit (sv_app S') \<and> of_nat (length (user_frames (port_writes S'))) + ap_tokens (sv_app S') \<le>
    of_nat (length (user_frames (port_writes S))) + ap_tokens (sv_app S)
      + gain limit (ap_last_fill (sv_app S') - ap_last_fill (sv_app S)) + of_nat (2 * length tr) * slack limit"
  using assms(1,6)
proof induction
  case begun
  then show ?case using assms(3) by (simp add: gain_def)
next
  case (step tr T ev T')
  note cf = clock_forward_snoc [OF step.prems]
  note IH = step.IH [OF conjunct1 [OF cf]]
  have lim: "CommandRateLimit (Publish (opts T)) = limit"
    using deployed_commands(1) [OF deployed_run [OF step.hyps(1)]] assms(2) by simp
  obtain n where n: "spends limit (sv_app T) n (sv_app T')"
    "length (user_frames (port_writes T')) \<le> length (user_frames (port_writes T)) + n"
    using gateway_step_spends [OF step.hyps(2) lim conjunct1 [OF IH] assms(4,5) conjunct2 [OF cf]] by blast
  have "of_nat (length (user_frames (port_writes T'))) \<le> (of_nat (length (user_frames (port_writes T))) + of_nat n :: rat)"
    using of_nat_mono [OF n(2), where 'a = rat] by simp
  moreover have "gain limit (ap_last_fill (sv_app T') - ap_last_fill (sv_app T)) + gain limit (ap_last_fill (sv_app T) - ap_last_fill (sv_app S)) =
      gain limit (ap_last_fill (sv_app T') - ap_last_fill (sv_app S))"
    by (simp add: gain_add)
  ultimately show ?case using IH n(1) by (simp add: spends_def distrib_right)
qed

section \<open>The live feed in a run\<close>

text \<open>What the client of a channel has received, and what its channel holds.\<close>

definition received :: "nat \<Rightarrow> (server \<times> gateway_event) list \<Rightarrow> raw_entry list" where
  "received ch tr = concat (map (\<lambda>x. case snd x of
     Outside (FeedOp a) \<Rightarrow> delivered ch (snd (hub_apply a (sv_hub (fst x)))) | _ \<Rightarrow> []) tr)"

definition queued :: "nat \<Rightarrow> raw_hub \<Rightarrow> raw_entry list" where
  "queued ch h = (case hub_queue h ch of Some q \<Rightarrow> q | None \<Rightarrow> [])"

definition feed_inv :: "(nat \<Rightarrow> raw_entry list) \<Rightarrow> raw_hub \<Rightarrow> string list \<Rightarrow> bool" where
  "feed_inv got h ls \<longleftrightarrow> (\<forall>ch. subseq (map raw_Message (got ch @ queued ch h)) ls) \<and>
     (\<forall>ch \<ge> hub_next h. got ch = [] \<and> hub_queue h ch = None)"

lemma received_snoc [simp]:
  "received ch [] = []"
  "received ch (tr @ [(T, ev)]) = received ch tr @ (case ev of
     Outside (FeedOp a) \<Rightarrow> delivered ch (snd (hub_apply a (sv_hub T))) | _ \<Rightarrow> [])"
  by (simp_all add: received_def split: gateway_event.split server_event.split)

lemma feed_inv_broadcast:
  assumes "feed_inv got h ls"
  shows "feed_inv got (hub_broadcast e h) (ls @ [raw_Message e])"
proof -
  have "subseq (map raw_Message (got ch @ queued ch (hub_broadcast e h))) (ls @ [raw_Message e])" for ch
  proof -
    have old: "subseq (map raw_Message (got ch @ queued ch h)) ls" using assms by (simp add: feed_inv_def)
    show ?thesis
    proof (cases "\<exists>q. hub_queue h ch = Some q \<and> length q < hub_buffer")
      case True
      then have "queued ch (hub_broadcast e h) = queued ch h @ [e]" by (auto simp: queued_def)
      then show ?thesis using list_emb_append_mono [OF old, of "[raw_Message e]" "[raw_Message e]"] by simp
    next
      case False
      then have "queued ch (hub_broadcast e h) = queued ch h" by (auto simp: queued_def split: option.split)
      then show ?thesis using subseq_rev_drop_many [OF old] by simp
    qed
  qed
  then show ?thesis using assms by (auto simp: feed_inv_def)
qed

lemma feed_inv_broadcasts: "feed_inv got h ls \<Longrightarrow> feed_inv got (fold hub_broadcast es h) (ls @ map raw_Message es)"
proof (induction es arbitrary: h ls)
  case (Cons e es)
  then show ?case using Cons.IH [OF feed_inv_broadcast [OF Cons.prems]] by simp
qed simp

lemma feed_inv_subscribe: "feed_inv got h ls \<Longrightarrow> feed_inv got (fst (hub_subscribe h)) ls"
  by (auto simp: feed_inv_def queued_def split: option.splits)

lemma feed_inv_unsubscribe:
  assumes "feed_inv got h ls"
  shows "feed_inv got (hub_unsubscribe c h) ls"
proof -
  have "subseq (map raw_Message (got ch @ queued ch (hub_unsubscribe c h))) ls" for ch
  proof (cases "ch = c")
    case True
    have "subseq (map raw_Message (got ch) @ map raw_Message (queued ch h)) ls" using assms by (simp add: feed_inv_def)
    then have "subseq (map raw_Message (got ch)) ls"
      by (rule subseq_order.order_trans [OF subseq_rev_drop_many [OF subseq_order.order_refl]])
    then show ?thesis using True by (simp add: queued_def)
  next
    case False
    then show ?thesis using assms by (simp add: feed_inv_def queued_def)
  qed
  then show ?thesis using assms by (simp add: feed_inv_def)
qed

lemma feed_inv_receive:
  assumes "feed_inv got h ls"
  shows "feed_inv (\<lambda>ch. got ch @ delivered ch (snd (hub_apply (HubReceive c) h))) (fst (hub_receive c h)) ls"
proof -
  have "got ch @ delivered ch (snd (hub_apply (HubReceive c) h)) @ queued ch (fst (hub_receive c h)) = got ch @ queued ch h" for ch
    by (auto simp: queued_def split: option.split list.split)
  then show ?thesis using assms by (auto simp: feed_inv_def split: option.split list.split)
qed

text \<open>Steps of the gateway keep it: the hook is called for the lines that the publish loop takes.\<close>

lemma raw_hook_step:
  assumes "gateway_step L wrap S ev S'" and "raw_hook (ap_pub (sv_app S))"
  shows "raw_hook (ap_pub (sv_app S'))"
  using assms(1)
proof (cases rule: gateway_step_app)
  case (stepped l)
  then show ?thesis using app_step_raws [OF stepped(1)] assms(2) by (auto simp: raws_def)
qed (use assms(2) in simp)

lemma serve_hub: "sv_hub (fst (serve L d r S)) = sv_hub S \<or> sv_hub (fst (serve L d r S)) = fst (hub_subscribe (sv_hub S))"
proof (cases rule: serve_front [of L d r S])
  case (login S' rp)
  then show ?thesis
    using session_login_hub [of L d "client_ip (rl_net (hl_rt L)) (sv_trusted S) r" r S] by simp
qed simp

lemma feed_step:
  assumes "gateway_step L wrap S ev S'" and "raw_hook (ap_pub (sv_app S))"
    and "feed_inv (\<lambda>ch. received ch tr) (sv_hub S) (taken (labels tr))"
  shows "feed_inv (\<lambda>ch. received ch (tr @ [(S, ev)])) (sv_hub S') (taken (labels (tr @ [(S, ev)])))"
  using assms(1)
proof cases
  case (worker l a now)
  from app_step_raws [OF worker(3)] obtain es where
    es: "raws (ap_pub a) = (raw_hook (ap_pub (sv_app S)), raw_calls (ap_pub (sv_app S)) @ es)"
    "map raw_Message es = (case l of Taken s \<Rightarrow> [s] | _ \<Rightarrow> [])"
    using assms(2) by blast
  then have "sv_hub S' = fold hub_broadcast es (sv_hub S)" by (simp add: worker(2) deliver_outside raws_def)
  then show ?thesis
    using feed_inv_broadcasts [OF assms(3), of es] by (simp add: worker(1) es(2))
next
  case (outside e)
  show ?thesis
  proof (cases e)
    case (Request d r)
    then have "sv_hub S' = sv_hub S \<or> sv_hub S' = fst (hub_subscribe (sv_hub S))"
      using serve_hub [of L d r S] outside by auto
    then show ?thesis using assms(3) feed_inv_subscribe outside Request by auto
  next
    case (FeedOp a)
    then show ?thesis
      using assms(3) outside feed_inv_unsubscribe [OF assms(3)] feed_inv_receive [OF assms(3)]
      by (cases a) simp_all
  qed (use assms(3) outside in \<open>simp_all add: Let_def\<close>)
qed (use assms(3) in simp_all)

lemma feed_run:
  assumes "gateway_run L wrap S tr S'" and "raw_hook (ap_pub (sv_app S))" and "hub_subs (sv_hub S) = []"
  shows "raw_hook (ap_pub (sv_app S')) \<and> feed_inv (\<lambda>ch. received ch tr) (sv_hub S') (taken (labels tr))"
  using assms(1)
proof induction
  case begun
  then show ?case using assms(2,3) by (simp add: feed_inv_def queued_def hub_queue_def)
next
  case (step tr T ev T')
  then show ?case using raw_hook_step feed_step by blast
qed

end
