(* ===== verification/EndToEnd.thy ===== *)
theory EndToEnd
  imports GatewayRun
begin

text \<open>
  What holds in every run of the gateway that starts with \<open>Init\<close>: where the commands on the serial port come from, how
  many there can be, what the clients of the live feed see, and the invariant of the state.
\<close>

section \<open>From the start\<close>

lemma gateway_run_first: "gateway_run L wrap S tr S' \<Longrightarrow> (case tr of [] \<Rightarrow> S' = S | x # _ \<Rightarrow> fst x = S)"
proof (induction rule: gateway_run.induct)
  case (step tr T ev T')
  then show ?case by (cases tr) simp_all
qed simp

lemma started:
  assumes "init L M clean parse_cidr now dk parsed = Inr g" and "gw_http g = Some S"
  obtains p where "sv_app S = with_pub (set_raw_line_hook True) (init_app (hl_driver L) (opts S) now p)"
    and "deployed (opts S) = deployed (rm_opts (gw_runtime g))" and "hub_subs (sv_hub S) = []"
proof -
  obtain m p hooks where S: "start_http_server L parse_cidr (init_app (hl_driver L) (rm_opts m) now p) m new_session_store hooks = Some S"
    and g: "gw_runtime g = m"
    using assms by (auto simp: init_def Let_def split: sum.splits if_splits option.splits)
  then show thesis
    by (intro that [of p]) (auto simp: start_http_server_def Let_def new_raw_hub_def split: if_splits)
qed

lemma started_app_facts:
  assumes "init L M clean parse_cidr now dk parsed = Inr g" and "gw_http g = Some S"
  shows "port_writes S = []" and "view_ok (view (sv_app S))" and "ap_ch (sv_app S) = []" and "raw_hook (ap_pub (sv_app S))"
    and "ap_tokens (sv_app S) = f64 (of_int (CommandRateLimit (Publish (opts S))))"
proof -
  obtain p where p: "sv_app S = with_pub (set_raw_line_hook True) (init_app (hl_driver L) (opts S) now p)"
    by (rule started [OF assms])
  have "link (set_raw_line_hook True q) = link q" for q by (simp add: link_def set_raw_line_hook_def)
  then have "view (sv_app S) = view (init_app (hl_driver L) (opts S) now p)" by (simp add: p view_def)
  then show "view_ok (view (sv_app S))" using init_view_ok(1) by simp
  show "port_writes S = []" "ap_ch (sv_app S) = []" by (simp_all add: p init_view_ok)
  show "raw_hook (ap_pub (sv_app S))" by (simp add: p set_raw_line_hook_def)
  show "ap_tokens (sv_app S) = f64 (of_int (CommandRateLimit (Publish (opts S))))" by (simp add: p) (simp add: init_app_def)
qed

lemma run_inv:
  assumes "gateway_run L wrap S tr S'" and "server_inv S" and "view_ok (view (sv_app S))" and "ap_ch (sv_app S) = []"
    and "list_all (\<lambda>x. draws_ok (snd x)) tr"
  shows "server_inv S' \<and> view_ok (view (sv_app S')) \<and> lines_inv (sv_app S) (labels tr) (sv_app S')"
  using assms(1,5)
proof induction
  case begun
  then show ?case using assms(2-4) by (simp add: lines_inv_def)
next
  case (step tr T ev T')
  then show ?case
    using server_inv_step [OF step.hyps(2)] lines_inv_gateway [OF step.hyps(2), of "sv_app S" "labels tr"] by simp
qed

text \<open>C2: In every run of the gateway from \<open>Init\<close> on, whatever arrives over MQTT, HTTP and from polled servers and
  however the events interleave, each payload written to the serial port is one frame and one CR LF, and the frames
  other than those the program sends itself are, in this order, among the commands that were asked for: by a
  message on the command topic, by a POST to \<open>/api/v1/command\<close> with a session and its CSRF token or an API token of
  sufficient scope on a server that is not read-only, or by the accepted answer to a poll of an active webhook.
  Each request writes at most one of them, and only within the whitelist and length set at deployment.\<close>
theorem writes_were_asked_for:
  assumes "init L M clean parse_cidr now dk parsed = Inr g" and "gw_http g = Some S" and "gateway_run L wrap S tr S'"
  shows "subseq (user_frames (port_writes S')) (map (\<lambda>c. c @ cr_lf) (asked L tr)) \<and>
    (\<forall>s \<in> set (port_writes S'). \<exists>c. s = c @ cr_lf \<and> rflink_frame c \<and> new_line \<notin> set c \<and> carriage_return \<notin> set c \<and>
      (c \<in> {version_command, ping_command} \<or>
       command_allowed (rm_opts (gw_runtime g)) c \<and> int (length c) \<le> max_command_len (rm_opts (gw_runtime g))))"
proof -
  obtain new where new: "port_writes S' = new" "list_all (written_ok (opts S)) new"
    "subseq (user_frames new) (map (\<lambda>c. c @ cr_lf) (asked L tr))"
    using run_wrote [OF assms(3)] started_app_facts(1) [OF assms(1,2)] by auto
  have "sv_runtime S = gw_runtime g" by (rule init_http(3) [OF assms(1,2)])
  then have "\<forall>s \<in> set new. \<exists>c. s = c @ cr_lf \<and> rflink_frame c \<and>
      (c \<in> {version_command, ping_command} \<or>
       command_allowed (rm_opts (gw_runtime g)) c \<and> int (length c) \<le> max_command_len (rm_opts (gw_runtime g)))"
    using new(2) by (simp add: list_all_iff written_ok_def)
  moreover have "new_line \<notin> set c \<and> carriage_return \<notin> set c" if "rflink_frame c" for c
    using frame_bytes [OF that] by (fastforce simp: list_all_iff field_byte_def new_line_def carriage_return_def)
  ultimately show ?thesis using new(1,3) by blast
qed

text \<open>C9: In every run of the gateway, as long as the clock of the bucket does not go back, the commands written to the serial
  port obey the rate limit, whichever way they came: from the start on, fewer than limit times (T + 1) plus one
  within T nanoseconds (scaled to seconds). Sizes are bounded so that \<open>float64\<close> rounding cannot add up to a token.\<close>
theorem gateway_rate_bounded:
  assumes "init L M clean parse_cidr now dk parsed = Inr g" and "gw_http g = Some S" and "gateway_run L wrap S tr S'"
    and "clock_forward tr S'" and "limit = CommandRateLimit (Publish (rm_opts (gw_runtime g)))" and "0 < limit"
    and "elapsed = ap_last_fill (sv_app S') - ap_last_fill (sv_app S)" and "limit < 2 ^ 53"
    and "int (2 * length tr) * limit \<le> 2 ^ 50" and "limit * elapsed \<le> 2 ^ 50 * nanos_per_second"
  shows "int (length (user_frames (port_writes S'))) * nanos_per_second < (limit + 1) * nanos_per_second + limit * elapsed"
proof -
  note facts = started_app_facts [OF assms(1,2)]
  have rt: "sv_runtime S = gw_runtime g" by (rule init_http(3) [OF assms(1,2)])
  have lim: "CommandRateLimit (Publish (opts S)) = limit" by (simp add: rt assms(5))
  have tok: "ap_tokens (sv_app S) = of_int limit" using facts(5) f64_limit [of limit] assms(6,8) by (simp add: lim)
  then have "bucket_ok limit (sv_app S)" using assms(6) by (simp add: bucket_ok_def)
  from run_spends [OF assms(3) lim this assms(6,8,4)]
  have "of_nat (length (user_frames (port_writes S'))) \<le>
      of_int limit + gain limit elapsed + of_nat (2 * length tr) * slack limit"
    by (simp add: bucket_ok_def facts(1) tok assms(7))
  moreover have "0 \<le> elapsed"
    using assms(4) gateway_run_first [OF assms(3)]
    by (cases tr) (auto simp: clock_forward_def sorted_append assms(7))
  ultimately show ?thesis using below_exact_rate assms(6,9,10) by blast
qed

text \<open>C7: In every run of the gateway, what any client of the live feed has received, followed by what its channel still
  holds, is in this order among the lines that the publish loop has taken, and those are in this order among the
  lines read from the serial port: nothing is invented, repeated or reordered on the way from the port to a client.\<close>
theorem feed_shows_serial_lines:
  assumes "init L M clean parse_cidr now dk parsed = Inr g" and "gw_http g = Some S" and "gateway_run L wrap S tr S'"
    and "list_all (\<lambda>x. draws_ok (snd x)) tr"
  shows "subseq (map raw_Message (received ch tr @ queued ch (sv_hub S'))) (taken (labels tr)) \<and>
    subseq (taken (labels tr) @ ap_ch (sv_app S')) (offered (labels tr)) \<and> length (ap_ch (sv_app S')) \<le> serial_channel_buffer"
proof -
  note facts = started_app_facts [OF assms(1,2)]
  obtain hub: "hub_subs (sv_hub S) = []" by (rule started [OF assms(1,2)])
  note inv = run_inv [OF assms(3) init_http(1) [OF assms(1,2)] facts(2,3) assms(4)]
  have "subseq (map raw_Message (received ch tr @ queued ch (sv_hub S'))) (taken (labels tr))"
    using feed_run [OF assms(3) facts(4) hub] by (simp add: feed_inv_def)
  moreover have "length (ap_ch (sv_app S')) \<le> serial_channel_buffer"
    using inv by (auto simp: view_def link_def)
  ultimately show ?thesis using inv by (simp add: lines_inv_def)
qed


section \<open>A sample run\<close>

text \<open>The session opens the port and asks for the version; then a command arrives over MQTT.\<close>

abbreviation sample_run_step :: "server \<Rightarrow> gateway_event \<Rightarrow> server \<Rightarrow> bool" where
  "sample_run_step \<equiv> gateway_step sample_http (\<lambda>_ _ _. [])"

definition online_server :: "server \<Rightarrow> server" where
  "online_server S = deliver sample_http (\<lambda>_ _ _. []) 1
     (session_start sample_env sample_driver (opts S) 1 False (sv_app S)) S"

definition switch_on :: string where "switch_on = ''10;Kaku;00004d;1;ON;''"

definition sample_message :: "server \<Rightarrow> gateway_event" where
  "sample_message S = MqttMessage 2 (CmdTopic (Publish (opts S))) switch_on"

definition commanded_server :: "server \<Rightarrow> server" where
  "commanded_server S = (online_server S)\<lparr>sv_app :=
     mqtt_message sample_http 2 (CmdTopic (Publish (opts (online_server S)))) switch_on (online_server S)\<rparr>"

definition sample_trace :: "server \<Rightarrow> (server \<times> gateway_event) list" where
  "sample_trace S = [(S, Worker 1 Quiet), (online_server S, sample_message (online_server S))]"

lemma sample_started:
  obtains g S where "sample_init = Inr g" "gw_http g = Some S" "sv_runtime S = gw_runtime g" "ap_phase (sv_app S) = Starting"
    "CommandRateLimit (Publish (opts S)) = 5" "commandWhitelist (opts S) = []" "CommandMaxLen (Publish (opts S)) = 256"
proof -
  obtain g S where g: "sample_init = Inr g" "gw_http g = Some S" using sample_start by blast
  have rt: "sv_runtime S = gw_runtime g" by (rule init_http(3) [OF g])
  have "case get_options ascii_tables (Inr listening_options) of Inl _ \<Rightarrow> False
    | Inr o' \<Rightarrow> CommandRateLimit (Publish o') = 5 \<and> commandWhitelist o' = [] \<and> CommandMaxLen (Publish o') = 256"
    by code_simp
  then obtain o' where o: "get_options ascii_tables (Inr listening_options) = Inr o'"
    "CommandRateLimit (Publish o') = 5" "commandWhitelist o' = []" "CommandMaxLen (Publish o') = 256"
    by (auto split: sum.splits)
  have "hl_tab sample_http = ascii_tables" by (simp add: sample_http_def sample_lib_def)
  then have d: "deployed (opts S) = deployed o'"
    unfolding rt using o(1) by (intro deployment.init_keeps [OF g(1)]) simp
  obtain p where "sv_app S = with_pub (set_raw_line_hook True) (init_app (hl_driver sample_http) (opts S) 0 p)"
    by (rule started [OF g])
  then have "ap_phase (sv_app S) = Starting" by (simp add: init_app_def)
  moreover have "commandWhitelist (opts S) = []" "CommandMaxLen (Publish (opts S)) = 256"
    using arg_cong [OF d, of commandWhitelist] arg_cong [OF d, of "\<lambda>x. CommandMaxLen (Publish x)"] o(3,4)
    by (simp_all add: deployed_def)
  ultimately show thesis using that [OF g rt] deployed_commands(1) [OF d] o(2) by simp
qed

lemma switch_on_normal:
  assumes "CommandMaxLen (Publish o') = 256"
  shows "normalize_command o' switch_on = Inr switch_on"
proof -
  have "trim_space (trim_right (trim_space switch_on) cr_lf) = switch_on" by code_simp
  moreover have "with_semicolon switch_on = switch_on" "length switch_on = 20" "switch_on \<noteq> []"
    "validate_rflink_command switch_on = Inr ()" by code_simp+
  ultimately show ?thesis by (simp add: normalize_command_def assms)
qed

lemma sample_gateway_run:
  assumes "sv_runtime S = gw_runtime g" and "ap_phase (sv_app S) = Starting" and "commandWhitelist (opts S) = []"
    and "CommandMaxLen (Publish (opts S)) = 256" and "0 < CommandRateLimit (Publish (opts S))"
  shows "gateway_run sample_http (\<lambda>_ _ _. []) S (sample_trace S) (commanded_server S)"
    and "list_all (\<lambda>x. draws_ok (snd x)) (sample_trace S)" and "asked sample_http (sample_trace S) = [switch_on]"
    and "ap_last_fill (sv_app S) \<le> 2 \<Longrightarrow> clock_forward (sample_trace S) (commanded_server S)"
    and "labels (sample_trace S) = [Quiet]"
    and "ap_last_fill (sv_app S) \<le> 2 \<Longrightarrow> ap_last_fill (sv_app (commanded_server S)) \<le> 2"
proof -
  let ?T = "online_server S"
  have lib: "hl_env sample_http = sample_env" "hl_driver sample_http = sample_driver" by (simp_all add: sample_http_def)
  have one: "sample_run_step S (Worker 1 Quiet) ?T"
    unfolding online_server_def lib [symmetric] by (rule gateway_step.worker [OF app_step.start [OF assms(2)]]) simp
  have two: "sample_run_step ?T (sample_message ?T) (commanded_server S)"
    unfolding commanded_server_def sample_message_def by (rule gateway_step.message)
  show run: "gateway_run sample_http (\<lambda>_ _ _. []) S (sample_trace S) (commanded_server S)"
    using gateway_run.step [OF gateway_run.step [OF gateway_run.begun one] two] by (simp add: sample_trace_def)
  have o: "opts ?T = opts S" by (simp add: online_server_def deliver_outside)
  show "list_all (\<lambda>x. draws_ok (snd x)) (sample_trace S)" by (simp add: sample_trace_def sample_message_def)
  have req: "request_of sample_http (?T, sample_message ?T) = Some switch_on" "request_of sample_http (S, Worker 1 Quiet) = None"
    using switch_on_normal [OF assms(4)] assms(3)
    by (simp_all add: request_of_def request_payload_def sample_message_def o command_allowed_def)
  then show "asked sample_http (sample_trace S) = [switch_on]"
    by (simp add: asked_def sample_trace_def List.map_filter_def)
  show "labels (sample_trace S) = [Quiet]"
    by (simp add: labels_def sample_trace_def sample_message_def List.map_filter_def)
  have app: "sv_app ?T = session_start sample_env sample_driver (opts S) 1 False (sv_app S)"
    by (simp add: online_server_def)
  have f: "ap_last_fill (sv_app ?T) = ap_last_fill (sv_app S)"
    using bucket_start [of sample_env sample_driver "opts S" 1 False "sv_app S"] by (simp add: app bucket_def)
  have last: "ap_last_fill (sv_app (commanded_server S)) \<in> {ap_last_fill (sv_app ?T), 2}"
  proof -
    have pos: "0 < CommandRateLimit (Publish (opts ?T))" using assms(5) by (simp add: o)
    have "ap_last_fill (handle_command E D Q (opts ?T) 2 c a) \<in> {ap_last_fill a, 2}" for E D Q c a
      using execute_bucket [of E D Q "opts ?T" 2 c a] refilled [OF pos, of 2]
      by (auto simp: handle_command_def bucket_def)
    then show ?thesis
      by (auto simp: commanded_server_def mqtt_message_def split: prod.split option.split)
        (metis with_pub_simps(7))
  qed
  then show "ap_last_fill (sv_app S) \<le> 2 \<Longrightarrow> ap_last_fill (sv_app (commanded_server S)) \<le> 2" by (auto simp: f)
  from last show "ap_last_fill (sv_app S) \<le> 2 \<Longrightarrow> clock_forward (sample_trace S) (commanded_server S)"
    by (auto simp: clock_forward_def sample_trace_def f)
qed

lemma sample_scene:
  obtains g S where "sample_init = Inr g" "gw_http g = Some S"
    "gateway_run sample_http (\<lambda>_ _ _. []) S (sample_trace S) (commanded_server S)"
    "list_all (\<lambda>x. draws_ok (snd x)) (sample_trace S)" "asked sample_http (sample_trace S) = [switch_on]"
    "clock_forward (sample_trace S) (commanded_server S)" "CommandRateLimit (Publish (rm_opts (gw_runtime g))) = 5"
    "ap_last_fill (sv_app S) = 0" "ap_last_fill (sv_app (commanded_server S)) \<le> 2"
proof -
  obtain g S where S: "sample_init = Inr g" "gw_http g = Some S" "sv_runtime S = gw_runtime g" "ap_phase (sv_app S) = Starting"
    "CommandRateLimit (Publish (opts S)) = 5" "commandWhitelist (opts S) = []" "CommandMaxLen (Publish (opts S)) = 256"
    by (rule sample_started)
  have p: "0 < CommandRateLimit (Publish (opts S))" by (subst S(5)) simp
  note r = sample_gateway_run [OF S(3,4,6,7) p]
  obtain q where "sv_app S = with_pub (set_raw_line_hook True) (init_app (hl_driver sample_http) (opts S) 0 q)"
    by (rule started [OF S(1,2)])
  then have z: "ap_last_fill (sv_app S) = 0" by (simp add: init_app_def)
  show thesis using that [OF S(1,2) r(1-3)] r(4,6) S(3,5) z by simp
qed

lemma writes_were_asked_for_witness:
  "\<exists>S. gateway_run sample_http (\<lambda>_ _ _. []) S (sample_trace S) (commanded_server S) \<and>
    subseq (user_frames (port_writes (commanded_server S))) [switch_on @ cr_lf]"
proof -
  obtain g S where S: "sample_init = Inr g" "gw_http g = Some S"
    "gateway_run sample_http (\<lambda>_ _ _. []) S (sample_trace S) (commanded_server S)"
    "asked sample_http (sample_trace S) = [switch_on]"
    by (rule sample_scene)
  from writes_were_asked_for [OF S(1-3)] S(3,4) show ?thesis by auto
qed

lemma gateway_rate_bounded_witness:
  "\<exists>S. gateway_run sample_http (\<lambda>_ _ _. []) S (sample_trace S) (commanded_server S) \<and>
    int (length (user_frames (port_writes (commanded_server S)))) * nanos_per_second < 6 * nanos_per_second + 10"
proof -
  obtain g S where S: "sample_init = Inr g" "gw_http g = Some S"
    "gateway_run sample_http (\<lambda>_ _ _. []) S (sample_trace S) (commanded_server S)"
    "clock_forward (sample_trace S) (commanded_server S)" "CommandRateLimit (Publish (rm_opts (gw_runtime g))) = 5"
    and z: "ap_last_fill (sv_app S) = 0" "ap_last_fill (sv_app (commanded_server S)) \<le> 2"
    by (rule sample_scene)
  have "int (length (user_frames (port_writes (commanded_server S)))) * nanos_per_second <
      (5 + 1) * nanos_per_second + 5 * (ap_last_fill (sv_app (commanded_server S)) - ap_last_fill (sv_app S))"
    by (rule gateway_rate_bounded [OF S(1-4) S(5) [symmetric] _ refl]) (use z in \<open>simp_all add: sample_trace_def\<close>)
  then show ?thesis using S(3) z by (intro exI [of _ S]) simp
qed


text \<open>A second run, in which a line is read and taken.\<close>

lemma line_steps:
  assumes "ap_phase a = Starting" and "port_open (ap_serial a)" and "ap_ch a = []"
  obtains a1 a2 a3 a4 where "app_step E D Q o' a Quiet a1" "app_step E D Q o' a1 Quiet a2"
    "app_step E D Q o' a2 (Offered ''20;00;PONG;'') a3" "app_step E D Q o' a3 (Taken ''20;00;PONG;'') a4"
proof -
  let ?ev = "\<lparr>re_data = ''20;00;PONG;'' @ [carriage_return, new_line], re_err = None\<rparr>"
  let ?sc = "scan_read ?ev new_scanner" and ?sc' = "\<lparr>sc_buf = [], sc_err = None, sc_loop = 0\<rparr>"
  define a1 where "a1 = session_start E D o' 1 False a"
  define a2 where "a2 = session_read ?ev new_scanner (session_round E D o' 2 False False False new_scanner a1)"
  have v: "ap_phase a1 = Reading new_scanner" "ap_ch a1 = []"
    using view_session_start [of E D o' 1 False a] assms by (simp_all add: view_def a1_def)
  have r: "read_next False new_scanner = (new_scanner, ReadMore)" by code_simp
  have s2: "app_step E D Q o' a1 Quiet a2" unfolding a2_def by (rule app_step.read [OF v(1) r])
  have v2: "ap_phase a2 = Reading ?sc" "ap_ch a2 = []"
    using v by (simp_all add: a2_def session_read_def session_round_read [OF r])
  have n: "read_next False ?sc = (?sc', HandleLine ''20;00;PONG;'')" by code_simp
  obtain a3 where h: "handle_line 3 False False ''20;00;PONG;'' (a2\<lparr>ap_phase := Reading ?sc'\<rparr>) = (a3, None)"
    and c: "ap_ch a3 = [''20;00;PONG;'']"
    by (auto simp: handle_line_def Let_def v2(2) serial_channel_buffer_def)
  have s3: "app_step E D Q o' a2 (Offered ''20;00;PONG;'') a3"
    using app_step.line [OF v2(1) n h] unfolding session_round_line [OF n h] .
  show thesis
    using that [OF _ s2 s3 app_step.receive [OF c]] app_step.start [OF assms(1)] unfolding a1_def .
qed

lemma worker_run:
  assumes "gateway_run L wrap S tr T" and "app_step (hl_env L) (hl_driver L) (hl_quoting L) (opts T) (sv_app T) l a" and "worker_label l"
  shows "gateway_run L wrap S (tr @ [(T, Worker now l)]) (deliver L wrap now a T)"
    and "opts (deliver L wrap now a T) = opts T"
  using gateway_run.step [OF assms(1) gateway_step.worker [OF assms(2,3)]] by (simp_all add: deliver_outside)

lemma feed_shows_serial_lines_witness:
  "\<exists>S tr S'. gateway_run sample_http (\<lambda>_ _ _. []) S tr S' \<and> taken (labels tr) = [''20;00;PONG;''] \<and>
    offered (labels tr) = [''20;00;PONG;''] \<and> ap_ch (sv_app S') = [] \<and>
    subseq (map raw_Message (received 0 tr @ queued 0 (sv_hub S'))) [''20;00;PONG;'']"
proof -
  obtain g S where g: "sample_init = Inr g" "gw_http g = Some S" using sample_start by blast
  obtain p where "sv_app S = with_pub (set_raw_line_hook True) (init_app (hl_driver sample_http) (opts S) 0 p)"
    by (rule started [OF g])
  then have "ap_phase (sv_app S) = Starting" "port_open (ap_serial (sv_app S))"
    by (simp_all add: init_app_def new_serial_reader_def connect_port_def port_do_def Let_def disconnect_def
        sample_http_def sample_driver_def)
  then obtain a1 a2 a3 a4 where a:
    "app_step (hl_env sample_http) (hl_driver sample_http) (hl_quoting sample_http) (opts S) (sv_app S) Quiet a1"
    "app_step (hl_env sample_http) (hl_driver sample_http) (hl_quoting sample_http) (opts S) a1 Quiet a2"
    "app_step (hl_env sample_http) (hl_driver sample_http) (hl_quoting sample_http) (opts S) a2 (Offered ''20;00;PONG;'') a3"
    "app_step (hl_env sample_http) (hl_driver sample_http) (hl_quoting sample_http) (opts S) a3 (Taken ''20;00;PONG;'') a4"
    using started_app_facts(3) [OF g] by (rule line_steps)
  define S1 where "S1 = deliver sample_http (\<lambda>_ _ _. []) 1 a1 S"
  define S2 where "S2 = deliver sample_http (\<lambda>_ _ _. []) 2 a2 S1"
  define S3 where "S3 = deliver sample_http (\<lambda>_ _ _. []) 3 a3 S2"
  define S4 where "S4 = deliver sample_http (\<lambda>_ _ _. []) 4 a4 S3"
  note defs = S1_def S2_def S3_def S4_def
  have o: "opts S1 = opts S" "opts S2 = opts S" "opts S3 = opts S" "sv_app S1 = a1" "sv_app S2 = a2" "sv_app S3 = a3"
    by (simp_all add: defs deliver_outside)
  have r1: "gateway_run sample_http (\<lambda>_ _ _. []) S [(S, Worker 1 Quiet)] S1"
    using worker_run(1) [OF gateway_run.begun a(1)] by (simp add: S1_def)
  have r2: "gateway_run sample_http (\<lambda>_ _ _. []) S [(S, Worker 1 Quiet), (S1, Worker 2 Quiet)] S2"
    using worker_run(1) [OF r1, of Quiet a2 2] a(2) by (simp add: o S2_def)
  have r3: "gateway_run sample_http (\<lambda>_ _ _. []) S
      [(S, Worker 1 Quiet), (S1, Worker 2 Quiet), (S2, Worker 3 (Offered ''20;00;PONG;''))] S3"
    using worker_run(1) [OF r2, of "Offered ''20;00;PONG;''" a3 3] a(3) by (simp add: o S3_def)
  let ?tr = "[(S, Worker 1 Quiet), (S1, Worker 2 Quiet), (S2, Worker 3 (Offered ''20;00;PONG;'')),
      (S3, Worker 4 (Taken ''20;00;PONG;''))]"
  have r4: "gateway_run sample_http (\<lambda>_ _ _. []) S ?tr S4"
    using worker_run(1) [OF r3, of "Taken ''20;00;PONG;''" a4 4] a(4) by (simp add: o S4_def)
  have "taken (labels ?tr) = [''20;00;PONG;'']" "offered (labels ?tr) = [''20;00;PONG;'']"
    by (simp_all add: labels_def taken_def offered_def List.map_filter_def)
  moreover have "list_all (\<lambda>x. draws_ok (snd x)) ?tr" by simp
  ultimately show ?thesis using feed_shows_serial_lines [OF g r4, of 0] r4
    by (intro exI [of _ S] exI [of _ ?tr] exI [of _ S4]) (auto dest: list_emb_length)
qed

end
