(* ===== verification/HttpWriter.thy ===== *)
theory HttpWriter
  imports Gateway
begin

text \<open>
  How an answer reaches the client: the writers that the middleware of \<open>rflink/http_server.go\<close> puts around the
  connection, \<open>hijackTracker\<close> for the recovery from panics and \<open>statusRecorder\<close> for the access log. A handler
  is what it does to its writer, and whether it panics at the end. The connection of \<open>net/http\<close> is the list of
  the calls that reach it.
\<close>

section \<open>The connection\<close>

datatype wcall = WHeader nat | WBody string | WHijack | WFlush

text \<open>
  What \<open>net/http\<close> sends: the first final status counts, a body or a flush without one implies 200, and some
  statuses have no body. After \<open>Hijack\<close> the connection belongs to the handler.
\<close>

definition final_status :: "nat \<Rightarrow> bool" where
  "final_status code = (\<not> (100 \<le> code \<and> code < 200 \<and> code \<noteq> 101))"

fun sent_status :: "wcall list \<Rightarrow> nat option" where
  "sent_status [] = None"
| "sent_status (WHeader code # cs) = (if final_status code then Some code else sent_status cs)"
| "sent_status (WBody b # cs) = Some 200"
| "sent_status (WFlush # cs) = Some 200"
| "sent_status (WHijack # cs) = None"

definition body_allowed :: "nat \<Rightarrow> bool" where
  "body_allowed code = (\<not> (100 \<le> code \<and> code < 200) \<and> code \<noteq> 204 \<and> code \<noteq> 304)"

definition sent_body :: "wcall list \<Rightarrow> string" where
  "sent_body cs =
     (case sent_status cs of
        Some code \<Rightarrow> if body_allowed code then concat (map (\<lambda>c. case c of WBody b \<Rightarrow> b | _ \<Rightarrow> []) cs) else []
      | None \<Rightarrow> [])"

section \<open>The writers\<close>

text \<open>The connection of an HTTP/1 server can be hijacked.\<close>

record tracker =
  tr_calls :: "wcall list"
  tr_hijacked :: bool

definition new_tracker :: tracker where
  "new_tracker = \<lparr>tr_calls = [], tr_hijacked = False\<rparr>"

definition tracker_pass :: "wcall \<Rightarrow> tracker \<Rightarrow> tracker" where
  "tracker_pass c t = t\<lparr>tr_calls := tr_calls t @ [c]\<rparr>"

definition tracker_hijack :: "tracker \<Rightarrow> tracker" where
  "tracker_hijack t = tracker_pass WHijack (t\<lparr>tr_hijacked := True\<rparr>)"

definition tracker_flush :: "tracker \<Rightarrow> tracker" where
  "tracker_flush t = tracker_pass WFlush t"

record recorder =
  rc_tracker :: tracker
  rc_status :: nat
  rc_hijacked :: bool

definition new_recorder :: "tracker \<Rightarrow> recorder" where
  "new_recorder t = \<lparr>rc_tracker = t, rc_status = 200, rc_hijacked = False\<rparr>"

definition recorder_write_header :: "nat \<Rightarrow> recorder \<Rightarrow> recorder" where
  "recorder_write_header code s =
     (if rc_hijacked s then s
      else s\<lparr>rc_status := code, rc_tracker := tracker_pass (WHeader code) (rc_tracker s)\<rparr>)"

definition recorder_write :: "string \<Rightarrow> recorder \<Rightarrow> recorder" where
  "recorder_write b s = (if rc_hijacked s then s else s\<lparr>rc_tracker := tracker_pass (WBody b) (rc_tracker s)\<rparr>)"

definition recorder_hijack :: "recorder \<Rightarrow> recorder" where
  "recorder_hijack s = s\<lparr>rc_hijacked := True, rc_status := 101, rc_tracker := tracker_hijack (rc_tracker s)\<rparr>"

definition recorder_flush :: "recorder \<Rightarrow> recorder" where
  "recorder_flush s = (if rc_hijacked s then s else s\<lparr>rc_tracker := tracker_flush (rc_tracker s)\<rparr>)"

fun recorder_call :: "wcall \<Rightarrow> recorder \<Rightarrow> recorder" where
  "recorder_call (WHeader code) s = recorder_write_header code s"
| "recorder_call (WBody b) s = recorder_write b s"
| "recorder_call WHijack s = recorder_hijack s"
| "recorder_call WFlush s = recorder_flush s"

section \<open>The context of a request\<close>

datatype ctx_key = CtxRequestID | CtxClientIP

type_synonym context_values = "ctx_key \<rightharpoonup> string"

definition request_id_from :: "context_values \<Rightarrow> string" where
  "request_id_from c = (case c CtxRequestID of Some v \<Rightarrow> v | None \<Rightarrow> [])"

definition client_ip_from :: "context_values \<Rightarrow> string" where
  "client_ip_from c = (case c CtxClientIP of Some v \<Rightarrow> v | None \<Rightarrow> [])"

section \<open>Access log and recovery\<close>

record access_entry =
  ae_level :: log_level
  ae_request_id :: string
  ae_method :: string
  ae_path :: string
  ae_status :: nat
  ae_ip :: string

definition access_level :: "bool \<Rightarrow> nat \<Rightarrow> string \<Rightarrow> string \<Rightarrow> log_level" where
  "access_level hijacked status meth path =
     (if hijacked \<or> path = ''/api/v1/rflink/raw/ws'' then LevelDebug
      else if 500 \<le> status then LevelError
      else if 400 \<le> status then LevelInfo
      else if is_important_http_request meth path then LevelInfo
      else LevelDebug)"

definition access_log :: "context_values \<Rightarrow> string \<Rightarrow> string \<Rightarrow> recorder \<Rightarrow> access_entry" where
  "access_log c meth path s =
     \<lparr>ae_level = access_level (rc_hijacked s) (rc_status s) meth path, ae_request_id = request_id_from c,
      ae_method = meth, ae_path = path, ae_status = rc_status s, ae_ip = client_ip_from c\<rparr>"

definition real_ip :: "net_lib \<Rightarrow> ip_net list \<Rightarrow> request \<Rightarrow> context_values \<Rightarrow> context_values" where
  "real_ip N trusted r c = c(CtxClientIP \<mapsto> client_ip N trusted r)"

text \<open>
  The recovery: nothing on a hijacked connection, else an error with the request identifier of its own request,
  which is the one that \<open>net/http\<close> made. \<open>enc\<close> is the JSON encoder of \<open>writeJSON\<close>.
\<close>

definition recovered :: "(json \<Rightarrow> string) \<Rightarrow> context_values \<Rightarrow> tracker \<Rightarrow> tracker" where
  "recovered enc c t =
     (if tr_hijacked t then t
      else tracker_pass (WBody (enc (NObj [(''error'', NText ''internal_server_error''),
               (''request_id'', NText (request_id_from c))])))
             (tracker_pass (WHeader 500) t))"

text \<open>
  The chain around a handler that makes the calls \<open>cs\<close> and then returns or panics: recovery, request identifier
  \<open>rid\<close>, client address, access log. The result is what reaches the connection, and the entry of the access log.
\<close>

definition through_chain ::
  "(json \<Rightarrow> string) \<Rightarrow> net_lib \<Rightarrow> ip_net list \<Rightarrow> string \<Rightarrow> request \<Rightarrow> wcall list \<Rightarrow> bool \<Rightarrow> wcall list \<times> access_entry option" where
  "through_chain enc N trusted rid r cs panicked =
     (let outer = (Map.empty :: context_values);
          inner = real_ip N trusted r (outer(CtxRequestID \<mapsto> rid));
          s = fold recorder_call cs (new_recorder new_tracker)
      in if panicked then (tr_calls (recovered enc outer (rc_tracker s)), None)
         else (tr_calls (rc_tracker s), Some (access_log inner (hr_Method r) (hr_Path r) s)))"

section \<open>What reaches the connection\<close>

text \<open>Calls after a hijack are dropped, other hijacks aside.\<close>

fun until_hijack :: "wcall list \<Rightarrow> wcall list" where
  "until_hijack [] = []"
| "until_hijack (WHijack # cs) = WHijack # filter (\<lambda>c. c = WHijack) cs"
| "until_hijack (c # cs) = c # until_hijack cs"

lemma recorder_hijacked:
  "rc_hijacked s \<Longrightarrow> tr_calls (rc_tracker (fold recorder_call cs s)) = tr_calls (rc_tracker s) @ filter (\<lambda>c. c = WHijack) cs \<and>
    rc_hijacked (fold recorder_call cs s) \<and> (tr_hijacked (rc_tracker s) \<longrightarrow> tr_hijacked (rc_tracker (fold recorder_call cs s)))"
proof (induction cs arbitrary: s)
  case (Cons c cs)
  then show ?case
    by (cases c) (simp_all add: recorder_write_header_def recorder_write_def recorder_flush_def recorder_hijack_def
        tracker_hijack_def tracker_pass_def)
qed simp

lemma recorder_calls:
  "\<not> rc_hijacked s \<Longrightarrow> \<not> tr_hijacked (rc_tracker s) \<Longrightarrow>
    tr_calls (rc_tracker (fold recorder_call cs s)) = tr_calls (rc_tracker s) @ until_hijack cs \<and>
    (tr_hijacked (rc_tracker (fold recorder_call cs s)) \<longleftrightarrow> WHijack \<in> set cs) \<and>
    (rc_hijacked (fold recorder_call cs s) \<longleftrightarrow> WHijack \<in> set cs)"
proof (induction cs arbitrary: s)
  case (Cons c cs)
  show ?case
  proof (cases c)
    case WHijack
    then show ?thesis
      using recorder_hijacked [of "recorder_hijack s" cs] by (simp add: recorder_hijack_def tracker_hijack_def tracker_pass_def)
  qed (use Cons in \<open>simp_all add: recorder_write_header_def recorder_write_def recorder_flush_def tracker_flush_def tracker_pass_def\<close>)
qed simp

lemma new_writers [simp]:
  "\<not> rc_hijacked (new_recorder t)" "rc_tracker (new_recorder t) = t" "rc_status (new_recorder t) = 200"
  "\<not> tr_hijacked new_tracker" "tr_calls new_tracker = []"
  by (simp_all add: new_recorder_def new_tracker_def)

lemma chain_calls:
  "fst (through_chain enc N trusted rid r cs panicked) = until_hijack cs @
     (if panicked \<and> WHijack \<notin> set cs
      then [WHeader 500, WBody (enc (NObj [(''error'', NText ''internal_server_error''), (''request_id'', NText [])]))]
      else [])"
  using recorder_calls [of "new_recorder new_tracker" cs]
  by (simp add: through_chain_def Let_def recovered_def tracker_pass_def request_id_from_def)

lemma until_hijack_none: "WHijack \<notin> set cs \<Longrightarrow> until_hijack cs = cs"
  by (induction cs rule: until_hijack.induct) auto

lemma sent_status_append: "WHijack \<notin> set cs \<Longrightarrow>
    sent_status (cs @ ds) = (case sent_status cs of None \<Rightarrow> sent_status ds | Some n \<Rightarrow> Some n)"
  by (induction cs rule: sent_status.induct) auto

text \<open>A handler that panics: a hijacked connection is left alone; otherwise the client gets status 500 with an error, or, if
  the handler had begun its answer, that answer's status and the error behind what was written. The error names
  an empty request identifier, and the access log has no entry.\<close>
lemma panic_answered:
  "snd (through_chain enc N trusted rid r cs True) = None"
  "WHijack \<in> set cs \<Longrightarrow> fst (through_chain enc N trusted rid r cs True) = until_hijack cs"
  "WHijack \<notin> set cs \<Longrightarrow> sent_status (fst (through_chain enc N trusted rid r cs True)) =
     Some (case sent_status cs of None \<Rightarrow> 500 | Some n \<Rightarrow> n)"
  "WHijack \<notin> set cs \<Longrightarrow> sent_status cs = None \<Longrightarrow> sent_body (fst (through_chain enc N trusted rid r cs True)) =
     enc (NObj [(''error'', NText ''internal_server_error''), (''request_id'', NText [])])"
proof -
  show "snd (through_chain enc N trusted rid r cs True) = None" by (simp add: through_chain_def Let_def)
  show "WHijack \<in> set cs \<Longrightarrow> fst (through_chain enc N trusted rid r cs True) = until_hijack cs"
    by (simp add: chain_calls)
  have f: "final_status 500" by (simp add: final_status_def)
  assume h: "WHijack \<notin> set cs"
  show s: "sent_status (fst (through_chain enc N trusted rid r cs True)) = Some (case sent_status cs of None \<Rightarrow> 500 | Some n \<Rightarrow> n)"
    using h f by (simp add: chain_calls until_hijack_none sent_status_append split: option.split)
  assume n: "sent_status cs = None"
  have "concat (map (\<lambda>c. case c of WBody b \<Rightarrow> b | _ \<Rightarrow> []) cs) = []"
    using h n by (induction cs rule: sent_status.induct) (auto split: if_splits)
  then show "sent_body (fst (through_chain enc N trusted rid r cs True)) =
     enc (NObj [(''error'', NText ''internal_server_error''), (''request_id'', NText [])])"
    using s h n by (simp add: sent_body_def body_allowed_def chain_calls until_hijack_none)
qed

section \<open>Answers of the handlers\<close>

text \<open>A handler that answers once: the status, unless it leaves 200 implicit, and the body; or it hijacks.\<close>

fun answers :: "wcall list \<Rightarrow> bool" where
  "answers (WHeader code # cs) = (final_status code \<and> list_all (\<lambda>c. case c of WBody b \<Rightarrow> True | WFlush \<Rightarrow> True | _ \<Rightarrow> False) cs)"
| "answers (WBody b # cs) = list_all (\<lambda>c. case c of WBody b \<Rightarrow> True | WFlush \<Rightarrow> True | _ \<Rightarrow> False) cs"
| "answers _ = False"

lemma bodies_keep_status:
  "list_all (\<lambda>c. case c of WBody b \<Rightarrow> True | WFlush \<Rightarrow> True | _ \<Rightarrow> False) cs \<Longrightarrow> \<not> rc_hijacked s \<Longrightarrow>
    rc_status (fold recorder_call cs s) = rc_status s \<and> \<not> rc_hijacked (fold recorder_call cs s)"
  by (induction cs arbitrary: s)
    (auto simp: recorder_write_def recorder_flush_def split: wcall.splits)

lemma no_hijack: "list_all (\<lambda>c. case c of WBody b \<Rightarrow> True | WFlush \<Rightarrow> True | _ \<Rightarrow> False) cs \<Longrightarrow> WHijack \<notin> set cs"
  by (auto simp: list_all_iff)

text \<open>The access log has the status that the client gets, the identifier that the client is told, and the address that
  the limits count; errors of the server are logged as errors, refusals and changes at least at info.\<close>
lemma access_log_truthful:
  assumes "answers cs"
  obtains e where "snd (through_chain enc N trusted rid r cs False) = Some e"
    "sent_status (fst (through_chain enc N trusted rid r cs False)) = Some (ae_status e)"
    "ae_request_id e = rid" "ae_ip e = client_ip N trusted r"
    "hr_Path r \<noteq> ''/api/v1/rflink/raw/ws'' \<Longrightarrow> 500 \<le> ae_status e \<Longrightarrow> ae_level e = LevelError"
    "hr_Path r \<noteq> ''/api/v1/rflink/raw/ws'' \<Longrightarrow> 400 \<le> ae_status e \<or> is_important_http_request (hr_Method r) (hr_Path r) \<Longrightarrow>
       LevelInfo \<le> ae_level e"
proof -
  define s where "s = fold recorder_call cs (new_recorder new_tracker)"
  have st: "sent_status cs = Some (rc_status s) \<and> \<not> rc_hijacked s \<and> WHijack \<notin> set cs"
  proof (cases cs rule: answers.cases)
    case (1 code ds)
    then show ?thesis
      using assms bodies_keep_status [of ds "recorder_call (WHeader code) (new_recorder new_tracker)"] no_hijack [of ds]
      by (simp add: s_def recorder_write_header_def)
  next
    case (2 b ds)
    then show ?thesis
      using assms bodies_keep_status [of ds "recorder_call (WBody b) (new_recorder new_tracker)"] no_hijack [of ds]
      by (simp add: s_def recorder_write_def)
  qed (use assms in simp_all)
  let ?c = "real_ip N trusted r (Map.empty(CtxRequestID \<mapsto> rid))"
  let ?e = "access_log ?c (hr_Method r) (hr_Path r) s"
  have "snd (through_chain enc N trusted rid r cs False) = Some ?e" by (simp add: through_chain_def Let_def s_def)
  moreover have "sent_status (fst (through_chain enc N trusted rid r cs False)) = Some (ae_status ?e)"
    using st by (simp add: chain_calls until_hijack_none access_log_def)
  moreover have "ae_request_id ?e = rid" "ae_ip ?e = client_ip N trusted r"
    by (simp_all add: access_log_def real_ip_def request_id_from_def client_ip_from_def)
  ultimately show thesis
    using st by (intro that [of ?e])
      (auto simp: access_log_def access_level_def less_eq_log_level_def slog_level_def)
qed

text \<open>The calls for a response of the model: an upgraded connection is hijacked.\<close>

definition reply_text :: "(json \<Rightarrow> string) \<Rightarrow> reply \<Rightarrow> string" where
  "reply_text enc rp = (case rp of RNone \<Rightarrow> [] | RText s \<Rightarrow> s | RJson v \<Rightarrow> enc v)"

definition response_calls :: "(json \<Rightarrow> string) \<Rightarrow> response \<Rightarrow> wcall list" where
  "response_calls enc rp =
     (if rp_Status rp = 101 then [WHijack]
      else WHeader (rp_Status rp) # (if rp_Reply rp = RNone then [] else [WBody (reply_text enc (rp_Reply rp))]))"

lemma response_answers: "rp_Status rp \<noteq> 101 \<Longrightarrow> final_status (rp_Status rp) \<Longrightarrow> answers (response_calls enc rp)"
  by (simp add: response_calls_def)

section \<open>What the server warns of\<close>

datatype start_warning = GuiLocked | ShortSecret | OpenToTheNetwork

definition start_warnings :: "unicode \<Rightarrow> net_lib \<Rightarrow> options \<Rightarrow> start_warning list" where
  "start_warnings U N o' =
     (let addr = trim_space (Listen (HTTP o'));
          gui_auth = (trim_space (AuthToken (HTTP o')) \<noteq> []);
          api_auth = (apiTokens o' \<noteq> [])
      in (if \<not> gui_auth then [GuiLocked]
          else if length (trim_space (AuthToken (HTTP o'))) < 16 then [ShortSecret] else []) @
         (if is_non_local_listen U N addr \<and> \<not> gui_auth \<and> \<not> api_auth then [OpenToTheNetwork] else []))"

text \<open>No warning is given exactly for a password of at least 16 bytes; without one and without tokens the server is
  silent about the network only on a loopback address.\<close>
lemma silent_start: "start_warnings U N o' = [] \<longleftrightarrow> 16 \<le> length (trim_space (AuthToken (HTTP o')))"
  by (auto simp: start_warnings_def Let_def)

lemma quiet_listener:
  assumes "OpenToTheNetwork \<notin> set (start_warnings U N o')" and "gui_locked o'" and "apiTokens o' = []"
  obtains h pt where "split_host_port (trim_space (Listen (HTTP o'))) = Some (h, pt)" "trim_space h \<noteq> []"
    "to_lower U (trim_space h) = ''localhost'' \<or>
     (\<exists>a. nl_parse_ip N (trim_right (dropWhile (\<lambda>c. c \<in> set ''[]'') (trim_space h)) ''[]'') = Some a \<and> is_loopback a)"
  using assms
  by (auto simp: start_warnings_def gui_locked_def is_non_local_listen_def Let_def split: option.splits prod.splits if_splits)

end
