(* ===== verification/Answers.thy ===== *)
theory Answers
  imports HttpWriter
begin

text \<open>
  That every request is answered: each handler of \<open>rflink/http_server.go\<close> ends with a final status, or hands its
  connection to the live feed, and the access log says of each what its client was told.
\<close>

section \<open>Statuses of the handlers\<close>

named_theorems statuses \<open>statuses of the responses\<close>

lemma status_of [statuses]:
  "rp_Status method_not_allowed = 405" "rp_Status read_only_error = 403" "rp_Status not_found = 404"
  by (simp_all add: method_not_allowed_def read_only_error_def not_found_def)

lemma status_of_saves [statuses]:
  "rp_Status (snd (save_reply x ok)) = (case snd x of Inl _ \<Rightarrow> 500 | Inr _ \<Rightarrow> 200)" "rp_Status (persist_error e) = 500"
  by (simp_all add: save_reply_def persist_error_def status_of split: sum.split option.split)

text \<open>A final status that is not the upgrade.\<close>

definition final :: "nat \<Rightarrow> bool" where "final n = (200 \<le> n)"

lemma command_status_final [statuses]: "final (command_status s)"
  by (simp add: final_def command_status_def)

lemma reads_final:
  "final (rp_Status (handle_healthz r))" "final (rp_Status (handle_readyz L now r S))"
  "final (rp_Status (handle_csrf d r))" "final (rp_Status (handle_gui L d r))" "final (rp_Status (gui_disabled r))"
  "final (rp_Status (snd (handle_api_health L d r S)))" "final (rp_Status (snd (handle_api_sensors L r S)))"
  "final (rp_Status (snd (handle_api_raw r S)))" "final (rp_Status (snd (handle_meta L now r S)))"
  "final (rp_Status (snd (handle_api_rate_limit d r S)))" "final (rp_Status (snd (handle_serial_info L d r S)))"
  "final (rp_Status (snd (handle_config_backups L r S)))"
  by (simp_all add: final_def statuses handle_healthz_def handle_readyz_def handle_csrf_def handle_gui_def gui_disabled_def
      handle_api_health_def handle_api_sensors_def handle_api_raw_def handle_meta_def handle_api_rate_limit_def
      handle_serial_info_def handle_config_backups_def Let_def split: prod.split)

lemma writes_final:
  "final (rp_Status (snd (handle_api_command L d r S)))" "final (rp_Status (snd (handle_api_rediscover L r S)))"
  "final (rp_Status (snd (handle_api_config L d r S)))" "final (rp_Status (snd (handle_config_restore L d r S)))"
  subgoal by (simp add: handle_api_command_def statuses Let_def final_def command_status_def split: prod.split bool.split)
  subgoal by (simp add: handle_api_rediscover_def statuses final_def)
  subgoal by (simp add: handle_api_config_def get_config_def put_config_def statuses Let_def final_def
        split: prod.split bool.split option.split sum.split)
  subgoal by (simp add: handle_config_restore_def statuses Let_def final_def split: prod.split option.split)
  done

lemma refusals_final:
  "require_gui_session now r S = (S1, Some rp) \<Longrightarrow> final (rp_Status rp)"
  "check_csrf now r S = (S1, Some rp) \<Longrightarrow> final (rp_Status rp)"
  "check_scope U k r = Some rp \<Longrightarrow> final (rp_Status rp)"
  "login_gate now ip r S = (S1, Some rp) \<Longrightarrow> final (rp_Status rp)"
  by (auto simp: require_gui_session_def check_csrf_def check_scope_def login_gate_def statuses Let_def final_def
      split: if_splits prod.splits bool.splits auth.splits)

lemma administration_final:
  "final (rp_Status (snd (create_webhook L d r S)))" "final (rp_Status (snd (update_webhook L d r S)))"
  "final (rp_Status (snd (delete_webhook L d r S)))" "final (rp_Status (snd (create_api_token L d r S)))"
  "final (rp_Status (snd (delete_api_token L r d S)))" "final (rp_Status (list_api_tokens L S))"
  "final (rp_Status (snd (delete_sessions L r S)))"
  subgoal by (simp add: create_webhook_def statuses Let_def final_def split: prod.split option.split sum.split)
  subgoal by (simp add: update_webhook_def statuses Let_def final_def split: prod.split option.split sum.split)
  subgoal by (simp add: delete_webhook_def statuses Let_def final_def split: prod.split sum.split)
  subgoal by (simp add: create_api_token_def statuses Let_def final_def split: option.split sum.split)
  subgoal by (simp add: delete_api_token_def statuses Let_def final_def split: sum.split)
  subgoal by (simp add: list_api_tokens_def statuses Let_def final_def)
  subgoal by (simp add: delete_sessions_def statuses Let_def final_def split: prod.split bool.split)
  done

lemma session_final:
  "final (rp_Status (snd (session_login L d ip r S)))" "final (rp_Status (snd (session_logout now r S)))"
  "final (rp_Status (snd (session_status L now r S)))"
  subgoal by (auto simp: session_login_def login_finish_def statuses Let_def final_def refusals_final(4) [unfolded final_def]
        split: prod.split option.split sum.split)
  subgoal by (auto simp: session_logout_def statuses Let_def final_def refusals_final(2) [unfolded final_def]
        split: prod.split option.split)
  subgoal by (simp add: session_status_def statuses final_def split: prod.split option.split)
  done

lemma handlers_final:
  "final (rp_Status (snd (handle_session L d ip r S)))" "final (rp_Status (snd (handle_api_tokens L d r S)))"
  "final (rp_Status (snd (handle_webhooks L d r S)))" "final (rp_Status (snd (handle_sessions L d r S)))"
proof -
  have m: "final (rp_Status method_not_allowed)" "final (rp_Status (write_json 200 v))" "final 200" "final 405" for v
    by (simp_all add: statuses final_def)
  show "final (rp_Status (snd (handle_session L d ip r S)))"
    by (simp add: handle_session_def session_final m)
  show "final (rp_Status (snd (handle_api_tokens L d r S)))" "final (rp_Status (snd (handle_webhooks L d r S)))"
    "final (rp_Status (snd (handle_sessions L d r S)))"
    by (auto simp: handle_api_tokens_def handle_webhooks_def handle_sessions_def administration_final m Let_def statuses
        refusals_final(1) split: prod.split option.split)
qed

lemma protected_final:
  assumes "(p, h) \<in> set (protected_routes L d)"
  shows "final (rp_Status (snd (h r S)))"
  using assms by (auto simp: protected_routes_def reads_final writes_final handlers_final)

lemma protect_final:
  assumes "\<And>S. final (rp_Status (snd (h r S)))"
  shows "final (rp_Status (snd (protect L d h r S)))"
  using assms by (auto simp: protect_def statuses refusals_final(2,3) split: prod.split option.split)
    (simp_all add: final_def)

section \<open>Every request\<close>

text \<open>
  The redirects of the multiplexer and the refusals of the upgrader, which are not code of the program, have final
  statuses.
\<close>

definition surroundings_answer :: "http_lib \<Rightarrow> draws \<Rightarrow> request \<Rightarrow> bool" where
  "surroundings_answer L d r =
     ((case hl_mux L r of None \<Rightarrow> True | Some rp \<Rightarrow> 200 \<le> rp_Status rp) \<and>
      (case d_upgrade d of None \<Rightarrow> True | Some n \<Rightarrow> 200 \<le> n))"

lemma raw_ws_status:
  assumes "surroundings_answer L d r"
  shows "final (rp_Status (snd (handle_raw_ws L d r S))) \<or>
    rp_Status (snd (handle_raw_ws L d r S)) = 101 \<and> hr_Method r = ''GET'' \<and> snd (check_auth_ws L (d_now d) r S)"
  using assms
  by (auto simp: handle_raw_ws_def statuses surroundings_answer_def final_def split: prod.split bool.split option.split)

lemma dispatch_status:
  assumes "surroundings_answer L d r"
  shows "final (rp_Status (snd (dispatch L d ip r S))) \<or>
    rp_Status (snd (dispatch L d ip r S)) = 101 \<and> hr_Path r = ''/api/v1/rflink/raw/ws'' \<and> hr_Method r = ''GET'' \<and>
    snd (check_auth_ws L (d_now d) r S)"
proof (cases "map_of (protected_routes L d) (hr_Path r)")
  case (Some h)
  then have "(hr_Path r, h) \<in> set (protected_routes L d)" by (rule map_of_SomeD)
  then show ?thesis using protect_final protected_final by (simp add: dispatch_def Some)
next
  case none: None
  show ?thesis
  proof (cases "map_of (open_routes L d ip) (hr_Path r)")
    case (Some h)
    then have "(hr_Path r, h) \<in> set (open_routes L d ip)" by (rule map_of_SomeD)
    then show ?thesis
      using raw_ws_status [OF assms]
      by (auto simp: dispatch_def none Some open_routes_def reads_final handlers_final)
  next
    case None
    then show ?thesis by (simp add: dispatch_def none reads_final)
  qed
qed

lemma serve_status:
  assumes "surroundings_answer L d r"
  shows "final (rp_Status (snd (serve L d r S))) \<or>
    rp_Status (snd (serve L d r S)) = 101 \<and> hr_Path r = ''/api/v1/rflink/raw/ws'' \<and> hr_Method r = ''GET'' \<and>
    snd (check_auth_ws L (d_now d) r S)"
  using assms dispatch_status [OF assms]
  by (auto simp: serve_def Let_def surroundings_answer_def final_def split: option.splits)

text \<open>The calls of a response give it to the client.\<close>

lemma response_sent:
  assumes "final (rp_Status rp)"
  shows "sent_status (response_calls enc rp) = Some (rp_Status rp)"
    and "body_allowed (rp_Status rp) \<Longrightarrow> sent_body (response_calls enc rp) = reply_text enc (rp_Reply rp)"
    and "WHijack \<notin> set (response_calls enc rp)"
  using assms by (auto simp: response_calls_def final_def final_status_def sent_body_def reply_text_def)

lemma told_request_id:
  "map_of (rp_Headers (snd (serve L d r S))) header_request_id = Some (request_id (new_uuid (d_uuid d) (d_uuid2 d)) r)"
  by (simp add: serve_def Let_def)

text \<open>C23: Every request is answered: with the status and the body of its handler, under a final status, or, on the path of
  the live feed and for an authorised client only, by an upgraded connection. The access log has one entry for it, with
  the status sent, the request identifier that the client is told in its header, and the address that the limits
  count; server errors are logged as errors.\<close>
theorem every_request_answered:
  assumes "surroundings_answer L d r"
    and "serve L d r S = (S', rp)"
    and "through_chain enc (rl_net (hl_rt L)) (sv_trusted S) (request_id (new_uuid (d_uuid d) (d_uuid2 d)) r) r
           (response_calls enc rp) False = (sent, entry)"
  shows "(if rp_Status rp = 101
          then sent = [WHijack] \<and> hr_Path r = ''/api/v1/rflink/raw/ws'' \<and> snd (check_auth_ws L (d_now d) r S)
          else 200 \<le> rp_Status rp \<and> sent_status sent = Some (rp_Status rp) \<and>
            (body_allowed (rp_Status rp) \<longrightarrow> sent_body sent = reply_text enc (rp_Reply rp))) \<and>
    (\<exists>e. entry = Some e \<and> ae_status e = rp_Status rp \<and>
      map_of (rp_Headers rp) header_request_id = Some (ae_request_id e) \<and>
      ae_ip e = client_ip (rl_net (hl_rt L)) (sv_trusted S) r \<and>
      (hr_Path r \<noteq> ''/api/v1/rflink/raw/ws'' \<and> 500 \<le> rp_Status rp \<longrightarrow> ae_level e = LevelError))"
proof -
  let ?N = "rl_net (hl_rt L)" and ?rid = "request_id (new_uuid (d_uuid d) (d_uuid2 d)) r"
  have rp: "rp = snd (serve L d r S)" using assms(2) by simp
  have told: "map_of (rp_Headers rp) header_request_id = Some ?rid" unfolding rp by (rule told_request_id)
  have sent: "sent = until_hijack (response_calls enc rp)"
    using chain_calls [of enc ?N "sv_trusted S" ?rid r "response_calls enc rp" False] assms(3) by simp
  consider (final) "final (rp_Status rp)"
    | (feed) "rp_Status rp = 101" "hr_Path r = ''/api/v1/rflink/raw/ws''" "snd (check_auth_ws L (d_now d) r S)"
    using serve_status [OF assms(1), of S] unfolding rp by blast
  then show ?thesis
  proof cases
    case final
    note out = response_sent [OF final, of enc]
    have n101: "rp_Status rp \<noteq> 101" using final by (simp add: final_def)
    have "answers (response_calls enc rp)"
      using final n101 by (intro response_answers) (simp_all add: final_def final_status_def)
    then obtain e where e: "entry = Some e" "sent_status sent = Some (ae_status e)" "ae_request_id e = ?rid"
        "ae_ip e = client_ip ?N (sv_trusted S) r"
        "hr_Path r \<noteq> ''/api/v1/rflink/raw/ws'' \<Longrightarrow> 500 \<le> ae_status e \<Longrightarrow> ae_level e = LevelError"
      using access_log_truthful [of "response_calls enc rp" enc ?N "sv_trusted S" ?rid r] assms(3) by (metis fst_conv snd_conv)
    have s: "sent = response_calls enc rp" using sent until_hijack_none out(3) by simp
    then have "ae_status e = rp_Status rp" using e(2) out(1) by simp
    then show ?thesis using e s out final told n101 by (simp add: final_def)
  next
    case feed
    then have c: "response_calls enc rp = [WHijack]" by (simp add: response_calls_def)
    have "entry = Some (access_log (real_ip ?N (sv_trusted S) r (Map.empty(CtxRequestID \<mapsto> ?rid))) (hr_Method r) (hr_Path r)
        (recorder_hijack (new_recorder new_tracker)))"
      using assms(3) by (simp add: through_chain_def Let_def c)
    then show ?thesis
      using feed sent told by (simp add: c access_log_def real_ip_def request_id_from_def client_ip_from_def recorder_hijack_def)
  qed
qed

text \<open>The probe of the container: 200, under the status the access log has.\<close>
theorem every_request_answered_witness:
  "let r = sample_request ''GET'' ''/healthz'' []; rp = snd (serve sample_http sample_draws r sample_server);
       res = through_chain (\<lambda>_. ''{}'') (rl_net (hl_rt sample_http)) [] (request_id (new_uuid (Inr (replicate 16 0)) (Inr [])) r) r
               (response_calls (\<lambda>_. ''{}'') rp) False
   in sent_status (fst res) = Some 200 \<and> sent_body (fst res) = ''ok'' @ [CHR 0x0A] \<and> (\<exists>e. snd res = Some e \<and> ae_status e = 200)"
proof -
  let ?r = "sample_request ''GET'' ''/healthz'' []"
  have mux: "hl_mux sample_http ?r = None" by (simp add: sample_http_def)
  have "surroundings_answer sample_http sample_draws ?r"
    by (simp add: surroundings_answer_def sample_http_def sample_draws_def)
  note ans = every_request_answered [OF this prod.collapse [symmetric] prod.collapse [symmetric], of sample_server "\<lambda>_. ''{}''"]
  have "rp_Status (snd (serve sample_http sample_draws ?r sample_server)) = 200 \<and>
      rp_Reply (snd (serve sample_http sample_draws ?r sample_server)) = RText (''ok'' @ [CHR 0x0A])"
    by (simp add: serve_def Let_def mux dispatch_def protected_routes_def open_routes_def handle_healthz_def)
  then show ?thesis
    using ans by (auto simp: Let_def sample_server_def sample_draws_def body_allowed_def reply_text_def)
qed

end
