(* ===== verification/Workers.thy ===== *)
theory Workers
  imports HttpWriter
begin

text \<open>
  The loops around the steps: the publish loop with its restarts (\<open>rflink/publisher.go\<close>), the timers of the pings
  (\<open>rflink/app.go\<close>) and of the polls (\<open>rflink/webhooks.go\<close>), and the order in which \<open>Stop\<close> ends everything.
\<close>

section \<open>The publish loop\<close>

text \<open>
  What the \<open>select\<close> finds: an event, with the order of the maps it visits; an event whose handling panics after it
  has changed the publisher; the end of the context; a closed channel.
\<close>

datatype publish_input =
    PubEvent "nat \<Rightarrow> string \<Rightarrow> nat" "instant \<times> loop_event"
  | PubPanic "publisher \<Rightarrow> publisher"
  | PubDone
  | PubClosed

text \<open>The inner loop returns the inputs it has not consumed; the end of the context stays.\<close>

fun run_publish_inner :: "env \<Rightarrow> options \<Rightarrow> publish_input list \<Rightarrow> publisher \<Rightarrow> publisher \<times> publish_input list" where
  "run_publish_inner E o' [] p = (p, [])"
| "run_publish_inner E o' (PubDone # ins) p = (p, PubDone # ins)"
| "run_publish_inner E o' (PubClosed # ins) p = (p, ins)"
| "run_publish_inner E o' (PubPanic f # ins) p = (loop_recovered (f p), ins)"
| "run_publish_inner E o' (PubEvent rk ev # ins) p = run_publish_inner E o' ins (loop_step E o' rk ev p)"

lemma inner_consumes: "length (snd (run_publish_inner E o' ins p)) \<le> length ins"
  by (induction E o' ins p rule: run_publish_inner.induct) auto

text \<open>The outer loop, on the inputs until it waits for more or the context has ended.\<close>

function run_publish_loop :: "env \<Rightarrow> options \<Rightarrow> publish_input list \<Rightarrow> publisher \<Rightarrow> publisher" where
  "run_publish_loop E o' ins p =
     (if ins = [] \<or> hd ins = PubDone then p
      else run_publish_loop E o' (snd (run_publish_inner E o' ins p)) (fst (run_publish_inner E o' ins p)))"
  by auto
termination
proof (relation "measure (\<lambda>(E, o', ins, p). length ins)")
  fix E o' p and ins :: "publish_input list"
  assume "\<not> (ins = [] \<or> hd ins = PubDone)"
  then obtain x xs where ins: "ins = x # xs" "x \<noteq> PubDone" by (cases ins) auto
  then show "((E, o', snd (run_publish_inner E o' ins p), fst (run_publish_inner E o' ins p)), E, o', ins, p)
      \<in> measure (\<lambda>(E, o', ins, p). length ins)"
    using inner_consumes by (cases x) (auto simp: less_Suc_eq_le)
qed simp

declare run_publish_loop.simps [simp del]

text \<open>The loop as one fold: each input by itself, until the context ends.\<close>

definition publish_step :: "env \<Rightarrow> options \<Rightarrow> publish_input \<Rightarrow> publisher \<Rightarrow> publisher" where
  "publish_step E o' i p =
     (case i of PubEvent rk ev \<Rightarrow> loop_step E o' rk ev p | PubPanic f \<Rightarrow> loop_recovered (f p) | _ \<Rightarrow> p)"

lemma inner_flat:
  "fold (publish_step E o') (takeWhile (\<lambda>i. i \<noteq> PubDone) (snd (run_publish_inner E o' ins p))) (fst (run_publish_inner E o' ins p)) =
   fold (publish_step E o') (takeWhile (\<lambda>i. i \<noteq> PubDone) ins) p"
  by (induction E o' ins p rule: run_publish_inner.induct) (simp_all add: publish_step_def)


text \<open>The tick of the health reports.\<close>

definition health_tick :: "options \<Rightarrow> duration option" where
  "health_tick o' = (if 0 < health_log_interval o' then Some (health_log_interval o') else None)"

section \<open>Timers\<close>

text \<open>A goroutine that waits for its timer, with the time it has armed it for, or that has returned.\<close>

datatype timer_loop = Armed duration | Returned

datatype timer_input = TimerDone | TimerFired instant

definition ping_loop_start :: "options \<Rightarrow> timer_loop" where
  "ping_loop_start o' = (case first_ping_delay o' of None \<Rightarrow> Returned | Some d \<Rightarrow> Armed d)"

fun ping_loop_round :: "driver \<Rightarrow> options \<Rightarrow> timer_input \<Rightarrow> timer_loop \<times> app \<Rightarrow> timer_loop \<times> app" where
  "ping_loop_round D o' TimerDone (w, a) = (Returned, a)"
| "ping_loop_round D o' (TimerFired now) (Armed w, a) = (Armed (serial_ping_interval o'), send_ping D now a)"
| "ping_loop_round D o' (TimerFired now) (Returned, a) = (Returned, a)"

text \<open>A poll: the wait is a \<open>time.Duration\<close>, so the product with a second wraps around.\<close>

definition poll_wait :: "webhook \<Rightarrow> duration" where
  "poll_wait h = seconds (poll_interval h)"

fun poll_loop_round ::
  "env \<Rightarrow> driver \<Rightarrow> quoting \<Rightarrow> options \<Rightarrow> net_lib \<Rightarrow> (string \<Rightarrow> nat) \<Rightarrow> (out_request \<Rightarrow> http_response option) \<Rightarrow> webhook \<Rightarrow>
   timer_input \<Rightarrow> timer_loop \<times> app \<Rightarrow> timer_loop \<times> app" where
  "poll_loop_round E D Q o' N rank answer h TimerDone (w, a) = (Returned, a)"
| "poll_loop_round E D Q o' N rank answer h (TimerFired now) (Armed w, a) =
     (Armed (poll_wait h), do_poll_once E D Q o' N rank answer now h a)"
| "poll_loop_round E D Q o' N rank answer h (TimerFired now) (Returned, a) = (Returned, a)"

lemma ping_waits:
  assumes "options_ok o'" and "0 < PingIntervalSec (Serial o')" and "PingIntervalSec (Serial o') \<le> max_seconds"
  shows "\<exists>d. ping_loop_start o' = Armed d \<and> 0 < d \<and> d \<le> serial_ping_interval o'"
proof -
  have i: "serial_ping_interval o' = PingIntervalSec (Serial o') * nanos_per_second"
    using assms(2,3) by (simp add: serial_ping_interval_def optional_seconds_def seconds_exact)
  then have "0 < serial_ping_interval o'" using assms(2) by simp
  moreover have "0 < seconds 5" by code_simp
  ultimately show ?thesis
    by (simp add: ping_loop_start_def first_ping_delay_def Let_def)
qed

text \<open>An accepted hook is polled after at least five seconds and at most a day; from a runtime file, whose hooks are not
  checked, an interval beyond the range of durations makes the wait negative: the timer fires at once.\<close>

lemma accepted_poll_wait:
  assumes "hook_wf h" and "wh_Kind h = ''poll''"
  shows "seconds 5 \<le> poll_wait h" and "poll_wait h \<le> seconds 86400"
proof -
  have r: "5 \<le> wh_IntervalSec h" "wh_IntervalSec h \<le> 86400"
    using assms by (simp_all add: hook_wf_def min_poll_interval_sec_def)
  then have "poll_wait h = wh_IntervalSec h * nanos_per_second"
    by (simp add: poll_wait_def poll_interval_def min_poll_interval_sec_def seconds_exact max_seconds_def)
  moreover have "seconds 5 = 5 * nanos_per_second" "seconds 86400 = 86400 * nanos_per_second" by code_simp+
  ultimately show "seconds 5 \<le> poll_wait h" "poll_wait h \<le> seconds 86400" using r by simp_all
qed

lemma unchecked_poll_wait: "wh_IntervalSec h = 9223372037 \<Longrightarrow> poll_wait h < 0"
proof -
  assume i: "wh_IntervalSec h = 9223372037"
  have "seconds 9223372037 < 0" by code_simp
  then show ?thesis by (simp add: poll_wait_def poll_interval_def i min_poll_interval_sec_def)
qed

section \<open>Stop\<close>

text \<open>The watcher of the runtime file ends with a closed channel, which is closed once.\<close>

definition runtime_stop :: "bool \<Rightarrow> bool" where
  "runtime_stop ended = (if ended then ended else True)"

definition http_shutdown_timeout :: duration where "http_shutdown_timeout = seconds 5"

text \<open>\<open>Stop\<close>, when the workers have left the application as \<open>a\<close>.\<close>

definition stop_gateway :: "http_lib \<Rightarrow> app \<Rightarrow> gateway \<Rightarrow> gateway" where
  "stop_gateway L a g =
     g\<lparr>gw_http := None, gw_hooks := hooks_stop (gw_hooks g),
       gw_app := app_stop (hl_env L) (hl_driver L) (rm_opts (gw_runtime g)) a\<rparr>"

text \<open>The messages of a goodbye: both statuses offline, retained.\<close>

definition goodbye :: "options \<Rightarrow> mqtt_msg list" where
  "goodbye o' = [\<lparr>m_topic = status_topic o', m_qos = mqtt_qos o', m_retain = True, m_payload = PText status_offline\<rparr>,
     \<lparr>m_topic = serial_status_topic o', m_qos = mqtt_qos o', m_retain = True, m_payload = PText status_offline\<rparr>]"

lemma publish_raw_text:
  "cm_set p \<Longrightarrow> \<exists>ok. outbox (fst (publish_raw E topic (PText s) qos r p)) =
     outbox p @ [(\<lparr>m_topic = topic, m_qos = qos, m_retain = r, m_payload = PText s\<rparr>, ok)] \<and>
     cm_set (fst (publish_raw E topic (PText s) qos r p))"
  by (auto simp: publish_raw_def payload_data_def Let_def split: option.split)

lemma stop_leaves_nothing_running:
  "\<not> port_open (ap_serial (gw_app (stop_gateway L a g)))"
  "ap_phase (gw_app (stop_gateway L a g)) = Stopped"
  "hm_polls (gw_hooks (stop_gateway L a g)) = []" "gw_http (stop_gateway L a g) = None"
  "wrote (ap_serial (gw_app (stop_gateway L a g))) = wrote (ap_serial a)"
  "cm_set (ap_pub a) \<Longrightarrow> mqtt_up (ap_pub a) \<Longrightarrow>
     \<exists>oks. length oks = 2 \<and> outbox (ap_pub (gw_app (stop_gateway L a g))) =
       outbox (ap_pub a) @ zip (goodbye (rm_opts (gw_runtime g))) oks"
  "\<not> (cm_set (ap_pub a) \<and> mqtt_up (ap_pub a)) \<Longrightarrow> outbox (ap_pub (gw_app (stop_gateway L a g))) = outbox (ap_pub a)"
proof -
  let ?o = "rm_opts (gw_runtime g)" and ?E = "hl_env L"
  show "\<not> port_open (ap_serial (gw_app (stop_gateway L a g)))" "ap_phase (gw_app (stop_gateway L a g)) = Stopped"
    "hm_polls (gw_hooks (stop_gateway L a g)) = []" "gw_http (stop_gateway L a g) = None"
    "wrote (ap_serial (gw_app (stop_gateway L a g))) = wrote (ap_serial a)"
    by (simp_all add: stop_gateway_def hooks_stop_def) (simp_all add: app_stop_def Let_def)
  have pub: "ap_pub (gw_app (stop_gateway L a g)) = publisher_disconnect ?E ?o (ap_pub a)"
    by (simp add: stop_gateway_def app_stop_def Let_def)
  show "\<not> (cm_set (ap_pub a) \<and> mqtt_up (ap_pub a)) \<Longrightarrow> outbox (ap_pub (gw_app (stop_gateway L a g))) = outbox (ap_pub a)"
    unfolding pub publisher_disconnect_def by auto
  assume up: "cm_set (ap_pub a)" "mqtt_up (ap_pub a)"
  define p1 where "p1 = fst (publish_raw ?E (status_topic ?o) (PText status_offline) (mqtt_qos ?o) True (ap_pub a))"
  obtain ok1 where ok1: "outbox p1 = outbox (ap_pub a) @ [(\<lparr>m_topic = status_topic ?o, m_qos = mqtt_qos ?o, m_retain = True,
      m_payload = PText status_offline\<rparr>, ok1)]" "cm_set p1"
    using publish_raw_text [OF up(1)] unfolding p1_def by blast
  have d: "publisher_disconnect ?E ?o (ap_pub a) =
      fst (publish_raw ?E (serial_status_topic ?o) (PText status_offline) (mqtt_qos ?o) True p1)"
    using up by (simp add: publisher_disconnect_def p1_def)
  obtain ok2 where "outbox (publisher_disconnect ?E ?o (ap_pub a)) = outbox p1 @ [(\<lparr>m_topic = serial_status_topic ?o,
      m_qos = mqtt_qos ?o, m_retain = True, m_payload = PText status_offline\<rparr>, ok2)]"
    using publish_raw_text [OF ok1(2)] unfolding d by blast
  then show "\<exists>oks. length oks = 2 \<and> outbox (ap_pub (gw_app (stop_gateway L a g))) = outbox (ap_pub a) @ zip (goodbye ?o) oks"
    using ok1 by (intro exI [of _ "[ok1, ok2]"]) (simp add: pub goodbye_def)
qed

text \<open>The watcher is stopped after the webhooks: a change of the file that it notices in between starts the polls again.\<close>

lemma late_reload_restarts_polls:
  assumes "wh_Enabled h" and "to_lower U (wh_Kind h) = ''poll''" and "h \<in> set (webhooks o')"
  shows "h \<in> set (hm_polls (hooks_reload U o' (hooks_stop m)))"
  using assms by (simp add: hooks_reload_def)

end
